theory Spec2Isabelle
  imports Complex_Main
begin

section \<open>JavaScript numbers\<close>

text \<open>
  The library computes on JavaScript numbers (IEEE-754 doubles). A number is modelled as
  a real value or one of the three special values. Arithmetic on finite values is exact
  real arithmetic followed by the overflow test \<open>fl\<close>: a result whose magnitude reaches
  \<open>2 ^ 1024\<close> becomes an infinity. Rounding of results that stay in range, gradual
  underflow and the sign of zero are not modelled; a decimal literal of the source
  denotes the rational it spells and \<open>Math.PI\<close> is \<open>pi\<close>.
\<close>

datatype jsnum = Fin real | PInf | NInf | NaN

definition dbl_limit :: real where
  "dbl_limit = 2 ^ 1024"

definition fl :: "real \<Rightarrow> jsnum" where
  "fl r = (if dbl_limit \<le> r then PInf else if r \<le> - dbl_limit then NInf else Fin r)"

fun jneg :: "jsnum \<Rightarrow> jsnum" where
  "jneg (Fin a) = Fin (- a)"
| "jneg PInf = NInf"
| "jneg NInf = PInf"
| "jneg NaN = NaN"

fun jadd :: "jsnum \<Rightarrow> jsnum \<Rightarrow> jsnum" where
  "jadd (Fin a) (Fin b) = fl (a + b)"
| "jadd (Fin a) PInf = PInf"
| "jadd (Fin a) NInf = NInf"
| "jadd PInf (Fin b) = PInf"
| "jadd PInf PInf = PInf"
| "jadd NInf (Fin b) = NInf"
| "jadd NInf NInf = NInf"
| "jadd _ _ = NaN"

definition jsub :: "jsnum \<Rightarrow> jsnum \<Rightarrow> jsnum" where
  "jsub a b = jadd a (jneg b)"

fun jmul :: "jsnum \<Rightarrow> jsnum \<Rightarrow> jsnum" where
  "jmul (Fin a) (Fin b) = fl (a * b)"
| "jmul (Fin a) PInf = (if a = 0 then NaN else if 0 < a then PInf else NInf)"
| "jmul (Fin a) NInf = (if a = 0 then NaN else if 0 < a then NInf else PInf)"
| "jmul PInf (Fin b) = (if b = 0 then NaN else if 0 < b then PInf else NInf)"
| "jmul NInf (Fin b) = (if b = 0 then NaN else if 0 < b then NInf else PInf)"
| "jmul PInf PInf = PInf"
| "jmul PInf NInf = NInf"
| "jmul NInf PInf = NInf"
| "jmul NInf NInf = PInf"
| "jmul _ _ = NaN"

fun jdiv :: "jsnum \<Rightarrow> jsnum \<Rightarrow> jsnum" where
  "jdiv (Fin a) (Fin b) =
     (if b = 0 then (if a = 0 then NaN else if 0 < a then PInf else NInf) else fl (a / b))"
| "jdiv (Fin a) PInf = Fin 0"
| "jdiv (Fin a) NInf = Fin 0"
| "jdiv PInf (Fin b) = (if 0 \<le> b then PInf else NInf)"
| "jdiv NInf (Fin b) = (if 0 \<le> b then NInf else PInf)"
| "jdiv _ _ = NaN"

text \<open>The comparison \<open><\<close>: false as soon as an operand is NaN.\<close>

fun jlt :: "jsnum \<Rightarrow> jsnum \<Rightarrow> bool" where
  "jlt (Fin a) (Fin b) = (a < b)"
| "jlt (Fin a) PInf = True"
| "jlt NInf (Fin b) = True"
| "jlt NInf PInf = True"
| "jlt _ _ = False"

text \<open>\<open>Math.max\<close> and \<open>Math.min\<close> of two arguments: NaN if either is NaN.\<close>

fun jmax :: "jsnum \<Rightarrow> jsnum \<Rightarrow> jsnum" where
  "jmax NaN _ = NaN"
| "jmax _ NaN = NaN"
| "jmax a b = (if jlt a b then b else a)"

fun jmin :: "jsnum \<Rightarrow> jsnum \<Rightarrow> jsnum" where
  "jmin NaN _ = NaN"
| "jmin _ NaN = NaN"
| "jmin a b = (if jlt b a then b else a)"

text \<open>
  \<open>Math.pow\<close>, in the case order of ECMAScript's Number::exponentiate: a NaN
  exponent, a zero exponent, a NaN base, an infinite base, a zero base, an infinite
  exponent, a negative base with a fractional exponent (NaN), and last the real power.
\<close>

definition odd_integer :: "real \<Rightarrow> bool" where
  "odd_integer b = (b \<in> \<int> \<and> odd \<lfloor>b\<rfloor>)"

fun jpow :: "jsnum \<Rightarrow> jsnum \<Rightarrow> jsnum" where
  "jpow _ NaN = NaN"
| "jpow NaN (Fin b) = (if b = 0 then Fin 1 else NaN)"
| "jpow NaN _ = NaN"
| "jpow PInf (Fin b) = (if b = 0 then Fin 1 else if 0 < b then PInf else Fin 0)"
| "jpow PInf PInf = PInf"
| "jpow PInf NInf = Fin 0"
| "jpow NInf (Fin b) =
     (if b = 0 then Fin 1
      else if 0 < b then (if odd_integer b then NInf else PInf)
      else Fin 0)"
| "jpow NInf PInf = PInf"
| "jpow NInf NInf = Fin 0"
| "jpow (Fin a) PInf =
     (if a = 0 then Fin 0
      else if 1 < \<bar>a\<bar> then PInf else if \<bar>a\<bar> = 1 then NaN else Fin 0)"
| "jpow (Fin a) NInf =
     (if a = 0 then PInf
      else if 1 < \<bar>a\<bar> then Fin 0 else if \<bar>a\<bar> = 1 then NaN else PInf)"
| "jpow (Fin a) (Fin b) =
     (if b = 0 then Fin 1
      else if a = 0 then (if 0 < b then Fin 0 else PInf)
      else if a < 0 then
        (if b \<notin> \<int> then NaN
         else if odd_integer b then fl (- (\<bar>a\<bar> powr b)) else fl (\<bar>a\<bar> powr b))
      else fl (a powr b))"

fun jsqrt :: "jsnum \<Rightarrow> jsnum" where
  "jsqrt (Fin a) = (if a < 0 then NaN else Fin (sqrt a))"
| "jsqrt PInf = PInf"
| "jsqrt _ = NaN"

fun jcos :: "jsnum \<Rightarrow> jsnum" where
  "jcos (Fin a) = Fin (cos a)"
| "jcos _ = NaN"

fun jsin :: "jsnum \<Rightarrow> jsnum" where
  "jsin (Fin a) = Fin (sin a)"
| "jsin _ = NaN"

text \<open>
  \<open>Math.atan2 (y, x)\<close> on finite arguments is the angle of the point \<open>(x, y)\<close> in
  \<open>(-pi, pi]\<close>, written out by quadrant; the infinite cases follow the standard's table.
\<close>

definition atan2 :: "real \<Rightarrow> real \<Rightarrow> real" where
  "atan2 b a =
     (if 0 < a then arctan (b / a)
      else if a < 0 then (if 0 \<le> b then arctan (b / a) + pi else arctan (b / a) - pi)
      else if 0 < b then pi / 2
      else if b < 0 then - (pi / 2)
      else 0)"

fun jatan2 :: "jsnum \<Rightarrow> jsnum \<Rightarrow> jsnum" where
  "jatan2 NaN _ = NaN"
| "jatan2 _ NaN = NaN"
| "jatan2 (Fin b) (Fin a) = Fin (atan2 b a)"
| "jatan2 (Fin b) PInf = Fin 0"
| "jatan2 (Fin b) NInf = (if 0 \<le> b then Fin pi else Fin (- pi))"
| "jatan2 PInf (Fin a) = Fin (pi / 2)"
| "jatan2 NInf (Fin a) = Fin (- (pi / 2))"
| "jatan2 PInf PInf = Fin (pi / 4)"
| "jatan2 PInf NInf = Fin (3 * pi / 4)"
| "jatan2 NInf PInf = Fin (- (pi / 4))"
| "jatan2 NInf NInf = Fin (- (3 * pi / 4))"

text \<open>
  The remainder operator \<open>%\<close>: the result has the sign of the dividend and is exact,
  \<open>n - d * q\<close> with \<open>q\<close> the quotient truncated towards zero.
\<close>

definition trunc :: "real \<Rightarrow> int" where
  "trunc r = (if 0 \<le> r then \<lfloor>r\<rfloor> else \<lceil>r\<rceil>)"

fun jrem :: "jsnum \<Rightarrow> jsnum \<Rightarrow> jsnum" where
  "jrem (Fin n) (Fin d) = (if d = 0 then NaN else Fin (n - d * of_int (trunc (n / d))))"
| "jrem (Fin n) PInf = Fin n"
| "jrem (Fin n) NInf = Fin n"
| "jrem _ _ = NaN"

section \<open>The vector type\<close>

text \<open>
  \<open>Vec3\<close> is the host application's class: three numeric fields \<open>x\<close>, \<open>y\<close>, \<open>z\<close>,
  read directly by the library.
\<close>

record vec3 =
  vx :: jsnum
  vy :: jsnum
  vz :: jsnum

abbreviation Vec3 :: "jsnum \<Rightarrow> jsnum \<Rightarrow> jsnum \<Rightarrow> vec3" where
  "Vec3 a b c \<equiv> \<lparr>vx = a, vy = b, vz = c\<rparr>"

text \<open>
  Modelled from the spec: the method \<open>Vec3.multiply\<close>, whose code is not part of the
  library; the spec gives it as the component-wise product of two vectors.
\<close>

definition multiply :: "vec3 \<Rightarrow> vec3 \<Rightarrow> vec3" where
  "multiply u v = Vec3 (jmul (vx u) (vx v)) (jmul (vy u) (vy v)) (jmul (vz u) (vz v))"

text \<open>
  Modelled from the spec: the method \<open>Vec3.mix\<close>, whose code is not part of the library;
  the spec gives it as linear interpolation in the conventional sense
  \<open>a + (b - a) * t\<close>, component by component.
\<close>

definition lerp :: "jsnum \<Rightarrow> jsnum \<Rightarrow> jsnum \<Rightarrow> jsnum" where
  "lerp a b t = jadd a (jmul (jsub b a) t)"

definition vec_mix :: "vec3 \<Rightarrow> vec3 \<Rightarrow> jsnum \<Rightarrow> vec3" where
  "vec_mix u v t = Vec3 (lerp (vx u) (vx v) t) (lerp (vy u) (vy v) t) (lerp (vz u) (vz v) t)"

section \<open>The class OkColor\<close>

text \<open>The four matrices, row by row, as the \<open>Float64Array\<close> literals list them.\<close>

definition kCONEtoLMS :: "jsnum list" where
  "kCONEtoLMS = map Fin
     [0.4122214708, 0.5363325363, 0.0514459929,
      0.2119034982, 0.6806995451, 0.1073969566,
      0.0883024619, 0.2817188376, 0.6299787005]"

definition kLMStoOKLAB :: "jsnum list" where
  "kLMStoOKLAB = map Fin
     [0.2104542553, 0.7936177850, -0.0040720468,
      1.9779984951, -2.4285922050, 0.4505937099,
      0.0259040371, 0.7827717662, -0.8086757660]"

definition kOKLABtoLMS :: "jsnum list" where
  "kOKLABtoLMS = map Fin
     [1.0, 0.3963377774, 0.2158037573,
      1.0, -0.1055613458, -0.0638541728,
      1.0, -0.0894841775, -1.2914855480]"

definition kLMStoCONE :: "jsnum list" where
  "kLMStoCONE = map Fin
     [4.0767416621, -3.3077115913, 0.2309699292,
      -1.2684380046, 2.6097574011, -0.3413193965,
      -0.0041960863, -0.7034186147, 1.7076147010]"

definition mat3MulVec3 :: "jsnum list \<Rightarrow> vec3 \<Rightarrow> vec3" where
  "mat3MulVec3 m v = Vec3
     (jadd (jadd (jmul (m ! 0) (vx v)) (jmul (m ! 1) (vy v))) (jmul (m ! 2) (vz v)))
     (jadd (jadd (jmul (m ! 3) (vx v)) (jmul (m ! 4) (vy v))) (jmul (m ! 5) (vz v)))
     (jadd (jadd (jmul (m ! 6) (vx v)) (jmul (m ! 7) (vy v))) (jmul (m ! 8) (vz v)))"

definition coneResponse :: "vec3 \<Rightarrow> vec3" where
  "coneResponse v = Vec3
     (jpow (jmax (vx v) (Fin 0)) (Fin 0.3333333))
     (jpow (jmax (vy v) (Fin 0)) (Fin 0.3333333))
     (jpow (jmax (vz v) (Fin 0)) (Fin 0.3333333))"

text \<open>
  An optional parameter \<open>gamma = 2.2\<close>: \<open>None\<close> is the call that leaves it out.
\<close>

definition gamma_or_default :: "jsnum option \<Rightarrow> jsnum" where
  "gamma_or_default g = (case g of None \<Rightarrow> Fin 2.2 | Some v \<Rightarrow> v)"

definition rgb2oklab :: "vec3 \<Rightarrow> jsnum option \<Rightarrow> vec3" where
  "rgb2oklab rgb g =
     (let gamma = gamma_or_default g;
          lin = Vec3 (jpow (vx rgb) gamma) (jpow (vy rgb) gamma) (jpow (vz rgb) gamma);
          lms = mat3MulVec3 kCONEtoLMS lin;
          lms' = coneResponse lms
      in mat3MulVec3 kLMStoOKLAB lms')"

definition oklab2rgb :: "vec3 \<Rightarrow> jsnum option \<Rightarrow> vec3" where
  "oklab2rgb lab g =
     (let gamma = gamma_or_default g;
          INV_GAMMA = jdiv (Fin 1) gamma;
          lms' = mat3MulVec3 kOKLABtoLMS lab;
          lms = multiply (multiply lms' lms') lms';
          lin = mat3MulVec3 kLMStoCONE lms
      in Vec3
           (jpow (jmax (Fin 0) (jmin (Fin 1) (vx lin))) INV_GAMMA)
           (jpow (jmax (Fin 0) (jmin (Fin 1) (vy lin))) INV_GAMMA)
           (jpow (jmax (Fin 0) (jmin (Fin 1) (vz lin))) INV_GAMMA))"

definition oklab2oklch :: "vec3 \<Rightarrow> vec3" where
  "oklab2oklch lab =
     (let L = vx lab; a = vy lab; b = vz lab;
          C = jsqrt (jadd (jmul a a) (jmul b b));
          H = jatan2 b a
      in Vec3 L C H)"

definition oklch2oklab :: "vec3 \<Rightarrow> vec3" where
  "oklch2oklab lch =
     (let L = vx lch; C = vy lch; H = vz lch;
          a = jmul C (jcos H);
          b = jmul C (jsin H)
      in Vec3 L a b)"

definition rgb2oklch :: "vec3 \<Rightarrow> vec3" where
  "rgb2oklch rgb = oklab2oklch (rgb2oklab rgb None)"

definition oklch2rgb :: "vec3 \<Rightarrow> vec3" where
  "oklch2rgb lch = oklab2rgb (oklch2oklab lch) None"

definition mix :: "vec3 \<Rightarrow> vec3 \<Rightarrow> jsnum \<Rightarrow> vec3" where
  "mix rgb1 rgb2 t =
     (let lin1 = Vec3 (jpow (vx rgb1) (Fin 2.2)) (jpow (vy rgb1) (Fin 2.2))
                      (jpow (vz rgb1) (Fin 2.2));
          lin2 = Vec3 (jpow (vx rgb2) (Fin 2.2)) (jpow (vy rgb2) (Fin 2.2))
                      (jpow (vz rgb2) (Fin 2.2));
          lms1 = coneResponse (mat3MulVec3 kCONEtoLMS lin1);
          lms2 = coneResponse (mat3MulVec3 kCONEtoLMS lin2);
          lms = vec_mix lms1 lms2 t;
          lin = mat3MulVec3 kLMStoCONE (multiply (multiply lms lms) lms)
      in Vec3 (jpow (vx lin) (Fin 0.4545454)) (jpow (vy lin) (Fin 0.4545454))
              (jpow (vz lin) (Fin 0.4545454)))"

definition setHue :: "vec3 \<Rightarrow> jsnum \<Rightarrow> vec3" where
  "setHue rgb hue =
     (let lch = rgb2oklch rgb;
          newHue = jrem hue (jmul (Fin pi) (Fin 2));
          newHue = (if jlt newHue (Fin 0) then jadd newHue (jmul (Fin pi) (Fin 2)) else newHue)
      in oklch2rgb (Vec3 (vx lch) (vy lch) newHue))"

definition shiftHue :: "vec3 \<Rightarrow> jsnum \<Rightarrow> vec3" where
  "shiftHue rgb factor =
     (let lch = rgb2oklch rgb;
          newHue = jrem (jadd (vz lch) factor) (jmul (Fin pi) (Fin 2));
          newHue = (if jlt newHue (Fin 0) then jadd newHue (jmul (Fin pi) (Fin 2)) else newHue)
      in oklch2rgb (Vec3 (vx lch) (vy lch) newHue))"

definition setChroma :: "vec3 \<Rightarrow> jsnum \<Rightarrow> vec3" where
  "setChroma rgb chroma =
     (let lch = rgb2oklch rgb;
          newLch = Vec3 (vx lch) chroma (vz lch)
      in oklch2rgb newLch)"

definition scaleChroma :: "vec3 \<Rightarrow> jsnum \<Rightarrow> vec3" where
  "scaleChroma rgb factor =
     (let lch = rgb2oklch rgb;
          newLch = Vec3 (vx lch) (jmul (vy lch) factor) (vz lch)
      in oklch2rgb newLch)"

definition setLightness :: "vec3 \<Rightarrow> jsnum \<Rightarrow> vec3" where
  "setLightness rgb lightness =
     (let lch = rgb2oklch rgb;
          newLch = Vec3 (jmax (Fin 0) (jmin (Fin 1) lightness)) (vy lch) (vz lch)
      in oklch2rgb newLch)"

definition shiftLightness :: "vec3 \<Rightarrow> jsnum \<Rightarrow> vec3" where
  "shiftLightness rgb factor =
     (let lch = rgb2oklch rgb;
          newLightness = jmax (Fin 0) (jmin (Fin 1) (jadd (vx lch) factor))
      in oklch2rgb (Vec3 newLightness (vy lch) (vz lch)))"

section \<open>Notions used by the properties\<close>

text \<open>A number is a real value of the closed unit interval.\<close>

fun in_unit :: "jsnum \<Rightarrow> bool" where
  "in_unit (Fin v) = (0 \<le> v \<and> v \<le> 1)"
| "in_unit _ = False"

text \<open>
  The nonlinearity as the specification words it, \<open>max(v,0)^(1/3)\<close>, for comparison
  with \<open>coneResponse\<close>.
\<close>

definition coneResponse_third :: "vec3 \<Rightarrow> vec3" where
  "coneResponse_third v = Vec3
     (jpow (jmax (vx v) (Fin 0)) (jdiv (Fin 1) (Fin 3)))
     (jpow (jmax (vy v) (Fin 0)) (jdiv (Fin 1) (Fin 3)))
     (jpow (jmax (vz v) (Fin 0)) (jdiv (Fin 1) (Fin 3)))"

text \<open>
  The wrap rule for a hue as the specification words it: \<open>newHue = value mod 2\<pi>\<close>,
  then \<open>2\<pi>\<close> is added if the result is negative.
\<close>

definition wrap_rule :: "jsnum \<Rightarrow> jsnum" where
  "wrap_rule v =
     (let newHue = jrem v (Fin (2 * pi))
      in if jlt newHue (Fin 0) then jadd newHue (Fin (2 * pi)) else newHue)"

text \<open>Bounds that keep a computation away from overflow.\<close>

fun bounded_by :: "real \<Rightarrow> jsnum \<Rightarrow> bool" where
  "bounded_by B (Fin v) = (\<bar>v\<bar> \<le> B)"
| "bounded_by B _ = False"

definition gamma_ok :: "jsnum option \<Rightarrow> bool" where
  "gamma_ok g =
     (case g of None \<Rightarrow> True
      | Some (Fin \<gamma>) \<Rightarrow> 0 < \<gamma> \<and> 1 / \<gamma> < dbl_limit
      | Some PInf \<Rightarrow> True
      | Some _ \<Rightarrow> False)"

text \<open>The entries of the four matrices as real numbers.\<close>

definition rCONEtoLMS :: "real list" where
  "rCONEtoLMS =
     [0.4122214708, 0.5363325363, 0.0514459929,
      0.2119034982, 0.6806995451, 0.1073969566,
      0.0883024619, 0.2817188376, 0.6299787005]"

definition rLMStoOKLAB :: "real list" where
  "rLMStoOKLAB =
     [0.2104542553, 0.7936177850, -0.0040720468,
      1.9779984951, -2.4285922050, 0.4505937099,
      0.0259040371, 0.7827717662, -0.8086757660]"

definition rOKLABtoLMS :: "real list" where
  "rOKLABtoLMS =
     [1.0, 0.3963377774, 0.2158037573,
      1.0, -0.1055613458, -0.0638541728,
      1.0, -0.0894841775, -1.2914855480]"

definition rLMStoCONE :: "real list" where
  "rLMStoCONE =
     [4.0767416621, -3.3077115913, 0.2309699292,
      -1.2684380046, 2.6097574011, -0.3413193965,
      -0.0041960863, -0.7034186147, 1.7076147010]"

text \<open>
  Two bounds far below the overflow limit, kept as constants so that proofs compare
  against them without expanding the powers.
\<close>

definition small :: real where
  "small = 10 ^ 100"

definition big :: real where
  "big = 10 ^ 300"

section \<open>The computation on real numbers\<close>

text \<open>
  The computations of the library written on triples of reals, with the literals of the
  code. The proofs show that they give the value of each function when no operation
  overflows, and bound these values.
\<close>

type_synonym rvec = "real \<times> real \<times> real"

definition of_rvec :: "rvec \<Rightarrow> vec3" where
  "of_rvec v = (case v of (a, b, c) \<Rightarrow> Vec3 (Fin a) (Fin b) (Fin c))"

definition unit_rvec :: "rvec \<Rightarrow> bool" where
  "unit_rvec v = (case v of (a, b, c) \<Rightarrow> 0 \<le> a \<and> a \<le> 1 \<and> 0 \<le> b \<and> b \<le> 1 \<and> 0 \<le> c \<and> c \<le> 1)"

definition mat_real :: "real list \<Rightarrow> rvec \<Rightarrow> rvec" where
  "mat_real m v = (case v of (a, b, c) \<Rightarrow>
     (m ! 0 * a + m ! 1 * b + m ! 2 * c,
      m ! 3 * a + m ! 4 * b + m ! 5 * c,
      m ! 6 * a + m ! 7 * b + m ! 8 * c))"

definition gamma_decode :: "rvec \<Rightarrow> rvec" where
  "gamma_decode v = (case v of (a, b, c) \<Rightarrow> (a powr 2.2, b powr 2.2, c powr 2.2))"

definition cone_nl :: "rvec \<Rightarrow> rvec" where
  "cone_nl v = (case v of (a, b, c) \<Rightarrow>
     (max a 0 powr 0.3333333, max b 0 powr 0.3333333, max c 0 powr 0.3333333))"

definition cube :: "rvec \<Rightarrow> rvec" where
  "cube v = (case v of (a, b, c) \<Rightarrow> (a * a * a, b * b * b, c * c * c))"

definition interpolate :: "rvec \<Rightarrow> rvec \<Rightarrow> real \<Rightarrow> rvec" where
  "interpolate u v t = (case u of (a1, b1, c1) \<Rightarrow> case v of (a2, b2, c2) \<Rightarrow>
     (a1 * (1 - t) + a2 * t, b1 * (1 - t) + b2 * t, c1 * (1 - t) + c2 * t))"

definition rgb2cone_real :: "rvec \<Rightarrow> rvec" where
  "rgb2cone_real rgb = cone_nl (mat_real rCONEtoLMS (gamma_decode rgb))"

definition rgb2oklab_real :: "rvec \<Rightarrow> rvec" where
  "rgb2oklab_real rgb = mat_real rLMStoOKLAB (rgb2cone_real rgb)"

definition oklab2lin_real :: "rvec \<Rightarrow> rvec" where
  "oklab2lin_real lab = mat_real rLMStoCONE (cube (mat_real rOKLABtoLMS lab))"

definition mix_lin_real :: "rvec \<Rightarrow> rvec \<Rightarrow> real \<Rightarrow> rvec" where
  "mix_lin_real rgb1 rgb2 t =
     mat_real rLMStoCONE (cube (interpolate (rgb2cone_real rgb1) (rgb2cone_real rgb2) t))"

definition inverse_gamma_unclamped :: "real \<Rightarrow> jsnum" where
  "inverse_gamma_unclamped v = (if v < 0 then NaN else Fin (v powr 0.4545454))"

text \<open>
  The value of \<open>mix\<close> in terms of reals: the last power is taken of the unclamped
  linear component, and is NaN when that is negative.
\<close>

definition mix_real :: "rvec \<Rightarrow> rvec \<Rightarrow> real \<Rightarrow> vec3" where
  "mix_real rgb1 rgb2 t = (case mix_lin_real rgb1 rgb2 t of (x, y, z) \<Rightarrow>
     Vec3 (inverse_gamma_unclamped x) (inverse_gamma_unclamped y) (inverse_gamma_unclamped z))"

definition clamp01 :: "real \<Rightarrow> real" where
  "clamp01 v = max 0 (min 1 v)"

text \<open>A vector all of whose components are bounded in magnitude.\<close>

definition bounded_rvec :: "real \<Rightarrow> rvec \<Rightarrow> bool" where
  "bounded_rvec B v = (case v of (a, b, c) \<Rightarrow> \<bar>a\<bar> \<le> B \<and> \<bar>b\<bar> \<le> B \<and> \<bar>c\<bar> \<le> B)"

text \<open>
  The inverse path of \<open>oklab2rgb\<close> at the default gamma: each linear component is
  clamped to the unit interval and raised to \<open>1 / 2.2\<close>.
\<close>

definition gamma_encode :: "rvec \<Rightarrow> rvec" where
  "gamma_encode v = (case v of (a, b, c) \<Rightarrow>
     (clamp01 a powr (1 / 2.2), clamp01 b powr (1 / 2.2), clamp01 c powr (1 / 2.2)))"

definition oklab2rgb_real :: "rvec \<Rightarrow> rvec" where
  "oklab2rgb_real lab = gamma_encode (oklab2lin_real lab)"

text \<open>A number is finite and within \<open>eps\<close> of the real \<open>r\<close>.\<close>

fun approx_num :: "real \<Rightarrow> real \<Rightarrow> jsnum \<Rightarrow> bool" where
  "approx_num eps r (Fin v) = (\<bar>v - r\<bar> \<le> eps)"
| "approx_num eps r _ = False"

text \<open>
  Chains of rational square-root bounds, from which the proofs bound a logarithm:
  each element squared is above (or below) its predecessor.
\<close>

fun chain_up :: "real \<Rightarrow> real list \<Rightarrow> bool" where
  "chain_up y [] = True"
| "chain_up y (r # rs) = (0 < r \<and> y \<le> r * r \<and> chain_up r rs)"

fun chain_down :: "real \<Rightarrow> real list \<Rightarrow> bool" where
  "chain_down y [] = True"
| "chain_down y (s # ss) = (1 \<le> s \<and> s * s \<le> y \<and> chain_down s ss)"

text \<open>A number is finite and lies in the half-open interval from \<open>lo\<close> to \<open>hi\<close>.\<close>

fun in_range :: "real \<Rightarrow> real \<Rightarrow> jsnum \<Rightarrow> bool" where
  "in_range lo hi (Fin v) = (lo \<le> v \<and> v < hi)"
| "in_range lo hi _ = False"

text \<open>A number is finite.\<close>

fun finite_num :: "jsnum \<Rightarrow> bool" where
  "finite_num (Fin v) = True"
| "finite_num _ = False"

text \<open>Two numbers are finite and within \<open>eps\<close> of each other.\<close>

fun approx_eq :: "real \<Rightarrow> jsnum \<Rightarrow> jsnum \<Rightarrow> bool" where
  "approx_eq eps (Fin x) (Fin y) = (\<bar>x - y\<bar> \<le> eps)"
| "approx_eq eps _ _ = False"

text \<open>
  A neutral gray up to an error \<open>eps\<close>: the three components are finite and pairwise
  within \<open>eps\<close> of each other.
\<close>

definition neutral_gray :: "real \<Rightarrow> vec3 \<Rightarrow> bool" where
  "neutral_gray eps c =
     (approx_eq eps (vx c) (vy c) \<and> approx_eq eps (vy c) (vz c) \<and> approx_eq eps (vx c) (vz c))"

section \<open>The steps of \<open>mix\<close> in the specification's words\<close>





section \<open>Classes of numbers used by the proofs about \<open>mix\<close>\<close>




section \<open>Basic facts about the number model\<close>

lemma big_limit: "1000 * big < dbl_limit"
  unfolding big_def dbl_limit_def by simp

lemma big_ge: "1000 \<le> big"
  unfolding big_def by simp

lemma small_ge: "1000 \<le> small"
  unfolding small_def by simp

lemma small_cube: "small * small * small = big"
proof -
  have n: "(100::nat) + 100 = 200" "(200::nat) + 100 = 300" by simp_all
  show ?thesis unfolding small_def big_def by (simp only: power_add [symmetric] n)
qed

lemma small_square: "small * small \<le> big"
proof -
  have "small * small * 1 \<le> small * small * small"
    using small_ge by (intro mult_left_mono) simp_all
  then show ?thesis by (simp only: small_cube mult_1_right)
qed

lemma dbl_limit_le: "dbl_limit \<le> 10 ^ 320"
proof -
  have "(2::real) ^ 64 \<le> 10 ^ 20" by simp
  then have "((2::real) ^ 64) ^ 16 \<le> (10 ^ 20) ^ 16" by (rule power_mono) simp
  moreover have "((2::real) ^ 64) ^ 16 = 2 ^ 1024" "((10::real) ^ 20) ^ 16 = 10 ^ 320"
    by (simp_all only: power_mult [symmetric]) simp_all
  ultimately show ?thesis by (simp only: dbl_limit_def)
qed

lemma limit_gt_num: "1000 < dbl_limit"
  using big_limit big_ge by linarith


lemma fl_Fin: "\<bar>r\<bar> < dbl_limit \<Longrightarrow> fl r = Fin r"
  by (auto simp: fl_def)

lemma fl_big: "\<bar>r\<bar> \<le> 1000 * big \<Longrightarrow> fl r = Fin r"
  using big_limit by (intro fl_Fin) linarith

lemma fl_num: "\<bar>r\<bar> \<le> 1000 \<Longrightarrow> fl r = Fin r"
  using limit_gt_num by (intro fl_Fin) linarith

lemma jmax_Fin [simp]: "jmax (Fin a) (Fin b) = Fin (max a b)"
  by (simp add: max_def)

lemma jmin_Fin [simp]: "jmin (Fin a) (Fin b) = Fin (min a b)"
  by (simp add: min_def)

section \<open>Lightness is clamped\<close>

text \<open>
  C6. \<open>setLightness\<close> hands \<open>oklch2rgb\<close> the supplied lightness clamped by
  \<open>Math.max(0, Math.min(1, _))\<close>, and \<open>shiftLightness\<close> the clamped sum of the colour's
  lightness and the offset. A clamped value that is not NaN lies in the unit interval.
  Hence a requested lightness of 5 gives exactly the result of 1, and -3 that of 0, for
  every colour.
\<close>

theorem setLightness_clamps:
  "setLightness rgb (Fin 5) = setLightness rgb (Fin 1)
   \<and> setLightness rgb (Fin (- 3)) = setLightness rgb (Fin 0)
   \<and> setLightness rgb l =
       oklch2rgb (Vec3 (jmax (Fin 0) (jmin (Fin 1) l)) (vy (rgb2oklch rgb)) (vz (rgb2oklch rgb)))
   \<and> shiftLightness rgb f =
       oklch2rgb (Vec3 (jmax (Fin 0) (jmin (Fin 1) (jadd (vx (rgb2oklch rgb)) f)))
                       (vy (rgb2oklch rgb)) (vz (rgb2oklch rgb)))
   \<and> (l = NaN \<or> in_unit (jmax (Fin 0) (jmin (Fin 1) l)))"
  by (cases l) (simp_all add: setLightness_def shiftLightness_def Let_def)

lemma jadd_Fin: "\<bar>a + b\<bar> < dbl_limit \<Longrightarrow> jadd (Fin a) (Fin b) = Fin (a + b)"
  by (simp add: fl_Fin)

lemma jmul_Fin: "\<bar>a * b\<bar> < dbl_limit \<Longrightarrow> jmul (Fin a) (Fin b) = Fin (a * b)"
  by (simp add: fl_Fin)

text \<open>One row of a matrix-vector product stays finite when the entries are bounded.\<close>

lemma row_Fin:
  assumes m: "\<bar>m0\<bar> \<le> 5" "\<bar>m1\<bar> \<le> 5" "\<bar>m2\<bar> \<le> 5"
    and v: "\<bar>a\<bar> \<le> B" "\<bar>b\<bar> \<le> B" "\<bar>c\<bar> \<le> B"
    and B: "B \<le> 50 * big"
  shows "jadd (jadd (jmul (Fin m0) (Fin a)) (jmul (Fin m1) (Fin b))) (jmul (Fin m2) (Fin c))
         = Fin (m0 * a + m1 * b + m2 * c)"
proof -
  have B0: "0 \<le> B" using v(1) by linarith
  have p: "\<bar>m0 * a\<bar> \<le> 5 * B" "\<bar>m1 * b\<bar> \<le> 5 * B" "\<bar>m2 * c\<bar> \<le> 5 * B"
    using m v B0 by (simp_all add: abs_mult mult_mono)
  have lim: "15 * B < dbl_limit"
    using B big_limit big_ge by linarith
  have 1: "jmul (Fin m0) (Fin a) = Fin (m0 * a)"
    using p(1) lim B0 by (intro jmul_Fin) linarith
  have 2: "jmul (Fin m1) (Fin b) = Fin (m1 * b)"
    using p(2) lim B0 by (intro jmul_Fin) linarith
  have 3: "jmul (Fin m2) (Fin c) = Fin (m2 * c)"
    using p(3) lim B0 by (intro jmul_Fin) linarith
  have 4: "jadd (Fin (m0 * a)) (Fin (m1 * b)) = Fin (m0 * a + m1 * b)"
    using p(1,2) lim B0 by (intro jadd_Fin) linarith
  have 5: "jadd (Fin (m0 * a + m1 * b)) (Fin (m2 * c)) = Fin (m0 * a + m1 * b + m2 * c)"
    using p lim B0 by (intro jadd_Fin) linarith
  show ?thesis by (simp only: 1 2 3 4 5)
qed

lemma row_bound:
  fixes m0 m1 m2 a b c B K :: real
  assumes m: "\<bar>m0\<bar> + \<bar>m1\<bar> + \<bar>m2\<bar> \<le> K"
    and v: "\<bar>a\<bar> \<le> B" "\<bar>b\<bar> \<le> B" "\<bar>c\<bar> \<le> B"
  shows "\<bar>m0 * a + m1 * b + m2 * c\<bar> \<le> K * B"
proof -
  have B0: "0 \<le> B" using v(1) by linarith
  have "\<bar>m0 * a\<bar> \<le> \<bar>m0\<bar> * B" "\<bar>m1 * b\<bar> \<le> \<bar>m1\<bar> * B" "\<bar>m2 * c\<bar> \<le> \<bar>m2\<bar> * B"
    using v by (simp_all add: abs_mult mult_left_mono)
  then have "\<bar>m0 * a + m1 * b + m2 * c\<bar> \<le> (\<bar>m0\<bar> + \<bar>m1\<bar> + \<bar>m2\<bar>) * B"
    by (simp add: algebra_simps) linarith
  also have "\<dots> \<le> K * B" using m B0 by (rule mult_right_mono)
  finally show ?thesis .
qed

lemma mat_Fin:
  assumes len: "length m = 9" and m: "\<forall>i<9. \<bar>m ! i\<bar> \<le> 5"
    and v: "\<bar>a\<bar> \<le> B" "\<bar>b\<bar> \<le> B" "\<bar>c\<bar> \<le> B"
    and B: "B \<le> 50 * big"
  shows "mat3MulVec3 (map Fin m) (Vec3 (Fin a) (Fin b) (Fin c)) =
         Vec3 (Fin (m ! 0 * a + m ! 1 * b + m ! 2 * c))
              (Fin (m ! 3 * a + m ! 4 * b + m ! 5 * c))
              (Fin (m ! 6 * a + m ! 7 * b + m ! 8 * c))"
proof -
  have e: "map Fin m ! 0 = Fin (m ! 0)" "map Fin m ! 1 = Fin (m ! 1)"
    "map Fin m ! 2 = Fin (m ! 2)" "map Fin m ! 3 = Fin (m ! 3)" "map Fin m ! 4 = Fin (m ! 4)"
    "map Fin m ! 5 = Fin (m ! 5)" "map Fin m ! 6 = Fin (m ! 6)" "map Fin m ! 7 = Fin (m ! 7)"
    "map Fin m ! 8 = Fin (m ! 8)"
    using len by simp_all
  have b: "\<bar>m ! 0\<bar> \<le> 5" "\<bar>m ! 1\<bar> \<le> 5" "\<bar>m ! 2\<bar> \<le> 5" "\<bar>m ! 3\<bar> \<le> 5"
    "\<bar>m ! 4\<bar> \<le> 5" "\<bar>m ! 5\<bar> \<le> 5" "\<bar>m ! 6\<bar> \<le> 5" "\<bar>m ! 7\<bar> \<le> 5" "\<bar>m ! 8\<bar> \<le> 5"
    using m by simp_all
  show ?thesis
    unfolding mat3MulVec3_def
    by (simp only: vec3.select_convs e row_Fin [OF b(1,2,3) v B] row_Fin [OF b(4,5,6) v B]
        row_Fin [OF b(7,8,9) v B])
qed

lemma all_less_9: "(\<forall>i<9. P i) \<longleftrightarrow> P (0::nat) \<and> P 1 \<and> P 2 \<and> P 3 \<and> P 4 \<and> P 5 \<and> P 6 \<and> P 7 \<and> P 8"
proof -
  have "{..<9::nat} = {0, 1, 2, 3, 4, 5, 6, 7, 8}" by auto
  then have "(\<forall>i<9. P i) \<longleftrightarrow> (\<forall>i\<in>{0, 1, 2, 3, 4, 5, 6, 7, 8::nat}. P i)" by (metis lessThan_iff)
  then show ?thesis by simp
qed


lemma mat_LMStoOKLAB:
  assumes "\<bar>a\<bar> \<le> B" "\<bar>b\<bar> \<le> B" "\<bar>c\<bar> \<le> B" "B \<le> 50 * big"
  shows "mat3MulVec3 kLMStoOKLAB (Vec3 (Fin a) (Fin b) (Fin c)) =
         Vec3 (Fin (0.2104542553 * a + 0.7936177850 * b + - 0.0040720468 * c))
              (Fin (1.9779984951 * a + - 2.4285922050 * b + 0.4505937099 * c))
              (Fin (0.0259040371 * a + 0.7827717662 * b + - 0.8086757660 * c))"
proof -
  have k: "kLMStoOKLAB = map Fin rLMStoOKLAB" by (simp add: kLMStoOKLAB_def rLMStoOKLAB_def)
  have "length rLMStoOKLAB = 9" "\<forall>i<9. \<bar>rLMStoOKLAB ! i\<bar> \<le> 5"
    by (simp_all add: rLMStoOKLAB_def all_less_9)
  from mat_Fin [OF this assms] show ?thesis
    unfolding k by (simp add: rLMStoOKLAB_def)
qed

lemma mat_OKLABtoLMS:
  assumes "\<bar>a\<bar> \<le> B" "\<bar>b\<bar> \<le> B" "\<bar>c\<bar> \<le> B" "B \<le> 50 * big"
  shows "mat3MulVec3 kOKLABtoLMS (Vec3 (Fin a) (Fin b) (Fin c)) =
         Vec3 (Fin (1.0 * a + 0.3963377774 * b + 0.2158037573 * c))
              (Fin (1.0 * a + - 0.1055613458 * b + - 0.0638541728 * c))
              (Fin (1.0 * a + - 0.0894841775 * b + - 1.2914855480 * c))"
proof -
  have k: "kOKLABtoLMS = map Fin rOKLABtoLMS" by (simp add: kOKLABtoLMS_def rOKLABtoLMS_def)
  have "length rOKLABtoLMS = 9" "\<forall>i<9. \<bar>rOKLABtoLMS ! i\<bar> \<le> 5"
    by (simp_all add: rOKLABtoLMS_def all_less_9)
  from mat_Fin [OF this assms] show ?thesis
    unfolding k by (simp add: rOKLABtoLMS_def)
qed

lemma mat_LMStoCONE:
  assumes "\<bar>a\<bar> \<le> B" "\<bar>b\<bar> \<le> B" "\<bar>c\<bar> \<le> B" "B \<le> 50 * big"
  shows "mat3MulVec3 kLMStoCONE (Vec3 (Fin a) (Fin b) (Fin c)) =
         Vec3 (Fin (4.0767416621 * a + - 3.3077115913 * b + 0.2309699292 * c))
              (Fin (- 1.2684380046 * a + 2.6097574011 * b + - 0.3413193965 * c))
              (Fin (- 0.0041960863 * a + - 0.7034186147 * b + 1.7076147010 * c))"
proof -
  have k: "kLMStoCONE = map Fin rLMStoCONE" by (simp add: kLMStoCONE_def rLMStoCONE_def)
  have "length rLMStoCONE = 9" "\<forall>i<9. \<bar>rLMStoCONE ! i\<bar> \<le> 5"
    by (simp_all add: rLMStoCONE_def all_less_9)
  from mat_Fin [OF this assms] show ?thesis
    unfolding k by (simp add: rLMStoCONE_def)
qed

lemma bounded_byE: "bounded_by B x \<Longrightarrow> (\<And>v. x = Fin v \<Longrightarrow> \<bar>v\<bar> \<le> B \<Longrightarrow> P) \<Longrightarrow> P"
  by (cases x) auto

lemma jpow_unit:
  assumes "0 \<le> c" "c \<le> 1" "0 \<le> b"
  shows "in_unit (jpow (Fin c) (Fin b))"
proof (cases "b = 0 \<or> c = 0")
  case True
  then show ?thesis using assms by auto
next
  case False
  then have c: "0 < c" and b: "0 < b" using assms by auto
  have "c powr b \<le> 1" using assms by (simp add: powr_le1)
  moreover have "0 \<le> c powr b" by simp
  ultimately have "fl (c powr b) = Fin (c powr b)" by (intro fl_num) simp
  then show ?thesis using c b \<open>c powr b \<le> 1\<close> by simp
qed

lemma inv_gamma_ok:
  assumes "gamma_ok g"
  obtains ig where "jdiv (Fin 1) (gamma_or_default g) = Fin ig" "0 \<le> ig"
proof (cases g)
  case None
  have "fl (1 / 2.2) = Fin (1 / 2.2)" by (intro fl_num) simp
  then have "jdiv (Fin 1) (gamma_or_default g) = Fin (1 / 2.2)"
    using None by (simp add: gamma_or_default_def)
  moreover have "(0::real) \<le> 1 / 2.2" by simp
  ultimately show ?thesis by (rule that)
next
  case (Some v)
  show ?thesis
  proof (cases v)
    case (Fin \<gamma>)
    then have g: "0 < \<gamma>" "1 / \<gamma> < dbl_limit" using assms Some by (simp_all add: gamma_ok_def)
    then have "fl (1 / \<gamma>) = Fin (1 / \<gamma>)" by (intro fl_Fin) simp
    then have "jdiv (Fin 1) (gamma_or_default g) = Fin (1 / \<gamma>)"
      using Some Fin g by (simp add: gamma_or_default_def)
    moreover have "0 \<le> 1 / \<gamma>" using g by simp
    ultimately show ?thesis by (rule that)
  next
    case PInf
    then have "jdiv (Fin 1) (gamma_or_default g) = Fin 0"
      using Some by (simp add: gamma_or_default_def)
    then show ?thesis by (rule that) simp
  next
    case NInf
    then show ?thesis using assms Some by (simp add: gamma_ok_def)
  next
    case NaN
    then show ?thesis using assms Some by (simp add: gamma_ok_def)
  qed
qed

lemma cube_Fin:
  assumes "\<bar>q\<bar> \<le> 3 * small"
  shows "jmul (jmul (Fin q) (Fin q)) (Fin q) = Fin (q * q * q)" "\<bar>q * q * q\<bar> \<le> 27 * big"
proof -
  have s0: "0 \<le> small" using small_ge by linarith
  have "\<bar>q * q\<bar> \<le> (3 * small) * (3 * small)"
    unfolding abs_mult using assms s0 by (intro mult_mono) simp_all
  then have 2: "\<bar>q * q\<bar> \<le> 9 * (small * small)" by (simp add: algebra_simps)
  have "\<bar>q * q * q\<bar> \<le> (9 * (small * small)) * (3 * small)"
    unfolding abs_mult [of "q * q" q] using assms 2 s0 by (intro mult_mono) simp_all
  then have "\<bar>q * q * q\<bar> \<le> 27 * (small * small * small)" by (simp add: algebra_simps)
  then show 3: "\<bar>q * q * q\<bar> \<le> 27 * big" by (simp only: small_cube)
  have "fl (q * q) = Fin (q * q)" using 2 small_square big_ge by (intro fl_big) linarith
  moreover have "fl (q * q * q) = Fin (q * q * q)" using 3 big_ge by (intro fl_big) linarith
  ultimately show "jmul (jmul (Fin q) (Fin q)) (Fin q) = Fin (q * q * q)" by simp
qed

lemma clamp_pow_unit:
  assumes "0 \<le> ig"
  shows "in_unit (jpow (jmax (Fin 0) (jmin (Fin 1) (Fin w))) (Fin ig))"
  using assms by (simp del: jpow.simps add: jpow_unit)

section \<open>The output range of \<open>oklab2rgb\<close>\<close>

text \<open>
  For an Oklab input whose three components are finite and at most \<open>10 ^ 100\<close> in
  magnitude, and a gamma that is left out, positive with a finite inverse, or infinite,
  the linear components are finite and are clamped before the power is taken.
\<close>

lemma oklab2rgb_range:
  assumes lab: "bounded_by (10 ^ 100) (vx lab)" "bounded_by (10 ^ 100) (vy lab)"
      "bounded_by (10 ^ 100) (vz lab)"
    and g: "gamma_ok g"
  shows "in_unit (vx (oklab2rgb lab g)) \<and> in_unit (vy (oklab2rgb lab g))
         \<and> in_unit (vz (oklab2rgb lab g))"
proof -
  obtain L a b where l: "vx lab = Fin L" "vy lab = Fin a" "vz lab = Fin b"
    and bd: "\<bar>L\<bar> \<le> small" "\<bar>a\<bar> \<le> small" "\<bar>b\<bar> \<le> small"
    using lab unfolding small_def by (auto elim!: bounded_byE)
  have "small * 1 \<le> small * small" using small_ge by (intro mult_left_mono) simp_all
  then have sb: "small \<le> 50 * big" using small_square big_ge by linarith
  have lab_eq: "lab = Vec3 (Fin L) (Fin a) (Fin b)" using l by simp
  obtain ig where ig: "jdiv (Fin 1) (gamma_or_default g) = Fin ig" "0 \<le> ig"
    using g by (rule inv_gamma_ok)
  define q0 where "q0 = 1.0 * L + 0.3963377774 * a + 0.2158037573 * b"
  define q1 where "q1 = 1.0 * L + - 0.1055613458 * a + - 0.0638541728 * b"
  define q2 where "q2 = 1.0 * L + - 0.0894841775 * a + - 1.2914855480 * b"
  have s1: "mat3MulVec3 kOKLABtoLMS lab = Vec3 (Fin q0) (Fin q1) (Fin q2)"
    unfolding lab_eq q0_def q1_def q2_def by (rule mat_OKLABtoLMS [OF bd sb])
  have qb: "\<bar>q0\<bar> \<le> 3 * small" "\<bar>q1\<bar> \<le> 3 * small" "\<bar>q2\<bar> \<le> 3 * small"
    unfolding q0_def q1_def q2_def by (rule row_bound [OF _ bd], simp)+
  note c0 = cube_Fin [OF qb(1)] and c1 = cube_Fin [OF qb(2)] and c2 = cube_Fin [OF qb(3)]
  have s2: "multiply (multiply (Vec3 (Fin q0) (Fin q1) (Fin q2)) (Vec3 (Fin q0) (Fin q1) (Fin q2)))
              (Vec3 (Fin q0) (Fin q1) (Fin q2))
            = Vec3 (Fin (q0 * q0 * q0)) (Fin (q1 * q1 * q1)) (Fin (q2 * q2 * q2))"
    unfolding multiply_def by (simp only: vec3.select_convs c0(1) c1(1) c2(1))
  obtain w0 w1 w2 where s3: "mat3MulVec3 kLMStoCONE
      (Vec3 (Fin (q0 * q0 * q0)) (Fin (q1 * q1 * q1)) (Fin (q2 * q2 * q2))) = Vec3 (Fin w0) (Fin w1) (Fin w2)"
  proof -
    have "27 * big \<le> 50 * big" using big_ge by linarith
    from mat_LMStoCONE [OF c0(2) c1(2) c2(2) this] show ?thesis using that by blast
  qed
  have "oklab2rgb lab g = Vec3
           (jpow (jmax (Fin 0) (jmin (Fin 1) (Fin w0))) (Fin ig))
           (jpow (jmax (Fin 0) (jmin (Fin 1) (Fin w1))) (Fin ig))
           (jpow (jmax (Fin 0) (jmin (Fin 1) (Fin w2))) (Fin ig))"
    unfolding oklab2rgb_def Let_def s1 s2 s3 ig by (simp only: vec3.select_convs)
  then show ?thesis
    using clamp_pow_unit [OF ig(2)] by (simp only: vec3.select_convs) 
qed


text \<open>
  The finite input \<open>(10 ^ 150, 0, 0)\<close> overflows when it is cubed, the matrix product
  then adds infinities of both signs, and the NaN passes through \<open>Math.min\<close>,
  \<open>Math.max\<close> and \<open>Math.pow\<close>.
\<close>

lemma lab_overflow_nan:
  "vx (oklab2rgb (Vec3 (Fin (10 ^ 150)) (Fin 0) (Fin 0)) None) = NaN"
proof -
  define K :: real where "K = 10 ^ 150"
  have "0 \<le> K" unfolding K_def by (rule zero_le_power) simp
  then have K1: "\<bar>K\<bar> \<le> 10 ^ 150" unfolding K_def by (simp only: abs_of_nonneg order_refl)
  have K2: "\<bar>0::real\<bar> \<le> 10 ^ 150" by (simp only: abs_zero zero_le_power zero_le_numeral)
  have "(10::real) ^ 150 \<le> 10 ^ 300" by (rule power_increasing) simp_all
  then have K3: "(10::real) ^ 150 \<le> 50 * big" using big_ge unfolding big_def by linarith
  have 1: "mat3MulVec3 kOKLABtoLMS (Vec3 (Fin K) (Fin 0) (Fin 0)) = Vec3 (Fin K) (Fin K) (Fin K)"
    using mat_OKLABtoLMS [OF K1 K2 K2 K3] by simp
  have n: "(150::nat) + 150 = 300" "(300::nat) + 150 = 450" by simp_all
  have kk: "K * K = 10 ^ 300" and kkk: "K * K * K = 10 ^ 450"
    unfolding K_def by (simp_all only: power_add [symmetric] n)
  have "\<bar>big\<bar> \<le> 1000 * big" using big_ge by linarith
  then have "fl (K * K) = Fin (K * K)" unfolding kk big_def [symmetric] by (rule fl_big)
  moreover have "(10::real) ^ 320 \<le> 10 ^ 450" by (rule power_increasing) simp_all
  then have "dbl_limit \<le> K * K * K" unfolding kkk using dbl_limit_le by linarith
  then have "fl (K * K * K) = PInf" by (simp only: fl_def if_True)
  ultimately have 2: "jmul (jmul (Fin K) (Fin K)) (Fin K) = PInf" by simp
  have 3: "multiply (multiply (Vec3 (Fin K) (Fin K) (Fin K)) (Vec3 (Fin K) (Fin K) (Fin K)))
             (Vec3 (Fin K) (Fin K) (Fin K)) = Vec3 PInf PInf PInf"
    unfolding multiply_def by (simp only: vec3.select_convs 2)
  have 4: "vx (mat3MulVec3 kLMStoCONE (Vec3 PInf PInf PInf)) = NaN"
    by (simp add: mat3MulVec3_def kLMStoCONE_def)
  have "vx (oklab2rgb (Vec3 (Fin K) (Fin 0) (Fin 0)) None) = NaN"
    unfolding oklab2rgb_def Let_def 1 3 by (simp add: 4 gamma_or_default_def fl_num)
  then show ?thesis by (simp only: K_def)
qed

section \<open>The polar conversions\<close>

lemma atan2_range: "- pi < atan2 b a \<and> atan2 b a \<le> pi"
proof -
  have r: "- (pi / 2) < arctan (b / a)" "arctan (b / a) < pi / 2"
    by (rule arctan_lbound, rule arctan_ubound)
  consider "0 < a" | "a < 0" "0 \<le> b" | "a < 0" "b < 0" | "a = 0" by linarith
  then show ?thesis
  proof cases
    case 1
    then show ?thesis using r pi_gt_zero by (simp add: atan2_def)
  next
    case 2
    then have "b / a \<le> 0" by (simp add: divide_nonneg_neg)
    then have "arctan (b / a) \<le> 0" by (simp add: arctan_le_zero_iff)
    then show ?thesis using 2 r pi_gt_zero by (simp add: atan2_def)
  next
    case 3
    then have "0 < b / a" by (simp add: divide_neg_neg)
    then have "0 < arctan (b / a)" by (simp add: zero_less_arctan_iff)
    then show ?thesis using 3 r pi_gt_zero by (simp add: atan2_def)
  next
    case 4
    then have "atan2 b a = pi / 2 \<or> atan2 b a = - (pi / 2) \<or> atan2 b a = 0"
      by (simp add: atan2_def)
    then show ?thesis using pi_gt_zero by (elim disjE; linarith)
  qed
qed










section \<open>The cone nonlinearity\<close>

lemma cube_root_8: "(8::real) powr (1 / 3) = 2"
proof -
  have "(8::real) = 2 powr 3" by simp
  then have "(8::real) powr (1 / 3) = (2 powr 3) powr (1 / 3)" by simp
  also have "\<dots> = 2 powr (3 * (1 / 3))" by (rule powr_powr)
  finally show ?thesis by simp
qed

lemma pow8_lt: "(8::real) powr 0.3333333 < 2"
proof -
  have "(8::real) powr 0.3333333 < 8 powr (1 / 3)"
    by (rule powr_less_mono) simp_all
  then show ?thesis by (simp only: cube_root_8)
qed

lemma cone_component:
  assumes "a < dbl_limit"
  shows "jpow (jmax (Fin a) (Fin 0)) (Fin 0.3333333) = Fin (max a 0 powr 0.3333333)"
proof (cases "0 < a")
  case True
  have "a powr 0.3333333 < dbl_limit"
  proof (cases "a \<le> 1")
    case True
    then have "a powr 0.3333333 \<le> 1" using \<open>0 < a\<close> by (simp add: powr_le1)
    then show ?thesis using limit_gt_num by simp
  next
    case False
    then have "a powr 0.3333333 \<le> a powr 1" by (intro powr_mono) simp_all
    then show ?thesis using assms \<open>0 < a\<close> by simp
  qed
  then have "fl (a powr 0.3333333) = Fin (a powr 0.3333333)" by (intro fl_Fin) simp
  then show ?thesis using True by (simp add: max_def)
next
  case False
  then show ?thesis by (simp add: max_def)
qed

text \<open>
  C3, as amended. \<open>rgb2oklab\<close> applies \<open>coneResponse\<close> between the two matrix
  products, and \<open>coneResponse\<close> maps each finite component \<open>v\<close> to
  \<open>max(v,0)\<close> raised to the literal \<open>0.3333333\<close>: a negative component is clamped to 0
  first, and the exponent is the seven-digit decimal, not one third. \<open>mix\<close> calls the
  same function.
\<close>

theorem coneResponse_exponent:
  "rgb2oklab rgb g =
     mat3MulVec3 kLMStoOKLAB (coneResponse (mat3MulVec3 kCONEtoLMS
       (Vec3 (jpow (vx rgb) (gamma_or_default g)) (jpow (vy rgb) (gamma_or_default g))
             (jpow (vz rgb) (gamma_or_default g)))))
   \<and> (a < dbl_limit \<and> b < dbl_limit \<and> c < dbl_limit \<longrightarrow>
        coneResponse (Vec3 (Fin a) (Fin b) (Fin c)) =
          Vec3 (Fin (max a 0 powr 0.3333333)) (Fin (max b 0 powr 0.3333333))
               (Fin (max c 0 powr 0.3333333)))"
proof (intro conjI impI)
  show "rgb2oklab rgb g =
     mat3MulVec3 kLMStoOKLAB (coneResponse (mat3MulVec3 kCONEtoLMS
       (Vec3 (jpow (vx rgb) (gamma_or_default g)) (jpow (vy rgb) (gamma_or_default g))
             (jpow (vz rgb) (gamma_or_default g)))))"
    by (simp only: rgb2oklab_def Let_def)
next
  assume "a < dbl_limit \<and> b < dbl_limit \<and> c < dbl_limit"
  then have "a < dbl_limit" "b < dbl_limit" "c < dbl_limit" by simp_all
  then show "coneResponse (Vec3 (Fin a) (Fin b) (Fin c)) =
          Vec3 (Fin (max a 0 powr 0.3333333)) (Fin (max b 0 powr 0.3333333))
               (Fin (max c 0 powr 0.3333333))"
    unfolding coneResponse_def by (simp only: vec3.select_convs cone_component)
qed

text \<open>The theorem applied to the components 8, -1 and 0.\<close>

theorem coneResponse_exponent_witness:
  "(8::real) < dbl_limit \<and> (- 1::real) < dbl_limit \<and> (0::real) < dbl_limit
   \<and> coneResponse (Vec3 (Fin 8) (Fin (- 1)) (Fin 0)) =
       Vec3 (Fin (8 powr 0.3333333)) (Fin 0) (Fin 0)"
  using coneResponse_exponent [of "Vec3 (Fin 0) (Fin 0) (Fin 0)" None 8 "- 1" 0] limit_gt_num
  by simp

text \<open>
  C3 as stated fails: at the component 8 the cube root \<open>max(v,0)^(1/3)\<close> is 2, and
  \<open>coneResponse\<close> returns a smaller number.
\<close>

theorem cone_exponent_counterexample:
  "coneResponse_third (Vec3 (Fin 8) (Fin 8) (Fin 8)) = Vec3 (Fin 2) (Fin 2) (Fin 2)
   \<and> coneResponse (Vec3 (Fin 8) (Fin 8) (Fin 8)) \<noteq> Vec3 (Fin 2) (Fin 2) (Fin 2)"
proof -
  have "fl (1 / 3) = Fin (1 / 3)" by (simp add: fl_num)
  moreover have "fl 2 = Fin 2" by (simp add: fl_num)
  ultimately have "coneResponse_third (Vec3 (Fin 8) (Fin 8) (Fin 8)) = Vec3 (Fin 2) (Fin 2) (Fin 2)"
    using cube_root_8 by (simp add: coneResponse_third_def)
  moreover have "jpow (jmax (Fin 8) (Fin 0)) (Fin 0.3333333) = Fin (max 8 0 powr 0.3333333)"
    by (rule cone_component) (use limit_gt_num in simp)
  then have "coneResponse (Vec3 (Fin 8) (Fin 8) (Fin 8)) \<noteq> Vec3 (Fin 2) (Fin 2) (Fin 2)"
    using pow8_lt unfolding coneResponse_def by (simp del: jpow.simps jmax.simps jmax_Fin)
  ultimately show ?thesis by simp
qed

section \<open>The hue wrap\<close>

lemma two_pi_Fin: "jmul (Fin pi) (Fin 2) = Fin (2 * pi)"
proof -
  have "\<bar>pi * 2\<bar> \<le> 1000" using pi_gt_zero pi_less_4 by simp
  then show ?thesis by (simp add: fl_num mult.commute)
qed

lemma trunc_rem_nonneg:
  assumes "0 < d" "0 \<le> n"
  shows "0 \<le> n - d * of_int (trunc (n / d))" "n - d * of_int (trunc (n / d)) < d"
proof -
  have q: "0 \<le> n / d" using assms by simp
  then have t: "trunc (n / d) = \<lfloor>n / d\<rfloor>" by (simp add: trunc_def)
  have dd: "d * (n / d) = n" using assms by simp
  have "of_int \<lfloor>n / d\<rfloor> \<le> n / d" by (rule of_int_floor_le)
  then have "d * of_int \<lfloor>n / d\<rfloor> \<le> d * (n / d)" using assms by (intro mult_left_mono) simp_all
  then have "d * of_int \<lfloor>n / d\<rfloor> \<le> n" by (simp only: dd)
  then show "0 \<le> n - d * of_int (trunc (n / d))" by (simp add: t)
  have "n / d < of_int \<lfloor>n / d\<rfloor> + 1" by linarith
  then have "d * (n / d) < d * (of_int \<lfloor>n / d\<rfloor> + 1)" using assms by (intro mult_strict_left_mono) simp_all
  then have "n < d * (of_int \<lfloor>n / d\<rfloor> + 1)" by (simp only: dd)
  then show "n - d * of_int (trunc (n / d)) < d" by (simp add: t algebra_simps)
qed

lemma trunc_rem_neg:
  assumes "0 < d" "n < 0"
  shows "- d < n - d * of_int (trunc (n / d))" "n - d * of_int (trunc (n / d)) \<le> 0"
proof -
  have q: "n / d < 0" using assms by (simp add: divide_neg_pos)
  then have t: "trunc (n / d) = \<lceil>n / d\<rceil>" by (simp add: trunc_def)
  have dd: "d * (n / d) = n" using assms by simp
  have "n / d \<le> of_int \<lceil>n / d\<rceil>" by (rule le_of_int_ceiling)
  then have "d * (n / d) \<le> d * of_int \<lceil>n / d\<rceil>" using assms by (intro mult_left_mono) simp_all
  then have "n \<le> d * of_int \<lceil>n / d\<rceil>" by (simp only: dd)
  then show "n - d * of_int (trunc (n / d)) \<le> 0" by (simp add: t)
  have "of_int \<lceil>n / d\<rceil> - 1 < n / d" by linarith
  then have "d * (of_int \<lceil>n / d\<rceil> - 1) < d * (n / d)" using assms by (intro mult_strict_left_mono) simp_all
  then have "d * (of_int \<lceil>n / d\<rceil> - 1) < n" by (simp only: dd)
  then show "- d < n - d * of_int (trunc (n / d))" by (simp add: t algebra_simps)
qed

lemma wrap_rule_range:
  "\<exists>w k. wrap_rule (Fin v) = Fin w \<and> 0 \<le> w \<and> w < 2 * pi \<and> w = v + 2 * pi * of_int k"
proof -
  define d where "d = 2 * pi"
  have d: "0 < d" using pi_gt_zero by (simp add: d_def)
  define q where "q = trunc (v / d)"
  define r where "r = v - d * of_int q"
  have rem: "jrem (Fin v) (Fin d) = Fin r" using d by (simp add: r_def q_def)
  have "\<exists>w k. wrap_rule (Fin v) = Fin w \<and> 0 \<le> w \<and> w < d \<and> w = v + d * of_int k"
  proof (cases "0 \<le> v")
    case True
    then have "0 \<le> r" "r < d" unfolding r_def q_def using trunc_rem_nonneg [OF d] by simp_all
    moreover have "r = v + d * of_int (- q)" by (simp add: r_def)
    moreover have "wrap_rule (Fin v) = Fin r"
      unfolding wrap_rule_def Let_def d_def [symmetric] rem using \<open>0 \<le> r\<close> by simp
    ultimately show ?thesis by blast
  next
    case False
    then have r: "- d < r" "r \<le> 0" unfolding r_def q_def using trunc_rem_neg [OF d] by simp_all
    show ?thesis
    proof (cases "r < 0")
      case True
      have "\<bar>r + d\<bar> \<le> 1000" using r d pi_less_4 by (simp add: d_def)
      then have "jadd (Fin r) (Fin d) = Fin (r + d)" by (simp add: fl_num)
      then have "wrap_rule (Fin v) = Fin (r + d)"
        unfolding wrap_rule_def Let_def d_def [symmetric] rem using True by simp
      moreover have "0 \<le> r + d" "r + d < d" using r True by simp_all
      moreover have "r + d = v + d * of_int (1 - q)" by (simp add: r_def algebra_simps)
      ultimately show ?thesis by blast
    next
      case False
      then have "wrap_rule (Fin v) = Fin r"
        unfolding wrap_rule_def Let_def d_def [symmetric] rem by simp
      moreover have "0 \<le> r" "r < d" using False r d by simp_all
      moreover have "r = v + d * of_int (- q)" by (simp add: r_def)
      ultimately show ?thesis by blast
    qed
  qed
  then show ?thesis by (simp only: d_def)
qed

lemma setHue_wrap:
  "setHue rgb h = oklch2rgb (Vec3 (vx (rgb2oklch rgb)) (vy (rgb2oklch rgb)) (wrap_rule h))"
  by (simp only: setHue_def wrap_rule_def Let_def two_pi_Fin)

lemma shiftHue_wrap:
  "shiftHue rgb f = oklch2rgb (Vec3 (vx (rgb2oklch rgb)) (vy (rgb2oklch rgb))
     (wrap_rule (jadd (vz (rgb2oklch rgb)) f)))"
  by (simp only: shiftHue_def wrap_rule_def Let_def two_pi_Fin)

lemma rem_seven_pi: "jrem (Fin (7 * pi)) (Fin (2 * pi)) = Fin pi"
proof -
  have "7 * pi / (2 * pi) = 7 / 2" by simp
  moreover have "\<lfloor>7 / 2 :: real\<rfloor> = 3" by linarith
  ultimately have "trunc (7 * pi / (2 * pi)) = 3" by (simp add: trunc_def)
  then show ?thesis by simp
qed

lemma rem_pi: "jrem (Fin pi) (Fin (2 * pi)) = Fin pi"
proof -
  have "pi / (2 * pi) = 1 / 2" by simp
  moreover have "\<lfloor>1 / 2 :: real\<rfloor> = 0" by linarith
  ultimately have "trunc (pi / (2 * pi)) = 0" by (simp add: trunc_def)
  then show ?thesis by simp
qed

lemma wrap_pi: "wrap_rule (Fin pi) = Fin pi"
  by (simp add: wrap_rule_def rem_pi not_less del: jrem.simps)

lemma wrap_seven_pi: "wrap_rule (Fin (7 * pi)) = Fin pi"
  by (simp add: wrap_rule_def rem_seven_pi not_less del: jrem.simps)

lemma pi_rangeI:
  "n = Fin h \<Longrightarrow> - pi \<le> h \<Longrightarrow> h \<le> pi \<Longrightarrow> n = NaN \<or> (\<exists>h. n = Fin h \<and> - pi \<le> h \<and> h \<le> pi)"
  by blast

lemma jatan2_range: "jatan2 b a = NaN \<or> (\<exists>h. jatan2 b a = Fin h \<and> - pi \<le> h \<and> h \<le> pi)"
proof -
  have p: "0 < pi" by (rule pi_gt_zero)
  show ?thesis
  proof (cases b)
    case (Fin y)
    show ?thesis
    proof (cases a)
      case (Fin x)
      show ?thesis
        by (rule pi_rangeI [where h = "atan2 y x"])
          (use atan2_range [of y x] \<open>b = Fin y\<close> Fin in simp_all)
    next
      case PInf
      show ?thesis
        by (rule pi_rangeI [where h = 0]) (use p \<open>b = Fin y\<close> PInf in simp_all)
    next
      case NInf
      show ?thesis
      proof (cases "0 \<le> y")
        case True
        show ?thesis
          by (rule pi_rangeI [where h = pi]) (use p True \<open>b = Fin y\<close> NInf in simp_all)
      next
        case False
        show ?thesis
          by (rule pi_rangeI [where h = "- pi"]) (use p False \<open>b = Fin y\<close> NInf in simp_all)
      qed
    next
      case NaN
      then show ?thesis using Fin by simp
    qed
  next
    case PInf
    show ?thesis
    proof (cases a)
      case (Fin x)
      have "- pi \<le> pi / 2" "pi / 2 \<le> pi" using p by linarith+
      then show ?thesis
        by (intro pi_rangeI [where h = "pi / 2"]) (use PInf Fin in simp_all)
    next
      case PInf
      have "- pi \<le> pi / 4" "pi / 4 \<le> pi" using p by linarith+
      then show ?thesis
        by (intro pi_rangeI [where h = "pi / 4"]) (use PInf \<open>b = PInf\<close> in simp_all)
    next
      case NInf
      have "- pi \<le> 3 * pi / 4" "3 * pi / 4 \<le> pi" using p by linarith+
      then show ?thesis
        by (intro pi_rangeI [where h = "3 * pi / 4"]) (use NInf \<open>b = PInf\<close> in simp_all)
    next
      case NaN
      then show ?thesis using PInf by simp
    qed
  next
    case NInf
    show ?thesis
    proof (cases a)
      case (Fin x)
      have "- pi \<le> - (pi / 2)" "- (pi / 2) \<le> pi" using p by linarith+
      then show ?thesis
        by (intro pi_rangeI [where h = "- (pi / 2)"]) (use NInf Fin in simp_all)
    next
      case PInf
      have "- pi \<le> - (pi / 4)" "- (pi / 4) \<le> pi" using p by linarith+
      then show ?thesis
        by (intro pi_rangeI [where h = "- (pi / 4)"]) (use PInf \<open>b = NInf\<close> in simp_all)
    next
      case NInf
      have "- pi \<le> - (3 * pi / 4)" "- (3 * pi / 4) \<le> pi" using p by linarith+
      then show ?thesis
        by (intro pi_rangeI [where h = "- (3 * pi / 4)"]) (use NInf \<open>b = NInf\<close> in simp_all)
    next
      case NaN
      then show ?thesis using NInf by simp
    qed
  next
    case NaN
    then show ?thesis by simp
  qed
qed

text \<open>
  C4, as amended. \<open>setHue\<close> and \<open>shiftHue\<close> hand \<open>oklch2rgb\<close> the hue wrapped by the
  rule \<open>newHue = value mod 2\<pi>\<close>, plus \<open>2\<pi>\<close> if that is negative; for a finite value the
  wrapped hue lies in \<open>[0, 2\<pi>)\<close> and differs from the value by a multiple of \<open>2\<pi>\<close>.
  Hence \<open>setHue(rgb, 7\<pi>)\<close> is \<open>setHue(rgb, 7\<pi> mod 2\<pi>)\<close> for every colour. The hue
  read back from any colour through \<open>rgb2oklch\<close> is NaN or lies in \<open>[-\<pi>, \<pi>]\<close>, the
  range of \<open>Math.atan2\<close>; it is not wrapped again.
\<close>

theorem hue_wrap:
  "setHue rgb h = oklch2rgb (Vec3 (vx (rgb2oklch rgb)) (vy (rgb2oklch rgb)) (wrap_rule h))
   \<and> shiftHue rgb f = oklch2rgb (Vec3 (vx (rgb2oklch rgb)) (vy (rgb2oklch rgb))
        (wrap_rule (jadd (vz (rgb2oklch rgb)) f)))
   \<and> (\<exists>w k. wrap_rule (Fin v) = Fin w \<and> 0 \<le> w \<and> w < 2 * pi \<and> w = v + 2 * pi * of_int k)
   \<and> setHue rgb (Fin (7 * pi)) = setHue rgb (jrem (Fin (7 * pi)) (jmul (Fin pi) (Fin 2)))
   \<and> (vz (rgb2oklch c) = NaN
        \<or> (\<exists>H. vz (rgb2oklch c) = Fin H \<and> - pi \<le> H \<and> H \<le> pi))"
proof -
  have "setHue rgb (Fin (7 * pi)) = setHue rgb (jrem (Fin (7 * pi)) (jmul (Fin pi) (Fin 2)))"
    by (simp only: setHue_wrap two_pi_Fin rem_seven_pi wrap_pi wrap_seven_pi)
  moreover have "vz (rgb2oklch c) = NaN
        \<or> (\<exists>H. vz (rgb2oklch c) = Fin H \<and> - pi \<le> H \<and> H \<le> pi)"
    unfolding rgb2oklch_def oklab2oklch_def Let_def
    by (simp only: vec3.select_convs jatan2_range)
  ultimately show ?thesis
    using setHue_wrap shiftHue_wrap wrap_rule_range by blast
qed

section \<open>The library computes the real pipelines\<close>

lemma mat_real_shadow:
  assumes "length m = 9" "\<forall>i<9. \<bar>m ! i\<bar> \<le> 5"
    and "\<bar>fst v\<bar> \<le> B" "\<bar>fst (snd v)\<bar> \<le> B" "\<bar>snd (snd v)\<bar> \<le> B" "B \<le> 50 * big"
  shows "mat3MulVec3 (map Fin m) (of_rvec v) = of_rvec (mat_real m v)"
  using mat_Fin [OF assms] by (simp add: of_rvec_def mat_real_def split_beta)

lemma kCONEtoLMS_r: "kCONEtoLMS = map Fin rCONEtoLMS" "length rCONEtoLMS = 9"
    "\<forall>i<9. \<bar>rCONEtoLMS ! i\<bar> \<le> 5"
  by (simp_all add: kCONEtoLMS_def rCONEtoLMS_def all_less_9)

lemma kLMStoOKLAB_r: "kLMStoOKLAB = map Fin rLMStoOKLAB" "length rLMStoOKLAB = 9"
    "\<forall>i<9. \<bar>rLMStoOKLAB ! i\<bar> \<le> 5"
  by (simp_all add: kLMStoOKLAB_def rLMStoOKLAB_def all_less_9)

lemma kOKLABtoLMS_r: "kOKLABtoLMS = map Fin rOKLABtoLMS" "length rOKLABtoLMS = 9"
    "\<forall>i<9. \<bar>rOKLABtoLMS ! i\<bar> \<le> 5"
  by (simp_all add: kOKLABtoLMS_def rOKLABtoLMS_def all_less_9)

lemma kLMStoCONE_r: "kLMStoCONE = map Fin rLMStoCONE" "length rLMStoCONE = 9"
    "\<forall>i<9. \<bar>rLMStoCONE ! i\<bar> \<le> 5"
  by (simp_all add: kLMStoCONE_def rLMStoCONE_def all_less_9)

lemma bounded_rvecD: "bounded_rvec B v \<Longrightarrow> \<bar>fst v\<bar> \<le> B \<and> \<bar>fst (snd v)\<bar> \<le> B \<and> \<bar>snd (snd v)\<bar> \<le> B"
  by (simp add: bounded_rvec_def split_beta)

lemma bounded_rvec_mono: "bounded_rvec B v \<Longrightarrow> B \<le> C \<Longrightarrow> bounded_rvec C v"
  by (auto simp: bounded_rvec_def split_beta)

lemma unit_bounded_rvec: "unit_rvec v \<Longrightarrow> bounded_rvec 1 v"
  by (auto simp: bounded_rvec_def unit_rvec_def split_beta)

lemma mat_real_bounded:
  assumes "length m = 9" "\<forall>i<9. \<bar>m ! i\<bar> \<le> 5" "bounded_rvec B v"
  shows "bounded_rvec (15 * B) (mat_real m v)"
proof -
  obtain a b c where v: "v = (a, b, c)" by (cases v) auto
  have b: "\<bar>a\<bar> \<le> B" "\<bar>b\<bar> \<le> B" "\<bar>c\<bar> \<le> B" using assms(3) by (simp_all add: v bounded_rvec_def)
  have m: "\<bar>m ! 0\<bar> + \<bar>m ! 1\<bar> + \<bar>m ! 2\<bar> \<le> 15" "\<bar>m ! 3\<bar> + \<bar>m ! 4\<bar> + \<bar>m ! 5\<bar> \<le> 15"
    "\<bar>m ! 6\<bar> + \<bar>m ! 7\<bar> + \<bar>m ! 8\<bar> \<le> 15"
    using assms(2) by (simp_all add: all_less_9)
  show ?thesis
    unfolding v mat_real_def bounded_rvec_def
    using row_bound [OF m(1) b] row_bound [OF m(2) b] row_bound [OF m(3) b] by simp
qed

lemma mat_shadow:
  assumes "bounded_rvec B v" "B \<le> 50 * big"
  shows "mat3MulVec3 kCONEtoLMS (of_rvec v) = of_rvec (mat_real rCONEtoLMS v)"
    "mat3MulVec3 kLMStoOKLAB (of_rvec v) = of_rvec (mat_real rLMStoOKLAB v)"
    "mat3MulVec3 kOKLABtoLMS (of_rvec v) = of_rvec (mat_real rOKLABtoLMS v)"
    "mat3MulVec3 kLMStoCONE (of_rvec v) = of_rvec (mat_real rLMStoCONE v)"
proof -
  note w = bounded_rvecD [OF assms(1)]
  show "mat3MulVec3 kCONEtoLMS (of_rvec v) = of_rvec (mat_real rCONEtoLMS v)"
    unfolding kCONEtoLMS_r(1) using w assms(2) by (intro mat_real_shadow kCONEtoLMS_r) simp_all
  show "mat3MulVec3 kLMStoOKLAB (of_rvec v) = of_rvec (mat_real rLMStoOKLAB v)"
    unfolding kLMStoOKLAB_r(1) using w assms(2) by (intro mat_real_shadow kLMStoOKLAB_r) simp_all
  show "mat3MulVec3 kOKLABtoLMS (of_rvec v) = of_rvec (mat_real rOKLABtoLMS v)"
    unfolding kOKLABtoLMS_r(1) using w assms(2) by (intro mat_real_shadow kOKLABtoLMS_r) simp_all
  show "mat3MulVec3 kLMStoCONE (of_rvec v) = of_rvec (mat_real rLMStoCONE v)"
    unfolding kLMStoCONE_r(1) using w assms(2) by (intro mat_real_shadow kLMStoCONE_r) simp_all
qed

lemma powr_le_max:
  fixes a e :: real
  assumes "0 \<le> a" "0 \<le> e" "e \<le> 1"
  shows "a powr e \<le> 1 + a"
proof (cases "a \<le> 1")
  case True
  then have "a powr e \<le> 1" using assms by (simp add: powr_le1)
  then show ?thesis using assms by linarith
next
  case False
  then have "a powr e \<le> a powr 1" using assms by (intro powr_mono) simp_all
  then show ?thesis using assms by simp
qed

lemma gamma_decode_Fin:
  assumes "0 \<le> a" "a \<le> 1"
  shows "jpow (Fin a) (Fin 2.2) = Fin (a powr 2.2)"
proof (cases "a = 0")
  case True
  then show ?thesis by simp
next
  case False
  have "a powr 2.2 \<le> 1" using assms by (simp add: powr_le1)
  then have "fl (a powr 2.2) = Fin (a powr 2.2)" by (intro fl_num) simp
  then show ?thesis using assms False by simp
qed

lemma frac_not_int: "0 < x \<Longrightarrow> x < 1 \<Longrightarrow> x \<notin> \<int>" for x :: real
proof
  assume x: "0 < x" "x < 1" "x \<in> \<int>"
  then obtain k :: int where k: "x = of_int k" by (auto elim: Ints_cases)
  then have "0 < k" "k < 1" using x by simp_all
  then show False by simp
qed

lemma inverse_gamma_Fin:
  assumes "v \<le> 500 * big"
  shows "jpow (Fin v) (Fin 0.4545454) = inverse_gamma_unclamped v"
proof -
  have ni: "(0.4545454::real) \<notin> \<int>" by (rule frac_not_int) simp_all
  consider "v < 0" | "v = 0" | "0 < v" by linarith
  then show ?thesis
  proof cases
    case 1
    then show ?thesis using ni by (simp add: inverse_gamma_unclamped_def)
  next
    case 2
    then show ?thesis by (simp add: inverse_gamma_unclamped_def)
  next
    case 3
    then have "v powr 0.4545454 \<le> 1 + v" by (intro powr_le_max) simp_all
    then have "\<bar>v powr 0.4545454\<bar> \<le> 1000 * big" using assms big_ge by simp
    then have "fl (v powr 0.4545454) = Fin (v powr 0.4545454)" by (rule fl_big)
    then show ?thesis using 3 by (simp add: inverse_gamma_unclamped_def)
  qed
qed

lemma unit_gamma_decode: "unit_rvec v \<Longrightarrow> unit_rvec (gamma_decode v)"
  by (auto simp: unit_rvec_def gamma_decode_def split_beta powr_le1)

lemma gamma_decode_shadow:
  assumes "unit_rvec v"
  shows "Vec3 (jpow (vx (of_rvec v)) (Fin 2.2)) (jpow (vy (of_rvec v)) (Fin 2.2))
              (jpow (vz (of_rvec v)) (Fin 2.2)) = of_rvec (gamma_decode v)"
proof -
  obtain a b c where v: "v = (a, b, c)" and
    r: "0 \<le> a" "a \<le> 1" "0 \<le> b" "b \<le> 1" "0 \<le> c" "c \<le> 1"
    using assms by (cases v) (auto simp: unit_rvec_def)
  show ?thesis
    unfolding v of_rvec_def gamma_decode_def
    by (simp only: vec3.select_convs prod.case gamma_decode_Fin r)
qed

text \<open>The rows of the cone matrix are non-negative and sum to at most 1.\<close>

lemma unit_lms: "unit_rvec v \<Longrightarrow> unit_rvec (mat_real rCONEtoLMS v)"
proof -
  assume "unit_rvec v"
  then obtain a b c where v: "v = (a, b, c)" and
    r: "0 \<le> a" "a \<le> 1" "0 \<le> b" "b \<le> 1" "0 \<le> c" "c \<le> 1"
    by (cases v) (auto simp: unit_rvec_def)
  show ?thesis
    unfolding v unit_rvec_def mat_real_def rCONEtoLMS_def using r by simp
qed

lemma unit_cone_nl: "unit_rvec v \<Longrightarrow> unit_rvec (cone_nl v)"
  by (auto simp: unit_rvec_def cone_nl_def split_beta powr_le1)

lemma cone_shadow:
  assumes "bounded_rvec B v" "B < dbl_limit"
  shows "coneResponse (of_rvec v) = of_rvec (cone_nl v)"
proof -
  obtain a b c where v: "v = (a, b, c)" by (cases v) auto
  have "a < dbl_limit" "b < dbl_limit" "c < dbl_limit"
    using assms by (auto simp: v bounded_rvec_def)
  then show ?thesis
    unfolding coneResponse_def v of_rvec_def cone_nl_def
    by (simp only: vec3.select_convs cone_component prod.case)
qed

lemma unit_rgb2cone: "unit_rvec v \<Longrightarrow> unit_rvec (rgb2cone_real v)"
  unfolding rgb2cone_real_def by (intro unit_cone_nl unit_lms unit_gamma_decode)

lemma one_le_big: "1 \<le> 50 * big" using big_ge by linarith

lemma rgb2cone_shadow:
  assumes "unit_rvec v"
  shows "coneResponse (mat3MulVec3 kCONEtoLMS
           (Vec3 (jpow (vx (of_rvec v)) (Fin 2.2)) (jpow (vy (of_rvec v)) (Fin 2.2))
                 (jpow (vz (of_rvec v)) (Fin 2.2)))) = of_rvec (rgb2cone_real v)"
proof -
  note u1 = unit_gamma_decode [OF assms]
  note u2 = unit_lms [OF u1]
  have "1 < dbl_limit" using limit_gt_num by linarith
  then show ?thesis
    unfolding rgb2cone_real_def gamma_decode_shadow [OF assms]
      mat_shadow(1) [OF unit_bounded_rvec [OF u1] one_le_big]
    by (rule cone_shadow [OF unit_bounded_rvec [OF u2]])
qed

lemma rgb2oklab_shadow:
  assumes "unit_rvec v"
  shows "rgb2oklab (of_rvec v) None = of_rvec (rgb2oklab_real v)"
  unfolding rgb2oklab_def Let_def gamma_or_default_def option.case rgb2cone_shadow [OF assms]
    rgb2oklab_real_def
  by (rule mat_shadow(2) [OF unit_bounded_rvec [OF unit_rgb2cone [OF assms]] one_le_big])


lemma bounded_OKLABtoLMS:
  assumes "bounded_rvec B v"
  shows "bounded_rvec (3 * B) (mat_real rOKLABtoLMS v)"
proof -
  obtain a b c where v: "v = (a, b, c)" by (cases v) auto
  have b: "\<bar>a\<bar> \<le> B" "\<bar>b\<bar> \<le> B" "\<bar>c\<bar> \<le> B" using assms by (simp_all add: v bounded_rvec_def)
  show ?thesis
    unfolding v mat_real_def bounded_rvec_def rOKLABtoLMS_def
    using row_bound [OF _ b, of 1 "0.3963377774" "0.2158037573" 3]
      row_bound [OF _ b, of 1 "- 0.1055613458" "- 0.0638541728" 3]
      row_bound [OF _ b, of 1 "- 0.0894841775" "- 1.2914855480" 3]
    by simp
qed

lemma cube_shadow:
  assumes "bounded_rvec (3 * small) q"
  shows "multiply (multiply (of_rvec q) (of_rvec q)) (of_rvec q) = of_rvec (cube q)"
    "bounded_rvec (27 * big) (cube q)"
proof -
  obtain a b c where q: "q = (a, b, c)" by (cases q) auto
  have b: "\<bar>a\<bar> \<le> 3 * small" "\<bar>b\<bar> \<le> 3 * small" "\<bar>c\<bar> \<le> 3 * small"
    using assms by (simp_all add: q bounded_rvec_def)
  show "multiply (multiply (of_rvec q) (of_rvec q)) (of_rvec q) = of_rvec (cube q)"
    unfolding q multiply_def of_rvec_def cube_def
    by (simp only: vec3.select_convs prod.case cube_Fin(1) [OF b(1)] cube_Fin(1) [OF b(2)]
        cube_Fin(1) [OF b(3)])
  show "bounded_rvec (27 * big) (cube q)"
    unfolding q cube_def bounded_rvec_def
    using cube_Fin(2) [OF b(1)] cube_Fin(2) [OF b(2)] cube_Fin(2) [OF b(3)] by simp
qed

lemma encode_component:
  "jpow (jmax (Fin 0) (jmin (Fin 1) (Fin w))) (jdiv (Fin 1) (Fin 2.2)) = Fin (clamp01 w powr (1 / 2.2))"
proof -
  have ig: "jdiv (Fin 1) (Fin 2.2) = Fin (1 / 2.2)"
  proof -
    have "fl (1 / 2.2) = Fin (1 / 2.2)" by (intro fl_num) simp
    then show ?thesis by simp
  qed
  have c: "0 \<le> clamp01 w" "clamp01 w \<le> 1" by (simp_all add: clamp01_def)
  have "jpow (Fin (clamp01 w)) (Fin (1 / 2.2)) = Fin (clamp01 w powr (1 / 2.2))"
  proof (cases "clamp01 w = 0")
    case True
    then show ?thesis by simp
  next
    case False
    have "clamp01 w powr (1 / 2.2) \<le> 1" using c by (simp add: powr_le1)
    then have "fl (clamp01 w powr (1 / 2.2)) = Fin (clamp01 w powr (1 / 2.2))"
      by (intro fl_num) simp
    then show ?thesis using False c by simp
  qed
  then show ?thesis unfolding ig by (simp only: jmax_Fin jmin_Fin clamp01_def)
qed

lemma small_le_big: "small \<le> 50 * big"
proof -
  have "small * 1 \<le> small * small" using small_ge by (intro mult_left_mono) simp_all
  then show ?thesis using small_square big_ge by linarith
qed

lemma oklab2rgb_shadow:
  assumes "bounded_rvec small lab"
  shows "oklab2rgb (of_rvec lab) None = of_rvec (oklab2rgb_real lab)"
proof -
  note q = bounded_OKLABtoLMS [OF assms]
  note c = cube_shadow [OF q]
  have b: "27 * big \<le> 50 * big" using big_ge by linarith
  obtain x y z where w: "mat_real rLMStoCONE (cube (mat_real rOKLABtoLMS lab)) = (x, y, z)"
    by (cases "mat_real rLMStoCONE (cube (mat_real rOKLABtoLMS lab))") auto
  show ?thesis
    unfolding oklab2rgb_def Let_def gamma_or_default_def option.case
      mat_shadow(3) [OF assms small_le_big] c(1) mat_shadow(4) [OF c(2) b]
      oklab2rgb_real_def oklab2lin_real_def
    unfolding w gamma_encode_def
    by (simp only: of_rvec_def vec3.select_convs prod.case encode_component)
qed

lemma lerp_Fin:
  assumes "0 \<le> a" "a \<le> 1" "0 \<le> b" "b \<le> 1" "\<bar>t\<bar> \<le> small"
  shows "lerp (Fin a) (Fin b) (Fin t) = Fin (a * (1 - t) + b * t)"
    "\<bar>a * (1 - t) + b * t\<bar> \<le> 3 * small"
proof -
  have 1: "jsub (Fin b) (Fin a) = Fin (b - a)"
  proof -
    have "fl (b + - a) = Fin (b + - a)" using assms by (intro fl_num) simp
    then show ?thesis by (simp add: jsub_def)
  qed
  have "\<bar>(b - a) * t\<bar> \<le> 1 * small"
    unfolding abs_mult using assms by (intro mult_mono) simp_all
  then have m: "\<bar>(b - a) * t\<bar> \<le> small" by simp
  then have 2: "jmul (Fin (b - a)) (Fin t) = Fin ((b - a) * t)"
    using small_le_big big_ge by (intro jmul_Fin fl_Fin) (use big_limit in linarith)
  have s: "\<bar>a + (b - a) * t\<bar> \<le> 1 + small" using m assms by linarith
  then have 3: "jadd (Fin a) (Fin ((b - a) * t)) = Fin (a + (b - a) * t)"
    using small_le_big big_ge by (intro jadd_Fin) (use big_limit in linarith)
  have e: "a + (b - a) * t = a * (1 - t) + b * t" by (simp add: algebra_simps)
  show "lerp (Fin a) (Fin b) (Fin t) = Fin (a * (1 - t) + b * t)"
    unfolding lerp_def 1 2 3 e ..
  show "\<bar>a * (1 - t) + b * t\<bar> \<le> 3 * small" using s small_ge unfolding e by linarith
qed

lemma interpolate_shadow:
  assumes "unit_rvec u" "unit_rvec v" "\<bar>t\<bar> \<le> small"
  shows "vec_mix (of_rvec u) (of_rvec v) (Fin t) = of_rvec (interpolate u v t)"
    "bounded_rvec (3 * small) (interpolate u v t)"
proof -
  obtain a1 b1 c1 where u: "u = (a1, b1, c1)" and
    ru: "0 \<le> a1" "a1 \<le> 1" "0 \<le> b1" "b1 \<le> 1" "0 \<le> c1" "c1 \<le> 1"
    using assms(1) by (cases u) (auto simp: unit_rvec_def)
  obtain a2 b2 c2 where v: "v = (a2, b2, c2)" and
    rv: "0 \<le> a2" "a2 \<le> 1" "0 \<le> b2" "b2 \<le> 1" "0 \<le> c2" "c2 \<le> 1"
    using assms(2) by (cases v) (auto simp: unit_rvec_def)
  note la = lerp_Fin [OF ru(1,2) rv(1,2) assms(3)]
  note lb = lerp_Fin [OF ru(3,4) rv(3,4) assms(3)]
  note lc = lerp_Fin [OF ru(5,6) rv(5,6) assms(3)]
  show "vec_mix (of_rvec u) (of_rvec v) (Fin t) = of_rvec (interpolate u v t)"
    unfolding u v vec_mix_def of_rvec_def interpolate_def
    by (simp only: vec3.select_convs prod.case la(1) lb(1) lc(1))
  show "bounded_rvec (3 * small) (interpolate u v t)"
    unfolding u v interpolate_def bounded_rvec_def using la(2) lb(2) lc(2) by simp
qed

lemma mix_shadow:
  assumes "unit_rvec u" "unit_rvec v" "\<bar>t\<bar> \<le> small"
  shows "mix (of_rvec u) (of_rvec v) (Fin t) = mix_real u v t"
proof -
  note cu = unit_rgb2cone [OF assms(1)] and cv = unit_rgb2cone [OF assms(2)]
  note i = interpolate_shadow [OF cu cv assms(3)]
  note c = cube_shadow [OF i(2)]
  have b: "27 * big \<le> 50 * big" using big_ge by linarith
  obtain x y z where w: "mix_lin_real u v t = (x, y, z)" by (cases "mix_lin_real u v t") auto
  have "bounded_rvec (15 * (27 * big)) (mix_lin_real u v t)"
    unfolding mix_lin_real_def by (intro mat_real_bounded kLMStoCONE_r c(2))
  then have xyz: "x \<le> 500 * big" "y \<le> 500 * big" "z \<le> 500 * big"
    unfolding w bounded_rvec_def using big_ge by auto
  show ?thesis
    unfolding mix_def Let_def rgb2cone_shadow [OF assms(1)] rgb2cone_shadow [OF assms(2)]
       i(1) c(1) mat_shadow(4) [OF c(2) b] mix_real_def
       mix_lin_real_def [symmetric]
    unfolding w
    by (simp only: of_rvec_def vec3.select_convs prod.case inverse_gamma_Fin xyz)
qed

section \<open>Numerical bounds on powers\<close>

lemma ln_chain_up:
  "0 < y \<Longrightarrow> chain_up y rs \<Longrightarrow> ln y \<le> 2 ^ length rs * ln (last (y # rs))"
proof (induction rs arbitrary: y)
  case Nil
  then show ?case by simp
next
  case (Cons r rs)
  then have r: "0 < r" "y \<le> r * r" "chain_up r rs" by simp_all
  have "ln y \<le> ln (r * r)" using Cons.prems(1) r by simp
  also have "\<dots> = 2 * ln r" using r by (simp add: ln_mult)
  also have "\<dots> \<le> 2 * (2 ^ length rs * ln (last (r # rs)))"
    using Cons.IH [OF r(1) r(3)] by simp
  finally show ?case by simp
qed

lemma chain_up_last_pos: "0 < y \<Longrightarrow> chain_up y rs \<Longrightarrow> 0 < last (y # rs)"
  by (induction rs arbitrary: y) auto

lemma ln_upper:
  assumes "0 < y" "chain_up y rs"
  shows "ln y \<le> 2 ^ length rs * (last (y # rs) - 1)"
proof -
  have "ln (last (y # rs)) \<le> last (y # rs) - 1"
    using chain_up_last_pos [OF assms] by (rule ln_le_minus_one)
  then have "2 ^ length rs * ln (last (y # rs)) \<le> 2 ^ length rs * (last (y # rs) - 1)"
    by (intro mult_left_mono) simp_all
  then show ?thesis using ln_chain_up [OF assms] by linarith
qed

lemma ln_chain_down:
  "1 \<le> y \<Longrightarrow> chain_down y ss \<Longrightarrow> 2 ^ length ss * ln (last (y # ss)) \<le> ln y"
proof (induction ss arbitrary: y)
  case Nil
  then show ?case by simp
next
  case (Cons s ss)
  then have s: "1 \<le> s" "s * s \<le> y" "chain_down s ss" by simp_all
  have "2 * (2 ^ length ss * ln (last (s # ss))) \<le> 2 * ln s"
    using Cons.IH [OF s(1) s(3)] by simp
  also have "\<dots> = ln (s * s)" using s by (simp add: ln_mult)
  also have "\<dots> \<le> ln y" using s Cons.prems(1) by simp
  finally show ?case by simp
qed

lemma chain_down_last: "1 \<le> y \<Longrightarrow> chain_down y ss \<Longrightarrow> 1 \<le> last (y # ss)"
  by (induction ss arbitrary: y) auto

lemma ln_lower:
  assumes "1 \<le> y" "chain_down y ss" "last (y # ss) \<le> 2"
  shows "2 ^ length ss * ((last (y # ss) - 1) - (last (y # ss) - 1) * (last (y # ss) - 1)) \<le> ln y"
proof -
  define u where "u = last (y # ss) - 1"
  have u: "0 \<le> u" "u \<le> 1" using chain_down_last [OF assms(1,2)] assms(3) by (simp_all add: u_def)
  have "u - u\<^sup>2 \<le> ln (1 + u)" using u by (rule ln_one_plus_pos_lower_bound)
  then have "u - u\<^sup>2 \<le> ln (last (y # ss))" by (simp add: u_def)
  then have "2 ^ length ss * (u - u\<^sup>2) \<le> 2 ^ length ss * ln (last (y # ss))"
    by (intro mult_left_mono) simp_all
  then show ?thesis
    using ln_chain_down [OF assms(1,2)] unfolding u_def power2_eq_square by linarith
qed

text \<open>The power \<open>x ^ 0.9999999\<close>, which cubing a cone response produces.\<close>

lemma powr7_eq:
  fixes x :: real
  assumes "0 < x"
  shows "x powr 0.9999999 = x * exp (ln (1 / x) / 10 ^ 7)"
proof -
  have "x powr 0.9999999 = x powr (1 + - (1 / 10 ^ 7))" by simp
  also have "\<dots> = x powr 1 * x powr (- (1 / 10 ^ 7))" by (rule powr_add)
  also have "x powr 1 = x" using assms by simp
  also have "x powr (- (1 / 10 ^ 7)) = exp (- (1 / 10 ^ 7) * ln x)"
    using assms by (simp add: powr_def)
  also have "- (1 / 10 ^ 7) * ln x = ln (1 / x) / 10 ^ 7"
    using assms by (simp add: ln_div)
  finally show ?thesis .
qed

lemma powr7_lower:
  fixes x :: real
  assumes "0 < x" "lo \<le> ln (1 / x)"
  shows "x * (1 + lo / 10 ^ 7) \<le> x powr 0.9999999"
proof -
  have "1 + lo / 10 ^ 7 \<le> 1 + ln (1 / x) / 10 ^ 7" using assms(2) by (simp add: divide_right_mono)
  also have "\<dots> \<le> exp (ln (1 / x) / 10 ^ 7)" by (rule exp_ge_add_one_self)
  finally have "x * (1 + lo / 10 ^ 7) \<le> x * exp (ln (1 / x) / 10 ^ 7)"
    using assms(1) by (intro mult_left_mono) simp_all
  then show ?thesis by (simp only: powr7_eq [OF assms(1)])
qed

lemma powr7_upper:
  fixes x :: real
  assumes "0 < x" "x \<le> 1" "ln (1 / x) \<le> hi" "hi \<le> 10 ^ 7"
  shows "x powr 0.9999999 \<le> x * (1 + hi / 10 ^ 7 + hi / 10 ^ 7 * (hi / 10 ^ 7))"
proof -
  have l0: "0 \<le> ln (1 / x)" using assms(1,2) by simp
  then have h0: "0 \<le> hi" using assms(3) by linarith
  have "exp (ln (1 / x) / 10 ^ 7) \<le> exp (hi / 10 ^ 7)"
    using assms(3) by (simp add: divide_right_mono)
  also have "\<dots> \<le> 1 + hi / 10 ^ 7 + (hi / 10 ^ 7)\<^sup>2"
    using h0 assms(4) by (intro exp_bound) simp_all
  finally have "x * exp (ln (1 / x) / 10 ^ 7) \<le> x * (1 + hi / 10 ^ 7 + (hi / 10 ^ 7)\<^sup>2)"
    using assms(1) by (intro mult_left_mono) simp_all
  then show ?thesis unfolding powr7_eq [OF assms(1)] power2_eq_square .
qed

text \<open>The cube of a cone response is that power.\<close>

lemma cone_cubed:
  fixes x :: real
  shows "x powr 0.3333333 * (x powr 0.3333333) * (x powr 0.3333333) = x powr 0.9999999"
proof -
  have "x powr 0.3333333 * (x powr 0.3333333) * (x powr 0.3333333)
        = x powr (0.3333333 + 0.3333333 + 0.3333333)"
    by (simp only: powr_add)
  also have "(0.3333333 + 0.3333333 + 0.3333333 :: real) = 0.9999999" by simp
  finally show ?thesis .
qed

text \<open>Bounds on a cone response itself, from a cube root and a logarithm.\<close>

lemma cone_eq:
  fixes x :: real
  assumes "0 < x"
  shows "x powr 0.3333333 = x powr (1 / 3) * exp (ln (1 / x) / (3 * 10 ^ 7))"
proof -
  have "x powr 0.3333333 = x powr (1 / 3 + - (1 / (3 * 10 ^ 7)))" by simp
  also have "\<dots> = x powr (1 / 3) * x powr (- (1 / (3 * 10 ^ 7)))" by (rule powr_add)
  also have "x powr (- (1 / (3 * 10 ^ 7))) = exp (- (1 / (3 * 10 ^ 7)) * ln x)"
    using assms by (simp add: powr_def)
  also have "- (1 / (3 * 10 ^ 7)) * ln x = ln (1 / x) / (3 * 10 ^ 7)"
    using assms by (simp add: ln_div)
  finally show ?thesis .
qed

lemma cube_powr_third:
  fixes a :: real
  assumes "0 \<le> a"
  shows "(a * a * a) powr (1 / 3) = a"
proof -
  have "(a * a * a) powr (1 / 3) = a powr (1 / 3) * a powr (1 / 3) * a powr (1 / 3)"
    using assms by (simp add: powr_mult)
  also have "\<dots> = a powr (1 / 3 + 1 / 3 + 1 / 3)" by (simp only: powr_add)
  also have "(1 / 3 + 1 / 3 + 1 / 3 :: real) = 1" by simp
  finally show ?thesis using assms by simp
qed

lemma cube_root_lower:
  fixes a x :: real
  assumes "0 \<le> a" "a * a * a \<le> x"
  shows "a \<le> x powr (1 / 3)"
proof -
  have "(a * a * a) powr (1 / 3) \<le> x powr (1 / 3)"
    using assms by (intro powr_mono2) simp_all
  then show ?thesis by (simp only: cube_powr_third [OF assms(1)])
qed

lemma cube_root_upper:
  fixes b x :: real
  assumes "0 \<le> b" "0 \<le> x" "x \<le> b * b * b"
  shows "x powr (1 / 3) \<le> b"
proof -
  have "x powr (1 / 3) \<le> (b * b * b) powr (1 / 3)" using assms by (intro powr_mono2) simp_all
  then show ?thesis by (simp only: cube_powr_third [OF assms(1)])
qed

lemma cone_lower:
  fixes x :: real
  assumes "0 < x" "0 \<le> a" "a * a * a \<le> x" "0 \<le> lo" "lo \<le> ln (1 / x)"
  shows "a * (1 + lo / (3 * 10 ^ 7)) \<le> x powr 0.3333333"
proof -
  have 1: "a \<le> x powr (1 / 3)" using assms(2,3) by (rule cube_root_lower)
  have "1 + lo / (3 * 10 ^ 7) \<le> 1 + ln (1 / x) / (3 * 10 ^ 7)"
    using assms(5) by (simp add: divide_right_mono)
  also have "\<dots> \<le> exp (ln (1 / x) / (3 * 10 ^ 7))" by (rule exp_ge_add_one_self)
  finally have 2: "1 + lo / (3 * 10 ^ 7) \<le> exp (ln (1 / x) / (3 * 10 ^ 7))" .
  have "a * (1 + lo / (3 * 10 ^ 7)) \<le> x powr (1 / 3) * exp (ln (1 / x) / (3 * 10 ^ 7))"
    using 1 2 assms(2,4) by (intro mult_mono) simp_all
  then show ?thesis by (simp only: cone_eq [OF assms(1)])
qed

lemma cone_upper:
  fixes x :: real
  assumes "0 < x" "x \<le> 1" "0 \<le> b" "x \<le> b * b * b" "ln (1 / x) \<le> hi" "hi \<le> 10 ^ 7"
  shows "x powr 0.3333333 \<le> b * (1 + hi / (3 * 10 ^ 7) + hi / (3 * 10 ^ 7) * (hi / (3 * 10 ^ 7)))"
proof -
  have 1: "x powr (1 / 3) \<le> b" using assms(1,3,4) by (intro cube_root_upper) simp_all
  have l0: "0 \<le> ln (1 / x)" using assms(1,2) by simp
  then have h0: "0 \<le> hi" using assms(5) by linarith
  have "exp (ln (1 / x) / (3 * 10 ^ 7)) \<le> exp (hi / (3 * 10 ^ 7))"
    using assms(5) by (simp add: divide_right_mono)
  also have "\<dots> \<le> 1 + hi / (3 * 10 ^ 7) + (hi / (3 * 10 ^ 7))\<^sup>2"
    using h0 assms(6) by (intro exp_bound) simp_all
  finally have 2: "exp (ln (1 / x) / (3 * 10 ^ 7)) \<le> 1 + hi / (3 * 10 ^ 7) + (hi / (3 * 10 ^ 7))\<^sup>2" .
  have "x powr (1 / 3) * exp (ln (1 / x) / (3 * 10 ^ 7))
        \<le> b * (1 + hi / (3 * 10 ^ 7) + (hi / (3 * 10 ^ 7))\<^sup>2)"
    using 1 2 assms(3) by (intro mult_mono) simp_all
  then show ?thesis unfolding cone_eq [OF assms(1)] power2_eq_square .
qed


text \<open>The cone responses of pure blue and pure green, and their cubes.\<close>

lemma ln_b0_hi: "ln (1 / 0.0514459929 :: real) \<le> 3.037083"
  using ln_upper [of "1 / 0.0514459929" "[4.40883884, 2.09972352, 1.44904228, 1.20376173, 1.09716076, 1.04745442]"] by simp

lemma ln_b0_lo: "2.892958 \<le> ln (1 / 0.0514459929 :: real)"
  using ln_lower [of "1 / 0.0514459929" "[4.40883883, 2.09972351, 1.44904227, 1.20376171, 1.09716074, 1.0474544]"] by simp

lemma p7_b0_hi: "(0.0514459929::real) powr 0.9999999 \<le> 0.0514460085245797907842"
  using powr7_upper [of "0.0514459929" "3.037083"] ln_b0_hi by simp

lemma p7_b0_lo: "0.0514460077831096727998 \<le> (0.0514459929::real) powr 0.9999999"
  using powr7_lower [of "0.0514459929" "2.892958"] ln_b0_lo by simp

lemma cone_b0_lo: "0.371920879085 \<le> (0.0514459929::real) powr 0.3333333"
  using cone_lower [of "0.0514459929" "0.37192084322" "2.892958"] ln_b0_lo by simp

lemma cone_b0_hi: "(0.0514459929::real) powr 0.3333333 \<le> 0.371920880882"
  using cone_upper [of "0.0514459929" "0.37192084323" "3.037083"] ln_b0_hi by simp

lemma ln_b1_hi: "ln (1 / 0.1073969566 :: real) \<le> 2.270574"
  using ln_upper [of "1 / 0.1073969566" "[3.05143423, 1.7468355, 1.32167905, 1.14964301, 1.07221407, 1.03547771]"] by simp

lemma ln_b1_lo: "2.190017 \<le> ln (1 / 0.1073969566 :: real)"
  using ln_lower [of "1 / 0.1073969566" "[3.05143422, 1.74683548, 1.32167903, 1.149643, 1.07221406, 1.03547769]"] by simp

lemma p7_b1_hi: "(0.1073969566::real) powr 0.9999999 \<le> 0.1073969809852792703657"
  using powr7_upper [of "0.1073969566" "2.270574"] ln_b1_hi by simp

lemma p7_b1_lo: "0.1073969801201160702262 \<le> (0.1073969566::real) powr 0.9999999"
  using powr7_lower [of "0.1073969566" "2.190017"] ln_b1_lo by simp

lemma cone_b1_lo: "0.475332332699 \<le> (0.1073969566::real) powr 0.3333333"
  using cone_lower [of "0.1073969566" "0.475332298" "2.190017"] ln_b1_lo by simp

lemma cone_b1_hi: "(0.1073969566::real) powr 0.3333333 \<le> 0.475332333986"
  using cone_upper [of "0.1073969566" "0.47533229801" "2.270574"] ln_b1_hi by simp

lemma ln_b2_hi: "ln (1 / 0.6299787005 :: real) \<le> 0.463743"
  using ln_upper [of "1 / 0.6299787005" "[1.25990288, 1.12245396, 1.05945928, 1.02930039, 1.01454443, 1.00724597]"] by simp

lemma ln_b2_lo: "0.46038 \<le> ln (1 / 0.6299787005 :: real)"
  using ln_lower [of "1 / 0.6299787005" "[1.25990287, 1.12245395, 1.05945927, 1.02930037, 1.01454441, 1.00724595]"] by simp

lemma p7_b2_hi: "(0.6299787005::real) powr 0.9999999 \<le> 0.6299787297148226054141"
  using powr7_upper [of "0.6299787005" "0.463743"] ln_b2_hi by simp

lemma p7_b2_lo: "0.629978729502959413619 \<le> (0.6299787005::real) powr 0.9999999"
  using powr7_lower [of "0.6299787005" "0.46038"] ln_b2_lo by simp

lemma cone_b2_lo: "0.857252240295 \<le> (0.6299787005::real) powr 0.3333333"
  using cone_lower [of "0.6299787005" "0.85725222714" "0.46038"] ln_b2_lo by simp

lemma cone_b2_hi: "(0.6299787005::real) powr 0.3333333 \<le> 0.857252240402"
  using cone_upper [of "0.6299787005" "0.85725222715" "0.463743"] ln_b2_hi by simp

lemma ln_g0_hi: "ln (1 / 0.5363325363 :: real) \<le> 0.626044"
  using ln_upper [of "1 / 0.5363325363" "[1.36547241, 1.1685343, 1.08098766, 1.03970557, 1.01965954, 1.00978193]"] by simp

lemma ln_g0_lo: "0.619918 \<le> ln (1 / 0.5363325363 :: real)"
  using ln_lower [of "1 / 0.5363325363" "[1.3654724, 1.16853429, 1.08098764, 1.03970555, 1.01965952, 1.00978191]"] by simp

lemma cone_g0_lo: "0.812477588738 \<le> (0.5363325363::real) powr 0.3333333"
  using cone_lower [of "0.5363325363" "0.81247757195" "0.619918"] ln_g0_lo by simp

lemma cone_g0_hi: "(0.5363325363::real) powr 0.3333333 \<le> 0.812477588915"
  using cone_upper [of "0.5363325363" "0.81247757196" "0.626044"] ln_g0_hi by simp

lemma ln_g1_hi: "ln (1 / 0.6806995451 :: real) \<le> 0.385794"
  using ln_upper [of "1 / 0.6806995451" "[1.21205484, 1.10093363, 1.04925385, 1.02433093, 1.01209236, 1.00602802]"] by simp

lemma ln_g1_lo: "0.383466 \<le> ln (1 / 0.6806995451 :: real)"
  using ln_lower [of "1 / 0.6806995451" "[1.21205483, 1.10093361, 1.04925383, 1.02433091, 1.01209234, 1.006028]"] by simp

lemma cone_g1_lo: "0.879667389444 \<le> (0.6806995451::real) powr 0.3333333"
  using cone_lower [of "0.6806995451" "0.8796673782" "0.383466"] ln_g1_lo by simp

lemma cone_g1_hi: "(0.6806995451::real) powr 0.3333333 \<le> 0.879667389523"
  using cone_upper [of "0.6806995451" "0.87966737821" "0.385794"] ln_g1_hi by simp

lemma ln_g2_hi: "ln (1 / 0.2817188376 :: real) \<le> 1.279469"
  using ln_upper [of "1 / 0.2817188376" "[1.88404841, 1.37260643, 1.17158288, 1.08239683, 1.04038303, 1.01999169]"] by simp

lemma ln_g2_lo: "1.253888 \<le> ln (1 / 0.2817188376 :: real)"
  using ln_lower [of "1 / 0.2817188376" "[1.8840484, 1.37260642, 1.17158286, 1.08239681, 1.04038301, 1.01999167]"] by simp

lemma cone_g2_lo: "0.655549233719 \<le> (0.2817188376::real) powr 0.3333333"
  using cone_lower [of "0.2817188376" "0.65554920632" "1.253888"] ln_g2_lo by simp

lemma cone_g2_hi: "(0.2817188376::real) powr 0.3333333 \<le> 0.655549234289"
  using cone_upper [of "0.2817188376" "0.65554920633" "1.279469"] ln_g2_hi by simp

section \<open>Concrete colours\<close>

lemma interpolate_same: "interpolate u u t = u"
  by (cases u) (simp add: interpolate_def algebra_simps)

lemma cone_of_blue:
  "rgb2cone_real (0, 0, 1) =
     (0.0514459929 powr 0.3333333, 0.1073969566 powr 0.3333333, 0.6299787005 powr 0.3333333)"
  by (simp add: rgb2cone_real_def gamma_decode_def mat_real_def rCONEtoLMS_def cone_nl_def)

lemma cubed_blue:
  "cube (rgb2cone_real (0, 0, 1)) =
     (0.0514459929 powr 0.9999999, 0.1073969566 powr 0.9999999, 0.6299787005 powr 0.9999999)"
  unfolding cone_of_blue cube_def prod.case
  by (simp only: cone_cubed [of "0.0514459929"] cone_cubed [of "0.1073969566"]
      cone_cubed [of "0.6299787005"])

lemma blue_lin_negative: "fst (mix_lin_real (0, 0, 1) (0, 0, 1) t) < 0"
proof -
  have "fst (mix_lin_real (0, 0, 1) (0, 0, 1) t) =
      4.0767416621 * 0.0514459929 powr 0.9999999 + - 3.3077115913 * 0.1073969566 powr 0.9999999
      + 0.2309699292 * 0.6299787005 powr 0.9999999"
    unfolding mix_lin_real_def interpolate_same cubed_blue
    by (simp add: mat_real_def rLMStoCONE_def)
  then show ?thesis using p7_b0_hi p7_b1_lo p7_b2_hi by simp
qed

lemma cube_mono:
  fixes a b :: real
  assumes "0 \<le> a" "a \<le> b"
  shows "a * a * a \<le> b * b * b"
  using assms by (intro mult_mono) simp_all

lemma cone_of_green:
  "rgb2cone_real (0, 1, 0) =
     (0.5363325363 powr 0.3333333, 0.6806995451 powr 0.3333333, 0.2817188376 powr 0.3333333)"
  by (simp add: rgb2cone_real_def gamma_decode_def mat_real_def rCONEtoLMS_def cone_nl_def)

lemma blue_green_lin_negative: "fst (mix_lin_real (0, 0, 1) (0, 1, 0) (1 / 2)) < 0"
proof -
  define m0 where "m0 = (0.0514459929::real) powr 0.3333333 * (1 - 1 / 2)
      + 0.5363325363 powr 0.3333333 * (1 / 2)"
  define m1 where "m1 = (0.1073969566::real) powr 0.3333333 * (1 - 1 / 2)
      + 0.6806995451 powr 0.3333333 * (1 / 2)"
  define m2 where "m2 = (0.6299787005::real) powr 0.3333333 * (1 - 1 / 2)
      + 0.2817188376 powr 0.3333333 * (1 / 2)"
  have i: "interpolate (rgb2cone_real (0, 0, 1)) (rgb2cone_real (0, 1, 0)) (1 / 2) = (m0, m1, m2)"
    unfolding cone_of_blue cone_of_green interpolate_def prod.case m0_def m1_def m2_def ..
  have e: "fst (mix_lin_real (0, 0, 1) (0, 1, 0) (1 / 2)) =
      4.0767416621 * (m0 * m0 * m0) + - 3.3077115913 * (m1 * m1 * m1)
      + 0.2309699292 * (m2 * m2 * m2)"
    unfolding mix_lin_real_def i by (simp add: mat_real_def rLMStoCONE_def cube_def)
  have "0 \<le> m0" "m0 \<le> 0.6" unfolding m0_def using cone_b0_hi cone_g0_hi by simp_all
  then have c0: "m0 * m0 * m0 \<le> 0.6 * 0.6 * 0.6" by (rule cube_mono)
  have "0 \<le> (0.67::real)" "0.67 \<le> m1" unfolding m1_def using cone_b1_lo cone_g1_lo by simp_all
  then have c1: "0.67 * 0.67 * 0.67 \<le> m1 * m1 * m1" by (rule cube_mono)
  have "0 \<le> m2" "m2 \<le> 0.76" unfolding m2_def using cone_b2_hi cone_g2_hi by simp_all
  then have c2: "m2 * m2 * m2 \<le> 0.76 * 0.76 * 0.76" by (rule cube_mono)
  show ?thesis unfolding e using c0 c1 c2 by simp
qed


lemma rmat_CONEtoLMS:
  "mat_real rCONEtoLMS (a, b, c) =
     (0.4122214708 * a + 0.5363325363 * b + 0.0514459929 * c,
      0.2119034982 * a + 0.6806995451 * b + 0.1073969566 * c,
      0.0883024619 * a + 0.2817188376 * b + 0.6299787005 * c)"
  by (simp add: mat_real_def rCONEtoLMS_def)

lemma rmat_LMStoOKLAB:
  "mat_real rLMStoOKLAB (a, b, c) =
     (0.2104542553 * a + 0.7936177850 * b + - 0.0040720468 * c,
      1.9779984951 * a + - 2.4285922050 * b + 0.4505937099 * c,
      0.0259040371 * a + 0.7827717662 * b + - 0.8086757660 * c)"
  by (simp add: mat_real_def rLMStoOKLAB_def)

lemma rmat_OKLABtoLMS:
  "mat_real rOKLABtoLMS (a, b, c) =
     (a + 0.3963377774 * b + 0.2158037573 * c,
      a + - 0.1055613458 * b + - 0.0638541728 * c,
      a + - 0.0894841775 * b + - 1.2914855480 * c)"
  by (simp add: mat_real_def rOKLABtoLMS_def)

lemma rmat_LMStoCONE:
  "mat_real rLMStoCONE (a, b, c) =
     (4.0767416621 * a + - 3.3077115913 * b + 0.2309699292 * c,
      - 1.2684380046 * a + 2.6097574011 * b + - 0.3413193965 * c,
      - 0.0041960863 * a + - 0.7034186147 * b + 1.7076147010 * c)"
  by (simp add: mat_real_def rLMStoCONE_def)

lemma unit_lab_bounded: "unit_rvec v \<Longrightarrow> bounded_rvec small (rgb2oklab_real v)"
proof -
  assume "unit_rvec v"
  then have "bounded_rvec 1 (rgb2cone_real v)" by (intro unit_bounded_rvec unit_rgb2cone)
  then have "bounded_rvec (15 * 1) (rgb2oklab_real v)"
    unfolding rgb2oklab_real_def by (intro mat_real_bounded kLMStoOKLAB_r)
  then show ?thesis using small_ge by (elim bounded_rvec_mono) simp
qed

lemma roundtrip_shadow:
  assumes "unit_rvec v"
  shows "oklab2rgb (rgb2oklab (of_rvec v) None) None = of_rvec (oklab2rgb_real (rgb2oklab_real v))"
  unfolding rgb2oklab_shadow [OF assms] by (rule oklab2rgb_shadow [OF unit_lab_bounded [OF assms]])

lemma lms_there_and_back:
  "mat_real rOKLABtoLMS (mat_real rLMStoOKLAB (a, b, c)) =
     (0.99999997108389738657 * a + 0.00000003651365197626 * b + - 0.00000000604806921554 * c,
      - 0.00000000869433171646 * a + 1.00000000293729348964 * b + - 0.00000000312472241862 * c,
      - 0.00000000267976711105 * a + - 0.0000000624823984901 * b + 1.00000001048975466075 * c)"
  by (simp add: rmat_LMStoOKLAB rmat_OKLABtoLMS algebra_simps)

lemma green_lin_positive: "1 / 10 ^ 8 \<le> fst (oklab2lin_real (rgb2oklab_real (0, 1, 0)))"
proof -
  define p0 where "p0 = (0.5363325363::real) powr 0.3333333"
  define p1 where "p1 = (0.6806995451::real) powr 0.3333333"
  define p2 where "p2 = (0.2817188376::real) powr 0.3333333"
  define q0 where "q0 = 0.99999997108389738657 * p0 + 0.00000003651365197626 * p1
      + - 0.00000000604806921554 * p2"
  define q1 where "q1 = - 0.00000000869433171646 * p0 + 1.00000000293729348964 * p1
      + - 0.00000000312472241862 * p2"
  define q2 where "q2 = - 0.00000000267976711105 * p0 + - 0.0000000624823984901 * p1
      + 1.00000001048975466075 * p2"
  have e: "fst (oklab2lin_real (rgb2oklab_real (0, 1, 0))) =
      4.0767416621 * (q0 * q0 * q0) + - 3.3077115913 * (q1 * q1 * q1)
      + 0.2309699292 * (q2 * q2 * q2)"
    unfolding oklab2lin_real_def rgb2oklab_real_def cone_of_green lms_there_and_back
      cube_def prod.case rmat_LMStoCONE fst_conv
      p0_def [symmetric] p1_def [symmetric] p2_def [symmetric]
      q0_def [symmetric] q1_def [symmetric] q2_def [symmetric] ..
  have p: "0.812477588738 \<le> p0" "p0 \<le> 0.812477588915"
    "0.879667389444 \<le> p1" "p1 \<le> 0.879667389523"
    "0.655549233719 \<le> p2" "p2 \<le> 0.655549234289"
    unfolding p0_def p1_def p2_def
    using cone_g0_lo cone_g0_hi cone_g1_lo cone_g1_hi cone_g2_lo cone_g2_hi by simp_all
  have q0: "0.812477593399 \<le> q0" unfolding q0_def using p by simp
  have q1: "q1 \<le> 0.879667382995" "0 \<le> q1" unfolding q1_def using p by simp_all
  have q2: "0.655549183454 \<le> q2" unfolding q2_def using p by simp
  have c0: "0.812477593399 * 0.812477593399 * 0.812477593399 \<le> q0 * q0 * q0"
    using q0 by (intro cube_mono) simp_all
  have c1: "q1 * q1 * q1 \<le> 0.879667382995 * 0.879667382995 * 0.879667382995"
    using q1 by (intro cube_mono) simp_all
  have c2: "0.655549183454 * 0.655549183454 * 0.655549183454 \<le> q2 * q2 * q2"
    using q2 by (intro cube_mono) simp_all
  show ?thesis unfolding e using c0 c1 c2 by simp
qed

lemma encode_exceeds:
  assumes "1 / 10 ^ 8 \<le> w"
  shows "1 / 10 ^ 4 < clamp01 w powr (1 / 2.2)"
proof -
  have c: "1 / 10 ^ 8 \<le> clamp01 w" using assms by (simp add: clamp01_def)
  have "(1 / 10 ^ 4 :: real) = (1 / 10 ^ 4) powr 1" by simp
  also have "\<dots> < (1 / 10 ^ 4) powr (2 * (1 / 2.2))"
    by (rule powr_less_mono') simp_all
  also have "\<dots> = ((1 / 10 ^ 4) powr 2) powr (1 / 2.2)" by (simp only: powr_powr)
  also have "((1 / 10 ^ 4 :: real) powr 2) = 1 / 10 ^ 8" by (simp add: power2_eq_square)
  also have "(1 / 10 ^ 8) powr (1 / 2.2) \<le> clamp01 w powr (1 / 2.2)"
    using c by (intro powr_mono2) simp_all
  finally show ?thesis .
qed

text \<open>
  C1 as stated fails at pure green \<open>(0, 1, 0)\<close>: after the round trip the linear red
  component is at least \<open>10^-8\<close>, so the red output exceeds \<open>10^-4\<close>, while the input
  red is 0.
\<close>

theorem roundtrip_counterexample:
  "\<not> approx_num (1 / 10 ^ 4) 0 (vx (oklab2rgb (rgb2oklab (Vec3 (Fin 0) (Fin 1) (Fin 0)) None) None))"
proof -
  have u: "unit_rvec (0, 1, 0)" by (simp add: unit_rvec_def)
  have o: "of_rvec (0, 1, 0) = Vec3 (Fin 0) (Fin 1) (Fin 0)" by (simp add: of_rvec_def)
  obtain x y z where w: "oklab2lin_real (rgb2oklab_real (0, 1, 0)) = (x, y, z)"
    by (cases "oklab2lin_real (rgb2oklab_real (0, 1, 0))") auto
  have "1 / 10 ^ 8 \<le> x" using green_lin_positive unfolding w by simp
  then have "1 / 10 ^ 4 < clamp01 x powr (1 / 2.2)" by (rule encode_exceeds)
  moreover have "vx (oklab2rgb (rgb2oklab (Vec3 (Fin 0) (Fin 1) (Fin 0)) None) None)
      = Fin (clamp01 x powr (1 / 2.2))"
    unfolding o [symmetric] roundtrip_shadow [OF u] oklab2rgb_real_def w gamma_encode_def
    by (simp add: of_rvec_def)
  ultimately show ?thesis by simp
qed


lemma vx_mix_real: "vx (mix_real u v t) = inverse_gamma_unclamped (fst (mix_lin_real u v t))"
  by (simp add: mix_real_def split_beta)

lemma interpolate_zero: "interpolate u v 0 = u"
  by (cases u; cases v) (simp add: interpolate_def)

lemma interpolate_one: "interpolate u v 1 = v"
  by (cases u; cases v) (simp add: interpolate_def)

lemma blue_cube_negative: "fst (mat_real rLMStoCONE (cube (rgb2cone_real (0, 0, 1)))) < 0"
  using blue_lin_negative [of 0] unfolding mix_lin_real_def interpolate_same .

lemma mix_nan:
  assumes "unit_rvec u" "unit_rvec v" "\<bar>t\<bar> \<le> small" "fst (mix_lin_real u v t) < 0"
  shows "vx (mix (of_rvec u) (of_rvec v) (Fin t)) = NaN"
  unfolding mix_shadow [OF assms(1,2,3)] vx_mix_real using assms(4)
  by (simp add: inverse_gamma_unclamped_def)

lemma small_ge_one: "\<bar>0::real\<bar> \<le> small" "\<bar>1::real\<bar> \<le> small" "\<bar>1 / 2 :: real\<bar> \<le> small"
    "\<bar>1 / 4 :: real\<bar> \<le> small"
  using small_ge by simp_all

lemma corner_units: "unit_rvec (0, 0, 1)" "unit_rvec (0, 1, 0)" "unit_rvec (1, 1, 1)"
    "unit_rvec (1, 0, 0)" "unit_rvec (0, 0, 0)"
  by (simp_all add: unit_rvec_def)

lemma corner_vecs: "of_rvec (0, 0, 1) = Vec3 (Fin 0) (Fin 0) (Fin 1)"
    "of_rvec (0, 1, 0) = Vec3 (Fin 0) (Fin 1) (Fin 0)"
    "of_rvec (1, 1, 1) = Vec3 (Fin 1) (Fin 1) (Fin 1)"
    "of_rvec (1, 0, 0) = Vec3 (Fin 1) (Fin 0) (Fin 0)"
    "of_rvec (0, 0, 0) = Vec3 (Fin 0) (Fin 0) (Fin 0)"
  by (simp_all add: of_rvec_def)

text \<open>
  C10. Pure blue and pure green have all components in the unit interval, and
  \<open>t = 1/2\<close> lies in it; the interpolated cone vector gives a negative linear red
  component, and \<open>mix\<close> returns NaN for it.
\<close>

theorem mix_nan_in_range:
  "unit_rvec (0, 0, 1) \<and> unit_rvec (0, 1, 0) \<and> (0::real) \<le> 1 / 2 \<and> (1 / 2 :: real) \<le> 1
   \<and> fst (mix_lin_real (0, 0, 1) (0, 1, 0) (1 / 2)) < 0
   \<and> vx (mix (Vec3 (Fin 0) (Fin 0) (Fin 1)) (Vec3 (Fin 0) (Fin 1) (Fin 0)) (Fin (1 / 2))) = NaN"
  using mix_nan [OF corner_units(1,2) small_ge_one(3) blue_green_lin_negative]
    blue_green_lin_negative corner_units(1,2)
  unfolding corner_vecs by simp

text \<open>
  C2 fails on the code: mixing pure blue with itself gives a NaN red component for
  each factor, and so do the end points \<open>mix(blue, white, 0)\<close> and
  \<open>mix(white, blue, 1)\<close>, which should return blue.
\<close>

theorem mix_identity_nan:
  "vx (mix (Vec3 (Fin 0) (Fin 0) (Fin 1)) (Vec3 (Fin 0) (Fin 0) (Fin 1)) (Fin 0)) = NaN
   \<and> vx (mix (Vec3 (Fin 0) (Fin 0) (Fin 1)) (Vec3 (Fin 0) (Fin 0) (Fin 1)) (Fin (1 / 4))) = NaN
   \<and> vx (mix (Vec3 (Fin 0) (Fin 0) (Fin 1)) (Vec3 (Fin 0) (Fin 0) (Fin 1)) (Fin (1 / 2))) = NaN
   \<and> vx (mix (Vec3 (Fin 0) (Fin 0) (Fin 1)) (Vec3 (Fin 0) (Fin 0) (Fin 1)) (Fin 1)) = NaN
   \<and> vx (mix (Vec3 (Fin 0) (Fin 0) (Fin 1)) (Vec3 (Fin 1) (Fin 1) (Fin 1)) (Fin 0)) = NaN
   \<and> vx (mix (Vec3 (Fin 1) (Fin 1) (Fin 1)) (Vec3 (Fin 0) (Fin 0) (Fin 1)) (Fin 1)) = NaN"
proof -
  note b = corner_units(1) and w = corner_units(3)
  have 1: "fst (mix_lin_real (0, 0, 1) (1, 1, 1) 0) < 0"
    unfolding mix_lin_real_def interpolate_zero by (rule blue_cube_negative)
  have 2: "fst (mix_lin_real (1, 1, 1) (0, 0, 1) 1) < 0"
    unfolding mix_lin_real_def interpolate_one by (rule blue_cube_negative)
  show ?thesis
    using mix_nan [OF b b small_ge_one(1) blue_lin_negative]
      mix_nan [OF b b small_ge_one(4) blue_lin_negative]
      mix_nan [OF b b small_ge_one(3) blue_lin_negative]
      mix_nan [OF b b small_ge_one(2) blue_lin_negative]
      mix_nan [OF b w small_ge_one(1) 1] mix_nan [OF w b small_ge_one(2) 2]
    unfolding corner_vecs by simp
qed

section \<open>The hue read back after \<open>setHue\<close>\<close>

lemma ln_x08_hi: "ln (1 / 0.08 :: real) \<le> 2.969936"
  using ln_upper [of "1 / 0.08" "[3.535534, 1.880302, 1.371242]"] by simp

lemma ln_x08_lo: "1.867366 \<le> ln (1 / 0.08 :: real)"
  using ln_lower [of "1 / 0.08" "[3.535533, 1.880301, 1.37124]"] by simp

lemma cone_x08_lo: "0.430886 \<le> (0.08::real) powr 0.3333333"
  using cone_lower [of "0.08" "0.430886" "1.867366"] ln_x08_lo by simp

lemma cone_x08_hi: "(0.08::real) powr 0.3333333 \<le> 0.430888"
  using cone_upper [of "0.08" "0.430887" "2.969936"] ln_x08_hi by simp

lemma ln_x125_hi: "ln (1 / 0.125 :: real) \<le> 2.374728"
  using ln_upper [of "1 / 0.125" "[2.828428, 1.681794, 1.296841]"] by simp

lemma ln_x125_lo: "1.669804 \<le> ln (1 / 0.125 :: real)"
  using ln_lower [of "1 / 0.125" "[2.828427, 1.681792, 1.296839]"] by simp

lemma cone_x125_lo: "0.5 \<le> (0.125::real) powr 0.3333333"
  using cone_lower [of "0.125" "0.5" "1.669804"] ln_x125_lo by simp

lemma cone_x125_hi: "(0.125::real) powr 0.3333333 \<le> 0.500001"
  using cone_upper [of "0.125" "0.5" "2.374728"] ln_x125_hi by simp

lemma ln_x62_hi: "ln (1 / 0.62 :: real) \<le> 0.492616"
  using ln_upper [of "1 / 0.62" "[1.270002, 1.126944, 1.061577]"] by simp

lemma ln_x62_lo: "0.462268 \<le> ln (1 / 0.62 :: real)"
  using ln_lower [of "1 / 0.62" "[1.270001, 1.126943, 1.061575]"] by simp

lemma cone_x62_lo: "0.852701 \<le> (0.62::real) powr 0.3333333"
  using cone_lower [of "0.62" "0.852701" "0.462268"] ln_x62_lo by simp

lemma cone_x62_hi: "(0.62::real) powr 0.3333333 \<le> 0.852703"
  using cone_upper [of "0.62" "0.852702" "0.492616"] ln_x62_hi by simp

lemma cone_nl_mono:
  fixes x y :: real
  assumes "x \<le> y"
  shows "max x 0 powr 0.3333333 \<le> max y 0 powr 0.3333333"
  using assms by (intro powr_mono2) simp_all

lemma atan2_negative: "b < 0 \<Longrightarrow> atan2 b a < 0"
proof -
  assume b: "b < 0"
  consider "0 < a" | "a < 0" | "a = 0" by linarith
  then show ?thesis
  proof cases
    case 1
    then have "b / a < 0" using b by (simp add: divide_neg_pos)
    then have "arctan (b / a) < 0" by (simp add: arctan_less_zero_iff)
    then show ?thesis using 1 by (simp add: atan2_def)
  next
    case 2
    have "arctan (b / a) < pi / 2" by (rule arctan_ubound)
    then have "arctan (b / a) - pi < 0" using pi_gt_zero by linarith
    then show ?thesis using 2 b by (simp add: atan2_def)
  next
    case 3
    then show ?thesis using b pi_gt_zero by (simp add: atan2_def)
  qed
qed

text \<open>A colour that is almost pure blue has a negative Oklab \<open>b\<close>.\<close>

lemma blueish_b_negative:
  assumes "0 \<le> u" "u \<le> 0.03" "0 \<le> v" "v \<le> 0.01" "0.99 \<le> s" "s \<le> 1"
  shows "snd (snd (mat_real rLMStoOKLAB (cone_nl (mat_real rCONEtoLMS (u, v, s))))) < 0"
proof -
  define l where "l = 0.4122214708 * u + 0.5363325363 * v + 0.0514459929 * s"
  define m where "m = 0.2119034982 * u + 0.6806995451 * v + 0.1073969566 * s"
  define t where "t = 0.0883024619 * u + 0.2817188376 * v + 0.6299787005 * s"
  have lb: "l \<le> 0.08" unfolding l_def using assms by simp
  have mb: "m \<le> 0.125" unfolding m_def using assms by simp
  have tb: "0.62 \<le> t" unfolding t_def using assms by simp
  have l': "max l 0 powr 0.3333333 \<le> 0.430888"
    using cone_nl_mono [OF lb] cone_x08_hi by simp
  have m': "max m 0 powr 0.3333333 \<le> 0.500001"
    using cone_nl_mono [OF mb] cone_x125_hi by simp
  have t': "0.852701 \<le> max t 0 powr 0.3333333"
    using cone_nl_mono [OF tb] cone_x62_lo by simp
  have "snd (snd (mat_real rLMStoOKLAB (cone_nl (mat_real rCONEtoLMS (u, v, s))))) =
      0.0259040371 * max l 0 powr 0.3333333 + 0.7827717662 * max m 0 powr 0.3333333
      + - 0.8086757660 * max t 0 powr 0.3333333"
    unfolding rmat_CONEtoLMS cone_nl_def prod.case rmat_LMStoOKLAB snd_conv
      l_def [symmetric] m_def [symmetric] t_def [symmetric] ..
  then show ?thesis using l' m' t' by simp
qed

lemma sq_bounds_neg:
  fixes a :: real
  assumes "lo \<le> a" "a \<le> hi" "hi \<le> 0"
  shows "hi * hi \<le> a * a" "a * a \<le> lo * lo"
proof -
  have "(- hi) * (- hi) \<le> (- a) * (- a)" using assms by (intro mult_mono) simp_all
  then show "hi * hi \<le> a * a" by simp
  have "(- a) * (- a) \<le> (- lo) * (- lo)" using assms by (intro mult_mono) simp_all
  then show "a * a \<le> lo * lo" by simp
qed

lemma blue_lab_bounds:
  obtains L a b where "rgb2oklab_real (0, 0, 1) = (L, a, b)"
    "0.452013 \<le> L" "L \<le> 0.452014" "- 0.032457 \<le> a" "a \<le> - 0.032456"
    "- 0.311529 \<le> b" "b \<le> - 0.311528"
proof -
  define p0 where "p0 = (0.0514459929::real) powr 0.3333333"
  define p1 where "p1 = (0.1073969566::real) powr 0.3333333"
  define p2 where "p2 = (0.6299787005::real) powr 0.3333333"
  define L where "L = 0.2104542553 * p0 + 0.7936177850 * p1 + - 0.0040720468 * p2"
  define a where "a = 1.9779984951 * p0 + - 2.4285922050 * p1 + 0.4505937099 * p2"
  define b where "b = 0.0259040371 * p0 + 0.7827717662 * p1 + - 0.8086757660 * p2"
  have p: "0.371920879085 \<le> p0" "p0 \<le> 0.371920880882"
    "0.475332332699 \<le> p1" "p1 \<le> 0.475332333986"
    "0.857252240295 \<le> p2" "p2 \<le> 0.857252240402"
    unfolding p0_def p1_def p2_def
    using cone_b0_lo cone_b0_hi cone_b1_lo cone_b1_hi cone_b2_lo cone_b2_hi by simp_all
  have e: "rgb2oklab_real (0, 0, 1) = (L, a, b)"
    unfolding rgb2oklab_real_def cone_of_blue rmat_LMStoOKLAB
      p0_def [symmetric] p1_def [symmetric] p2_def [symmetric]
      L_def [symmetric] a_def [symmetric] b_def [symmetric] ..
  have "0.452013 \<le> L" "L \<le> 0.452014" "- 0.032457 \<le> a" "a \<le> - 0.032456"
    "- 0.311529 \<le> b" "b \<le> - 0.311528"
    unfolding L_def a_def b_def using p by simp_all
  with e show ?thesis by (rule that)
qed

lemma blue_turned_lin:
  assumes "0.452013 \<le> L" "L \<le> 0.452014" "0.313214 \<le> C" "C \<le> 0.313216"
  obtains x y z where "oklab2lin_real (L, 0, - C) = (x, y, z)"
    "0 \<le> x" "x \<le> 0.03" "y \<le> 0" "0.99 \<le> z"
proof -
  define q0 where "q0 = L + 0.3963377774 * 0 + 0.2158037573 * - C"
  define q1 where "q1 = L + - 0.1055613458 * 0 + - 0.0638541728 * - C"
  define q2 where "q2 = L + - 0.0894841775 * 0 + - 1.2914855480 * - C"
  define x where "x = 4.0767416621 * (q0 * q0 * q0) + - 3.3077115913 * (q1 * q1 * q1)
      + 0.2309699292 * (q2 * q2 * q2)"
  define y where "y = - 1.2684380046 * (q0 * q0 * q0) + 2.6097574011 * (q1 * q1 * q1)
      + - 0.3413193965 * (q2 * q2 * q2)"
  define z where "z = - 0.0041960863 * (q0 * q0 * q0) + - 0.7034186147 * (q1 * q1 * q1)
      + 1.7076147010 * (q2 * q2 * q2)"
  have e: "oklab2lin_real (L, 0, - C) = (x, y, z)"
    unfolding oklab2lin_real_def rmat_OKLABtoLMS cube_def prod.case rmat_LMStoCONE
      q0_def [symmetric] q1_def [symmetric] q2_def [symmetric]
      x_def [symmetric] y_def [symmetric] z_def [symmetric] ..
  have q: "0.384419 \<le> q0" "q0 \<le> 0.384422" "0.472013 \<le> q1" "q1 \<le> 0.472015"
    "0.856524 \<le> q2" "q2 \<le> 0.856528"
    unfolding q0_def q1_def q2_def using assms by simp_all
  have c0: "0.384419 * 0.384419 * 0.384419 \<le> q0 * q0 * q0"
    "q0 * q0 * q0 \<le> 0.384422 * 0.384422 * 0.384422"
    using q by (intro cube_mono; simp)+
  have c1: "0.472013 * 0.472013 * 0.472013 \<le> q1 * q1 * q1"
    "q1 * q1 * q1 \<le> 0.472015 * 0.472015 * 0.472015"
    using q by (intro cube_mono; simp)+
  have c2: "0.856524 * 0.856524 * 0.856524 \<le> q2 * q2 * q2"
    "q2 * q2 * q2 \<le> 0.856528 * 0.856528 * 0.856528"
    using q by (intro cube_mono; simp)+
  have "0 \<le> x" "x \<le> 0.03" "y \<le> 0" "0.99 \<le> z"
    unfolding x_def y_def z_def using c0 c1 c2 by simp_all
  with e show ?thesis by (rule that)
qed


lemma oklab2oklch_Fin:
  assumes "a * a + b * b < dbl_limit"
  shows "oklab2oklch (Vec3 L (Fin a) (Fin b)) =
           Vec3 L (Fin (sqrt (a * a + b * b))) (Fin (atan2 b a))"
proof -
  have n: "0 \<le> a * a" "0 \<le> b * b" by simp_all
  have aa: "\<bar>a * a\<bar> < dbl_limit" and bb: "\<bar>b * b\<bar> < dbl_limit"
    and ab: "\<bar>a * a + b * b\<bar> < dbl_limit"
    using n assms by linarith+
  have "jadd (jmul (Fin a) (Fin a)) (jmul (Fin b) (Fin b)) = Fin (a * a + b * b)"
    by (simp only: jmul_Fin [OF aa] jmul_Fin [OF bb] jadd_Fin [OF ab])
  moreover have "\<not> a * a + b * b < 0" by (simp add: not_less)
  ultimately show ?thesis
    unfolding oklab2oklch_def Let_def by simp
qed

lemma wrap_three_half_pi: "wrap_rule (Fin (3 * pi / 2)) = Fin (3 * pi / 2)"
proof -
  have "3 * pi / 2 / (2 * pi) = 3 / 4" by simp
  moreover have "\<lfloor>3 / 4 :: real\<rfloor> = 0" by linarith
  ultimately have "trunc (3 * pi / 2 / (2 * pi)) = 0" by (simp add: trunc_def)
  then have "jrem (Fin (3 * pi / 2)) (Fin (2 * pi)) = Fin (3 * pi / 2)" by simp
  then show ?thesis by (simp add: wrap_rule_def not_less del: jrem.simps)
qed

lemma turned_down:
  assumes "\<bar>C\<bar> \<le> 1000"
  shows "oklch2oklab (Vec3 (Fin L) (Fin C) (Fin (3 * pi / 2))) = of_rvec (L, 0, - C)"
proof -
  have c: "cos (3 * pi / 2) = 0" using cos_3over2_pi by (simp add: mult.commute)
  have s: "sin (3 * pi / 2) = - 1" using sin_3over2_pi by (simp add: mult.commute)
  have "fl 0 = Fin 0" by (intro fl_num) simp
  moreover have "fl (- C) = Fin (- C)" using assms by (intro fl_num) simp
  ultimately show ?thesis
    unfolding oklch2oklab_def Let_def of_rvec_def by (simp add: c s)
qed

lemma decode_encode:
  "gamma_decode (gamma_encode (x, y, z)) = (clamp01 x, clamp01 y, clamp01 z)"
proof -
  have "(c powr (1 / 2.2)) powr 2.2 = c" if "0 \<le> c" for c :: real
    using that by (simp add: powr_powr)
  moreover have "0 \<le> clamp01 x" "0 \<le> clamp01 y" "0 \<le> clamp01 z" by (simp_all add: clamp01_def)
  ultimately show ?thesis by (simp only: gamma_encode_def gamma_decode_def prod.case)
qed

lemma unit_gamma_encode: "unit_rvec (gamma_encode v)"
  by (cases v) (simp add: unit_rvec_def gamma_encode_def clamp01_def powr_le1)

lemma vz_oklab2oklch: "vz (oklab2oklch (of_rvec (L, a, b))) = Fin (atan2 b a)"
  by (simp add: oklab2oklch_def of_rvec_def)

text \<open>
  C4 as stated fails in its last part: for pure blue and the hue \<open>3\<pi>/2\<close>, the colour
  that \<open>setHue\<close> returns is still bluish, its Oklab \<open>b\<close> is negative, and
  \<open>rgb2oklch\<close> reads back a negative hue, outside \<open>[0, 2\<pi>)\<close>.
\<close>

theorem setHue_readback_counterexample:
  "\<not> in_range 0 (2 * pi)
       (vz (rgb2oklch (setHue (Vec3 (Fin 0) (Fin 0) (Fin 1)) (Fin (3 * pi / 2)))))"
proof -
  obtain L a b where lab: "rgb2oklab_real (0, 0, 1) = (L, a, b)"
    and Lb: "0.452013 \<le> L" "L \<le> 0.452014"
    and ab: "- 0.032457 \<le> a" "a \<le> - 0.032456"
    and bb: "- 0.311529 \<le> b" "b \<le> - 0.311528"
    by (rule blue_lab_bounds)
  define C where "C = sqrt (a * a + b * b)"
  have sa: "0.032456 * 0.032456 \<le> a * a" "a * a \<le> 0.032457 * 0.032457"
    using sq_bounds_neg [OF ab] by simp_all
  have sb: "0.311528 * 0.311528 \<le> b * b" "b * b \<le> 0.311529 * 0.311529"
    using sq_bounds_neg [OF bb] by simp_all
  have "(0.313214::real)\<^sup>2 \<le> a * a + b * b" using sa sb by (simp add: power2_eq_square)
  then have C1: "0.313214 \<le> C" unfolding C_def by (rule real_le_rsqrt)
  have "a * a + b * b \<le> (0.313216::real)\<^sup>2" using sa sb by (simp add: power2_eq_square)
  then have C2: "C \<le> 0.313216" unfolding C_def by (intro real_le_lsqrt) simp_all
  have "a * a + b * b \<le> 1" using sa sb by simp
  then have fin: "a * a + b * b < dbl_limit" using limit_gt_num by linarith
  have lch: "rgb2oklch (of_rvec (0, 0, 1)) = Vec3 (Fin L) (Fin C) (Fin (atan2 b a))"
    unfolding rgb2oklch_def rgb2oklab_shadow [OF corner_units(1)] lab C_def
    unfolding of_rvec_def prod.case by (rule oklab2oklch_Fin [OF fin])
  have Cn: "\<bar>C\<bar> \<le> 1000" using C1 C2 by simp
  have bd: "bounded_rvec small (L, 0, - C)"
    unfolding bounded_rvec_def using Lb C1 C2 small_ge by simp
  obtain x y z where lin: "oklab2lin_real (L, 0, - C) = (x, y, z)"
    and xyz: "0 \<le> x" "x \<le> 0.03" "y \<le> 0" "0.99 \<le> z"
    using blue_turned_lin [OF Lb C1 C2] by blast
  have out: "setHue (of_rvec (0, 0, 1)) (Fin (3 * pi / 2)) = of_rvec (gamma_encode (x, y, z))"
    unfolding setHue_wrap lch vec3.select_convs wrap_three_half_pi oklch2rgb_def
      turned_down [OF Cn] oklab2rgb_shadow [OF bd] oklab2rgb_real_def lin ..
  have u: "0 \<le> clamp01 x" "clamp01 x \<le> 0.03" "0 \<le> clamp01 y" "clamp01 y \<le> 0.01"
    "0.99 \<le> clamp01 z" "clamp01 z \<le> 1"
    using xyz by (simp_all add: clamp01_def)
  obtain L' a' b' where lab': "rgb2oklab_real (gamma_encode (x, y, z)) = (L', a', b')"
    by (cases "rgb2oklab_real (gamma_encode (x, y, z))") auto
  have "b' = snd (snd (rgb2oklab_real (gamma_encode (x, y, z))))" by (simp add: lab')
  also have "\<dots> < 0"
    unfolding rgb2oklab_real_def rgb2cone_real_def decode_encode by (rule blueish_b_negative [OF u])
  finally have neg: "atan2 b' a' < 0" by (rule atan2_negative)
  have "vz (rgb2oklch (setHue (of_rvec (0, 0, 1)) (Fin (3 * pi / 2)))) = Fin (atan2 b' a')"
    unfolding out rgb2oklch_def rgb2oklab_shadow [OF unit_gamma_encode] lab'
    by (rule vz_oklab2oklch)
  then show ?thesis using neg unfolding corner_vecs by simp
qed

subsection \<open>The round trip in general\<close>

text \<open>
  The exponent \<open>0.9999999\<close> that three cone responses multiply to moves a value of
  \<open>[0, 1]\<close> up, by at most \<open>1 / 9999999\<close>.
\<close>

lemma powr7_unit:
  fixes x :: real
  assumes "0 \<le> x" "x \<le> 1"
  shows "x \<le> x powr 0.9999999" "x powr 0.9999999 \<le> x + 1 / 9999999"
proof -
  show "x \<le> x powr 0.9999999"
  proof -
    have "x powr 1 \<le> x powr 0.9999999" using assms by (intro powr_mono') simp_all
    then show ?thesis using assms by simp
  qed
  show "x powr 0.9999999 \<le> x + 1 / 9999999"
  proof (cases "x = 0")
    case True
    then show ?thesis by simp
  next
    case False
    then have x: "0 < x" using assms by simp
    define P where "P = x powr 0.9999999"
    define u where "u = ln (1 / x) / 10 ^ 7"
    have P: "P = x * exp u" unfolding P_def u_def by (rule powr7_eq [OF x])
    have P0: "0 < P" unfolding P_def using x by simp
    have "1 + - u \<le> exp (- u)" by (rule exp_ge_add_one_self)
    then have "(1 - u) * exp u \<le> exp (- u) * exp u" by (intro mult_right_mono) simp_all
    then have "(1 - u) * exp u \<le> 1" by (simp add: exp_minus)
    then have "exp u \<le> 1 + u * exp u" by (simp add: algebra_simps)
    then have "x * exp u \<le> x * (1 + u * exp u)" using x by (intro mult_left_mono) simp_all
    then have 1: "P \<le> x + u * P" unfolding P by (simp add: algebra_simps)
    have "ln (1 / x) \<le> (1 / x) powr 0.9999999 / 0.9999999"
      using x assms by (intro ln_powr_bound) simp_all
    also have "(1 / x) powr 0.9999999 = 1 / P" unfolding P_def by (simp add: powr_divide)
    finally have "ln (1 / x) \<le> 1 / P / 0.9999999" .
    then have "ln (1 / x) * P \<le> 1 / P / 0.9999999 * P" using P0 by (intro mult_right_mono) simp_all
    then have "ln (1 / x) * P \<le> 1 / 0.9999999" using P0 by simp
    then have "u * P \<le> 1 / 9999999" unfolding u_def by simp
    then show ?thesis using 1 unfolding P_def by linarith
  qed
qed

lemma cube_diff_bounds:
  fixes p q :: real
  assumes p: "0 \<le> p" "p \<le> 1" and d: "- h1 \<le> q - p" "q - p \<le> h2"
    and h: "0 \<le> h1" "h1 \<le> 1 / 10 ^ 7" "0 \<le> h2" "h2 \<le> 1 / 10 ^ 7"
  shows "- (3.000001 * h1) \<le> q * q * q - p * p * p" "q * q * q - p * p * p \<le> 3.000001 * h2"
proof -
  define S where "S = q * q + q * p + p * p"
  have e: "q * q * q - p * p * p = (q - p) * S" by (simp add: S_def algebra_simps)
  have "S = (q + p / 2) * (q + p / 2) + 3 / 4 * (p * p)" by (simp add: S_def algebra_simps)
  then have S0: "0 \<le> S" by simp
  have q: "0 - 1 / 10 ^ 7 \<le> q" "q \<le> 1 + 1 / 10 ^ 7" using p d h by linarith+
  have qq: "q * q \<le> (1 + 1 / 10 ^ 7) * (1 + 1 / 10 ^ 7)"
  proof -
    have "\<bar>q\<bar> \<le> 1 + 1 / 10 ^ 7" using q by (simp add: abs_le_iff)
    then have "\<bar>q\<bar> * \<bar>q\<bar> \<le> (1 + 1 / 10 ^ 7) * (1 + 1 / 10 ^ 7)" by (intro mult_mono) simp_all
    then show ?thesis by simp
  qed
  have qp: "q * p \<le> (1 + 1 / 10 ^ 7) * 1"
  proof (cases "0 \<le> q")
    case True
    then show ?thesis using q p by (intro mult_mono) simp_all
  next
    case False
    then have "q * p \<le> 0" using p by (simp add: mult_nonpos_nonneg)
    then show ?thesis by simp
  qed
  have pp: "p * p \<le> 1 * 1" using p by (intro mult_mono) simp_all
  have S1: "S \<le> 3.000001" unfolding S_def using qq qp pp by simp
  show "- (3.000001 * h1) \<le> q * q * q - p * p * p"
  proof (cases "0 \<le> q - p")
    case True
    then have "0 \<le> (q - p) * S" using S0 by simp
    then show ?thesis unfolding e using h by (simp add: order_trans [of _ 0])
  next
    case False
    then have "(p - q) * S \<le> h1 * 3.000001" using d S0 S1 h by (intro mult_mono) simp_all
    then show ?thesis unfolding e by (simp add: algebra_simps)
  qed
  show "q * q * q - p * p * p \<le> 3.000001 * h2"
  proof (cases "0 \<le> q - p")
    case True
    then have "(q - p) * S \<le> h2 * 3.000001" using d S0 S1 h by (intro mult_mono) simp_all
    then show ?thesis unfolding e by (simp add: algebra_simps)
  next
    case False
    then have "(q - p) * S \<le> 0" using S0 by (simp add: mult_nonpos_nonneg)
    then show ?thesis unfolding e using h by simp
  qed
qed


lemma lin_there_and_back:
  "mat_real rLMStoCONE (mat_real rCONEtoLMS (a, b, c)) =
     (1.0000000001625686285 * a + - 0.00000000007115823548 * b + 0.00000000023936076611 * c,
      - 0.00000000013357088101 * a + 0.99999999997138566423 * b + - 0.00000000009879052333 * c,
      0.00000000005481471832 * a + - 0.00000000001458329806 * b + 1.00000000003011044121 * c)"
  by (simp add: rmat_LMStoCONE rmat_CONEtoLMS algebra_simps)

lemma roundtrip_lin_error:
  assumes "unit_rvec (a, b, c)"
  shows "bounded_rvec (11 / 10 ^ 7)
           (case oklab2lin_real (mat_real rLMStoOKLAB (cone_nl (mat_real rCONEtoLMS (a, b, c)))) of
              (w0, w1, w2) \<Rightarrow> (w0 - a, w1 - b, w2 - c))"
proof -
  have u: "0 \<le> a" "a \<le> 1" "0 \<le> b" "b \<le> 1" "0 \<le> c" "c \<le> 1"
    using assms by (simp_all add: unit_rvec_def)
  define x0 where "x0 = 0.4122214708 * a + 0.5363325363 * b + 0.0514459929 * c"
  define x1 where "x1 = 0.2119034982 * a + 0.6806995451 * b + 0.1073969566 * c"
  define x2 where "x2 = 0.0883024619 * a + 0.2817188376 * b + 0.6299787005 * c"
  have mx: "mat_real rCONEtoLMS (a, b, c) = (x0, x1, x2)"
    unfolding rmat_CONEtoLMS x0_def x1_def x2_def ..
  have x: "0 \<le> x0" "x0 \<le> 1" "0 \<le> x1" "x1 \<le> 1" "0 \<le> x2" "x2 \<le> 1"
    using unit_lms [OF assms] unfolding mx by (simp_all add: unit_rvec_def)
  define p0 where "p0 = x0 powr 0.3333333"
  define p1 where "p1 = x1 powr 0.3333333"
  define p2 where "p2 = x2 powr 0.3333333"
  have cn: "cone_nl (x0, x1, x2) = (p0, p1, p2)"
    unfolding cone_nl_def prod.case p0_def p1_def p2_def using x by (simp only: max_absorb1)
  have p: "0 \<le> p0" "p0 \<le> 1" "0 \<le> p1" "p1 \<le> 1" "0 \<le> p2" "p2 \<le> 1"
    unfolding p0_def p1_def p2_def using x by (simp_all add: powr_le1)
  have c0: "x0 \<le> p0 * p0 * p0" "p0 * p0 * p0 \<le> x0 + 1 / 9999999"
    unfolding p0_def cone_cubed using powr7_unit [OF x(1,2)] by simp_all
  have c1: "x1 \<le> p1 * p1 * p1" "p1 * p1 * p1 \<le> x1 + 1 / 9999999"
    unfolding p1_def cone_cubed using powr7_unit [OF x(3,4)] by simp_all
  have c2: "x2 \<le> p2 * p2 * p2" "p2 * p2 * p2 \<le> x2 + 1 / 9999999"
    unfolding p2_def cone_cubed using powr7_unit [OF x(5,6)] by simp_all
  define q0 where "q0 = 0.99999997108389738657 * p0 + 0.00000003651365197626 * p1
      + - 0.00000000604806921554 * p2"
  define q1 where "q1 = - 0.00000000869433171646 * p0 + 1.00000000293729348964 * p1
      + - 0.00000000312472241862 * p2"
  define q2 where "q2 = - 0.00000000267976711105 * p0 + - 0.0000000624823984901 * p1
      + 1.00000001048975466075 * p2"
  define y0 where "y0 = q0 * q0 * q0"
  define y1 where "y1 = q1 * q1 * q1"
  define y2 where "y2 = q2 * q2 * q2"
  have e: "oklab2lin_real (mat_real rLMStoOKLAB (cone_nl (mat_real rCONEtoLMS (a, b, c)))) =
      (4.0767416621 * y0 + - 3.3077115913 * y1 + 0.2309699292 * y2,
       - 1.2684380046 * y0 + 2.6097574011 * y1 + - 0.3413193965 * y2,
       - 0.0041960863 * y0 + - 0.7034186147 * y1 + 1.7076147010 * y2)"
    unfolding mx cn oklab2lin_real_def lms_there_and_back cube_def prod.case rmat_LMStoCONE
      q0_def [symmetric] q1_def [symmetric] q2_def [symmetric]
      y0_def [symmetric] y1_def [symmetric] y2_def [symmetric] ..
  have d0: "- (35 / 10 ^ 9) \<le> q0 - p0" "q0 - p0 \<le> 37 / 10 ^ 9"
    unfolding q0_def using p by simp_all
  have d1: "- (12 / 10 ^ 9) \<le> q1 - p1" "q1 - p1 \<le> 3 / 10 ^ 9"
    unfolding q1_def using p by simp_all
  have d2: "- (66 / 10 ^ 9) \<le> q2 - p2" "q2 - p2 \<le> 11 / 10 ^ 9"
    unfolding q2_def using p by simp_all
  have k0: "- (3.000001 * (35 / 10 ^ 9)) \<le> y0 - p0 * p0 * p0"
    "y0 - p0 * p0 * p0 \<le> 3.000001 * (37 / 10 ^ 9)"
    unfolding y0_def by (rule cube_diff_bounds [OF p(1,2) d0]; simp)+
  have k1: "- (3.000001 * (12 / 10 ^ 9)) \<le> y1 - p1 * p1 * p1"
    "y1 - p1 * p1 * p1 \<le> 3.000001 * (3 / 10 ^ 9)"
    unfolding y1_def by (rule cube_diff_bounds [OF p(3,4) d1]; simp)+
  have k2: "- (3.000001 * (66 / 10 ^ 9)) \<le> y2 - p2 * p2 * p2"
    "y2 - p2 * p2 * p2 \<le> 3.000001 * (11 / 10 ^ 9)"
    unfolding y2_def by (rule cube_diff_bounds [OF p(5,6) d2]; simp)+
  define e0 where "e0 = y0 - x0"
  define e1 where "e1 = y1 - x1"
  define e2 where "e2 = y2 - x2"
  have b0: "- (106 / 10 ^ 9) \<le> e0" "e0 \<le> 212 / 10 ^ 9"
    unfolding e0_def using k0 c0 by simp_all
  have b1: "- (37 / 10 ^ 9) \<le> e1" "e1 \<le> 110 / 10 ^ 9"
    unfolding e1_def using k1 c1 by simp_all
  have b2: "- (199 / 10 ^ 9) \<le> e2" "e2 \<le> 134 / 10 ^ 9"
    unfolding e2_def using k2 c2 by simp_all
  have y: "y0 = x0 + e0" "y1 = x1 + e1" "y2 = x2 + e2"
    by (simp_all add: e0_def e1_def e2_def)
  have w0: "4.0767416621 * y0 + - 3.3077115913 * y1 + 0.2309699292 * y2 - a =
      (0.0000000001625686285 * a + - 0.00000000007115823548 * b + 0.00000000023936076611 * c)
      + (4.0767416621 * e0 + - 3.3077115913 * e1 + 0.2309699292 * e2)"
    unfolding y x0_def x1_def x2_def by (simp add: algebra_simps)
  have w1: "- 1.2684380046 * y0 + 2.6097574011 * y1 + - 0.3413193965 * y2 - b =
      (- 0.00000000013357088101 * a + - 0.00000000002861433577 * b + - 0.00000000009879052333 * c)
      + (- 1.2684380046 * e0 + 2.6097574011 * e1 + - 0.3413193965 * e2)"
    unfolding y x0_def x1_def x2_def by (simp add: algebra_simps)
  have w2: "- 0.0041960863 * y0 + - 0.7034186147 * y1 + 1.7076147010 * y2 - c =
      (0.00000000005481471832 * a + - 0.00000000001458329806 * b + 0.00000000003011044121 * c)
      + (- 0.0041960863 * e0 + - 0.7034186147 * e1 + 1.7076147010 * e2)"
    unfolding y x0_def x1_def x2_def by (simp add: algebra_simps)
  have r0: "\<bar>4.0767416621 * y0 + - 3.3077115913 * y1 + 0.2309699292 * y2 - a\<bar> \<le> 11 / 10 ^ 7"
    unfolding w0 abs_le_iff using u b0 b1 b2 by simp
  have r1: "\<bar>- 1.2684380046 * y0 + 2.6097574011 * y1 + - 0.3413193965 * y2 - b\<bar> \<le> 11 / 10 ^ 7"
    unfolding w1 abs_le_iff using u b0 b1 b2 by simp
  have r2: "\<bar>- 0.0041960863 * y0 + - 0.7034186147 * y1 + 1.7076147010 * y2 - c\<bar> \<le> 11 / 10 ^ 7"
    unfolding w2 abs_le_iff using u b0 b1 b2 by simp
  show ?thesis unfolding e prod.case bounded_rvec_def using r0 r1 r2 by simp
qed


lemma powr_add_le:
  fixes s t \<alpha> :: real
  assumes "0 \<le> s" "0 \<le> t" "0 < \<alpha>" "\<alpha> \<le> 1"
  shows "(s + t) powr \<alpha> \<le> s powr \<alpha> + t powr \<alpha>"
proof (cases "s + t = 0")
  case True
  then have "s = 0" "t = 0" using assms by linarith+
  then show ?thesis by simp
next
  case False
  then have n: "0 < s + t" using assms by linarith
  have le: "z \<le> z powr \<alpha>" if "0 \<le> z" "z \<le> 1" for z :: real
  proof (cases "z = 0")
    case True
    then show ?thesis by simp
  next
    case False
    have "z powr 1 \<le> z powr \<alpha>" using that assms by (intro powr_mono') simp_all
    then show ?thesis using that False by simp
  qed
  define z where "z = s / (s + t)"
  define z' where "z' = t / (s + t)"
  have z: "0 \<le> z" "z \<le> 1" "0 \<le> z'" "z' \<le> 1" "z + z' = 1"
    using assms n by (simp_all add: z_def z'_def add_divide_distrib [symmetric])
  have s: "s = z * (s + t)" and t: "t = z' * (s + t)" using n by (simp_all add: z_def z'_def)
  have "s powr \<alpha> = z powr \<alpha> * (s + t) powr \<alpha>"
    using z n by (subst s) (simp only: powr_mult)
  moreover have "t powr \<alpha> = z' powr \<alpha> * (s + t) powr \<alpha>"
    using z n by (subst t) (simp only: powr_mult)
  ultimately have "s powr \<alpha> + t powr \<alpha> = (z powr \<alpha> + z' powr \<alpha>) * (s + t) powr \<alpha>"
    by (simp add: algebra_simps)
  moreover have "1 * (s + t) powr \<alpha> \<le> (z powr \<alpha> + z' powr \<alpha>) * (s + t) powr \<alpha>"
    using le [OF z(1,2)] le [OF z(3,4)] z(5) by (intro mult_right_mono) simp_all
  ultimately show ?thesis by simp
qed

lemma encode_close:
  fixes u w D :: real
  assumes u: "0 \<le> u" "u \<le> 1" and d: "\<bar>w - u\<bar> \<le> D"
  shows "\<bar>clamp01 w powr (1 / 2.2) - u powr (1 / 2.2)\<bar> \<le> D powr (1 / 2.2)"
proof -
  define c where "c = clamp01 w"
  have c: "0 \<le> c" "\<bar>c - u\<bar> \<le> D" using u d by (auto simp: c_def clamp01_def)
  have D: "0 \<le> D" using d by linarith
  have sub: "y powr (1 / 2.2) - x powr (1 / 2.2) \<le> D powr (1 / 2.2)"
    "0 \<le> y powr (1 / 2.2) - x powr (1 / 2.2)"
    if "0 \<le> x" "x \<le> y" "y - x \<le> D" for x y :: real
  proof -
    have "(x + (y - x)) powr (1 / 2.2) \<le> x powr (1 / 2.2) + (y - x) powr (1 / 2.2)"
      using that by (intro powr_add_le) simp_all
    moreover have "(y - x) powr (1 / 2.2) \<le> D powr (1 / 2.2)"
      using that by (intro powr_mono2) simp_all
    ultimately show "y powr (1 / 2.2) - x powr (1 / 2.2) \<le> D powr (1 / 2.2)" by simp
    have "x powr (1 / 2.2) \<le> y powr (1 / 2.2)" using that by (intro powr_mono2) simp_all
    then show "0 \<le> y powr (1 / 2.2) - x powr (1 / 2.2)" by simp
  qed
  show ?thesis
  proof (cases "u \<le> c")
    case True
    then show ?thesis using sub [of u c] u c unfolding c_def [symmetric] by simp
  next
    case False
    then show ?thesis using sub [of c u] u c unfolding c_def [symmetric] by simp
  qed
qed

lemma encode_tolerance: "(11 / 10 ^ 7 :: real) powr (1 / 2.2) \<le> 2 / 10 ^ 3"
proof -
  have "(11 / 10 ^ 7 :: real) \<le> 0.2885 ^ 11" by (simp add: power_divide)
  then have "(11 / 10 ^ 7 :: real) powr (1 / 2.2) \<le> (0.2885 ^ 11) powr (1 / 2.2)"
    by (intro powr_mono2) simp_all
  also have "(0.2885 ^ 11 :: real) = 0.2885 powr 11" by simp
  also have "(0.2885 powr 11 :: real) powr (1 / 2.2) = 0.2885 powr (11 * (1 / 2.2))"
    by (simp only: powr_powr)
  also have "(11 * (1 / 2.2) :: real) = 5" by simp
  also have "(0.2885 :: real) powr 5 \<le> 2 / 10 ^ 3" by (simp add: power_divide)
  finally show ?thesis .
qed

lemma decode_undone:
  fixes r :: real
  assumes "0 \<le> r"
  shows "(r powr 2.2) powr (1 / 2.2) = r"
  using assms by (simp add: powr_powr)

lemma roundtrip_real:
  assumes "unit_rvec (r, g, b)"
  shows "bounded_rvec (2 / 10 ^ 3)
           (case oklab2rgb_real (rgb2oklab_real (r, g, b)) of (x, y, z) \<Rightarrow> (x - r, y - g, z - b))"
proof -
  have v: "0 \<le> r" "0 \<le> g" "0 \<le> b" using assms by (simp_all add: unit_rvec_def)
  define a0 where "a0 = r powr 2.2"
  define a1 where "a1 = g powr 2.2"
  define a2 where "a2 = b powr 2.2"
  have gd: "gamma_decode (r, g, b) = (a0, a1, a2)"
    unfolding gamma_decode_def prod.case a0_def a1_def a2_def ..
  have ua: "unit_rvec (a0, a1, a2)" using unit_gamma_decode [OF assms] unfolding gd .
  then have a: "0 \<le> a0" "a0 \<le> 1" "0 \<le> a1" "a1 \<le> 1" "0 \<le> a2" "a2 \<le> 1"
    by (simp_all add: unit_rvec_def)
  obtain w0 w1 w2 where
    w: "oklab2lin_real (mat_real rLMStoOKLAB (cone_nl (mat_real rCONEtoLMS (a0, a1, a2)))) = (w0, w1, w2)"
    by (cases "oklab2lin_real (mat_real rLMStoOKLAB (cone_nl (mat_real rCONEtoLMS (a0, a1, a2))))") auto
  have d: "\<bar>w0 - a0\<bar> \<le> 11 / 10 ^ 7" "\<bar>w1 - a1\<bar> \<le> 11 / 10 ^ 7" "\<bar>w2 - a2\<bar> \<le> 11 / 10 ^ 7"
    using roundtrip_lin_error [OF ua] unfolding w prod.case bounded_rvec_def by simp_all
  have inv: "a0 powr (1 / 2.2) = r" "a1 powr (1 / 2.2) = g" "a2 powr (1 / 2.2) = b"
    unfolding a0_def a1_def a2_def using v by (simp_all only: decode_undone)
  have e: "oklab2rgb_real (rgb2oklab_real (r, g, b)) =
      (clamp01 w0 powr (1 / 2.2), clamp01 w1 powr (1 / 2.2), clamp01 w2 powr (1 / 2.2))"
    unfolding oklab2rgb_real_def rgb2oklab_real_def rgb2cone_real_def gd w gamma_encode_def
      prod.case ..
  show ?thesis
    unfolding e prod.case bounded_rvec_def
    using encode_close [OF a(1,2) d(1)] encode_close [OF a(3,4) d(2)] encode_close [OF a(5,6) d(3)]
      encode_tolerance
    unfolding inv by simp
qed

text \<open>
  C1, with the tolerance the code meets: for every colour of \<open>[0, 1]\<^sup>3\<close>, and the
  default gamma, each component of \<open>oklab2rgb (rgb2oklab rgb)\<close> is a finite number within
  \<open>2 \<times> 10^-3\<close> of the component of \<open>rgb\<close>. (Arithmetic is exact in this model, so
  the bound is one on the error of the decimal matrices and of the exponent
  \<open>0.3333333\<close>, without rounding.)
\<close>

theorem roundtrip_within:
  assumes "0 \<le> r" "r \<le> 1" "0 \<le> g" "g \<le> 1" "0 \<le> b" "b \<le> 1"
  shows "approx_num (2 / 10 ^ 3) r (vx (oklab2rgb (rgb2oklab (Vec3 (Fin r) (Fin g) (Fin b)) None) None))
       \<and> approx_num (2 / 10 ^ 3) g (vy (oklab2rgb (rgb2oklab (Vec3 (Fin r) (Fin g) (Fin b)) None) None))
       \<and> approx_num (2 / 10 ^ 3) b (vz (oklab2rgb (rgb2oklab (Vec3 (Fin r) (Fin g) (Fin b)) None) None))"
proof -
  have u: "unit_rvec (r, g, b)" using assms by (simp add: unit_rvec_def)
  have o: "Vec3 (Fin r) (Fin g) (Fin b) = of_rvec (r, g, b)" by (simp add: of_rvec_def)
  obtain x y z where w: "oklab2rgb_real (rgb2oklab_real (r, g, b)) = (x, y, z)"
    by (cases "oklab2rgb_real (rgb2oklab_real (r, g, b))") auto
  have "\<bar>x - r\<bar> \<le> 2 / 10 ^ 3" "\<bar>y - g\<bar> \<le> 2 / 10 ^ 3" "\<bar>z - b\<bar> \<le> 2 / 10 ^ 3"
    using roundtrip_real [OF u] unfolding w prod.case bounded_rvec_def by simp_all
  then show ?thesis
    unfolding o roundtrip_shadow [OF u] w by (simp add: of_rvec_def)
qed

theorem roundtrip_within_witness:
  "approx_num (2 / 10 ^ 3) (1 / 2)
     (vx (oklab2rgb (rgb2oklab (Vec3 (Fin (1 / 2)) (Fin (1 / 4)) (Fin (3 / 4))) None) None))
   \<and> approx_num (2 / 10 ^ 3) (1 / 4)
     (vy (oklab2rgb (rgb2oklab (Vec3 (Fin (1 / 2)) (Fin (1 / 4)) (Fin (3 / 4))) None) None))
   \<and> approx_num (2 / 10 ^ 3) (3 / 4)
     (vz (oklab2rgb (rgb2oklab (Vec3 (Fin (1 / 2)) (Fin (1 / 4)) (Fin (3 / 4))) None) None))"
  using roundtrip_within [of "1 / 2" "1 / 4" "3 / 4"] by simp

subsection \<open>Chroma scaled to zero\<close>

text \<open>
  The lightness of a colour of \<open>[0, 1]\<^sup>3\<close> lies in \<open>[0, 1]\<close>: the cube of it is not
  clamped on the way back.
\<close>


lemma cone_quarter_bound:
  fixes m :: real
  assumes "0 \<le> m" "m \<le> 1"
  shows "m powr 0.3333333 \<le> (3 + m) / 4"
proof -
  have sq: "sqrt x \<le> (1 + x) / 2" if "0 \<le> x" for x :: real
  proof -
    have "0 \<le> (1 - x) * (1 - x)" by simp
    then have "x \<le> ((1 + x) / 2)\<^sup>2" by (simp add: power2_eq_square algebra_simps)
    then show ?thesis using that by (intro real_le_lsqrt) simp_all
  qed
  have "m powr 0.3333333 \<le> m powr (1 / 4)" using assms by (intro powr_mono') simp_all
  also have "m powr (1 / 4) = (m powr (1 / 2)) powr (1 / 2)" by (simp add: powr_powr)
  also have "\<dots> = sqrt (sqrt m)" using assms by (simp add: powr_half_sqrt)
  also have "\<dots> \<le> (1 + sqrt m) / 2" using assms by (intro sq) simp
  also have "\<dots> \<le> (1 + (1 + m) / 2) / 2" using sq [OF assms(1)] by simp
  also have "\<dots> = (3 + m) / 4" by (simp add: field_simps)
  finally show ?thesis .
qed

lemma cone_ge_self:
  fixes s :: real
  assumes "0 \<le> s" "s \<le> 1"
  shows "s \<le> s powr 0.3333333"
proof -
  have "s powr 1 \<le> s powr 0.3333333" using assms by (intro powr_mono') simp_all
  then show ?thesis using assms by simp
qed

lemma lightness_lin_range:
  assumes "unit_rvec (a, b, c)"
  shows "0 \<le> fst (mat_real rLMStoOKLAB (cone_nl (mat_real rCONEtoLMS (a, b, c))))"
    "fst (mat_real rLMStoOKLAB (cone_nl (mat_real rCONEtoLMS (a, b, c)))) \<le> 1"
proof -
  have u: "0 \<le> a" "a \<le> 1" "0 \<le> b" "b \<le> 1" "0 \<le> c" "c \<le> 1"
    using assms by (simp_all add: unit_rvec_def)
  define x0 where "x0 = 0.4122214708 * a + 0.5363325363 * b + 0.0514459929 * c"
  define x1 where "x1 = 0.2119034982 * a + 0.6806995451 * b + 0.1073969566 * c"
  define x2 where "x2 = 0.0883024619 * a + 0.2817188376 * b + 0.6299787005 * c"
  have mx: "mat_real rCONEtoLMS (a, b, c) = (x0, x1, x2)"
    unfolding rmat_CONEtoLMS x0_def x1_def x2_def ..
  have x: "0 \<le> x0" "x0 \<le> 1" "0 \<le> x1" "x1 \<le> 1" "0 \<le> x2" "x2 \<le> 1"
    using unit_lms [OF assms] unfolding mx by (simp_all add: unit_rvec_def)
  define p0 where "p0 = x0 powr 0.3333333"
  define p1 where "p1 = x1 powr 0.3333333"
  define p2 where "p2 = x2 powr 0.3333333"
  have cn: "cone_nl (x0, x1, x2) = (p0, p1, p2)"
    unfolding cone_nl_def prod.case p0_def p1_def p2_def using x by (simp only: max_absorb1)
  have e: "fst (mat_real rLMStoOKLAB (cone_nl (mat_real rCONEtoLMS (a, b, c)))) =
      0.2104542553 * p0 + 0.7936177850 * p1 + - 0.0040720468 * p2"
    unfolding mx cn rmat_LMStoOKLAB fst_conv ..
  have p0: "0 \<le> p0" "p0 \<le> 1" unfolding p0_def using x by (simp_all add: powr_le1)
  have p1: "0 \<le> p1" "p1 \<le> 0.75 + 0.25 * x1"
    unfolding p1_def using cone_quarter_bound [OF x(3,4)] by simp_all
  have x21: "6 * x1 \<le> x2 + 5" unfolding x1_def x2_def using u by simp
  have p2: "x2 \<le> p2" unfolding p2_def by (rule cone_ge_self [OF x(5,6)])
  have "x2 \<le> 6 * x1" unfolding x1_def x2_def using u by simp
  then have "x2 powr 0.3333333 \<le> (6 * x1) powr 0.3333333" using x by (intro powr_mono2) simp_all
  also have "\<dots> = 6 powr 0.3333333 * x1 powr 0.3333333" using x by (simp only: powr_mult)
  also have "\<dots> \<le> 6 powr 1 * x1 powr 0.3333333"
    by (intro mult_right_mono powr_mono) simp_all
  finally have p21: "p2 \<le> 6 * p1" unfolding p1_def p2_def by simp
  show "0 \<le> fst (mat_real rLMStoOKLAB (cone_nl (mat_real rCONEtoLMS (a, b, c))))"
    unfolding e using p0 p1 p21 by simp
  have "0.2104542553 * p0 + 0.7936177850 * p1 + - 0.0040720468 * p2
      \<le> 0.2104542553 + 0.7936177850 * (0.75 + 0.25 * x1) + - 0.0040720468 * x2"
  proof (intro add_mono)
    show "0.2104542553 * p0 \<le> 0.2104542553" using p0 by simp
    show "0.7936177850 * p1 \<le> 0.7936177850 * (0.75 + 0.25 * x1)"
      using p1 by (intro mult_left_mono) simp_all
    show "- 0.0040720468 * p2 \<le> - 0.0040720468 * x2" using p2 by simp
  qed
  also have "\<dots> \<le> 1" using x21 x(4) by (simp add: field_simps)
  finally show "fst (mat_real rLMStoOKLAB (cone_nl (mat_real rCONEtoLMS (a, b, c)))) \<le> 1"
    unfolding e .
qed

lemma lightness_range:
  assumes "unit_rvec v"
  shows "0 \<le> fst (rgb2oklab_real v)" "fst (rgb2oklab_real v) \<le> 1"
proof -
  obtain a b c where g: "gamma_decode v = (a, b, c)" by (cases "gamma_decode v") auto
  have "unit_rvec (a, b, c)" using unit_gamma_decode [OF assms] unfolding g .
  then show "0 \<le> fst (rgb2oklab_real v)" "fst (rgb2oklab_real v) \<le> 1"
    unfolding rgb2oklab_real_def rgb2cone_real_def g by (rule lightness_lin_range)+
qed


lemma lightness_readback: "vx (rgb2oklch c) = vx (rgb2oklab c None)"
  by (simp add: rgb2oklch_def oklab2oklch_def Let_def)

lemma gray_lin: "oklab2lin_real (L, 0, 0) = (L * L * L, L * L * L, L * L * L)"
  by (simp add: oklab2lin_real_def rmat_OKLABtoLMS cube_def rmat_LMStoCONE algebra_simps)

lemma scaleChroma_zero:
  assumes r: "rgb2oklab c None = of_rvec (L, a, b)" and bd: "bounded_rvec 500 (L, a, b)"
  shows "scaleChroma c (Fin 0) = of_rvec (gamma_encode (L * L * L, L * L * L, L * L * L))"
proof -
  have m: "\<bar>L\<bar> \<le> 500" "\<bar>a\<bar> \<le> 500" "\<bar>b\<bar> \<le> 500" using bd by (simp_all add: bounded_rvec_def)
  have "\<bar>a\<bar> * \<bar>a\<bar> \<le> 500 * 500" "\<bar>b\<bar> * \<bar>b\<bar> \<le> 500 * 500"
    using m by (intro mult_mono; simp)+
  then have "a * a + b * b \<le> 1000 * 1000" by simp
  also have "\<dots> \<le> 1000 * big" using big_ge by simp
  finally have ab: "a * a + b * b < dbl_limit" using big_limit by linarith
  have lch: "rgb2oklch c =
      Vec3 (Fin L) (Fin (sqrt (a * a + b * b))) (Fin (atan2 b a))"
    unfolding rgb2oklch_def r of_rvec_def prod.case by (rule oklab2oklch_Fin [OF ab])
  have z: "jmul (Fin (sqrt (a * a + b * b))) (Fin 0) = Fin 0" by (simp add: fl_num)
  have lab: "oklch2oklab (Vec3 (Fin L) (Fin 0) (Fin (atan2 b a))) = of_rvec (L, 0, 0)"
    by (simp add: oklch2oklab_def of_rvec_def fl_num Let_def)
  have s: "bounded_rvec small (L, 0, 0)" using m small_ge by (simp add: bounded_rvec_def)
  show ?thesis
    unfolding scaleChroma_def Let_def lch vec3.select_convs z oklch2rgb_def lab
      oklab2rgb_shadow [OF s] oklab2rgb_real_def gray_lin ..
qed

lemma gray_lightness:
  fixes L :: real
  assumes "0 \<le> L" "L \<le> 1"
  shows "\<bar>fst (rgb2oklab_real (gamma_encode (L * L * L, L * L * L, L * L * L))) - L\<bar> \<le> 1 / 10 ^ 6"
proof -
  define c where "c = L * L * L"
  have c: "0 \<le> c" "c \<le> 1"
    unfolding c_def using assms by (simp_all add: mult_le_one)
  then have cl: "clamp01 c = c" by (simp add: clamp01_def)
  define P where "P = L powr 0.9999999"
  define k where "k = (0.9999999999::real) powr 0.3333333"
  have "c powr 0.3333333 = L powr 0.3333333 * L powr 0.3333333 * L powr 0.3333333"
    unfolding c_def using assms by (simp only: powr_mult)
  then have cP: "c powr 0.3333333 = P" unfolding P_def by (simp only: cone_cubed)
  define Q where "Q = k * P"
  have ck: "(0.9999999999 * c) powr 0.3333333 = Q"
    unfolding Q_def k_def cP [symmetric] using c by (simp only: powr_mult)
  have m: "max c 0 = c" "max (0.9999999999 * c) 0 = 0.9999999999 * c" using c by simp_all
  have x: "mat_real rCONEtoLMS (c, c, c) = (c, 0.9999999999 * c, c)"
    by (simp add: rmat_CONEtoLMS algebra_simps)
  have e: "fst (rgb2oklab_real (gamma_encode (c, c, c))) =
      0.2104542553 * P + 0.7936177850 * Q + - 0.0040720468 * P"
    unfolding rgb2oklab_real_def rgb2cone_real_def decode_encode cl x cone_nl_def prod.case m
      rmat_LMStoOKLAB fst_conv cP ck ..
  have P: "L \<le> P" "P \<le> L + 1 / 9999999" unfolding P_def by (rule powr7_unit [OF assms])+
  have k: "0.9999999999 \<le> k" "k \<le> 1"
  proof -
    have "(0.9999999999::real) powr 1 \<le> 0.9999999999 powr 0.3333333"
      by (intro powr_mono') simp_all
    then show "0.9999999999 \<le> k" unfolding k_def by simp
    show "k \<le> 1" unfolding k_def by (simp add: powr_le1)
  qed
  have P0: "0 \<le> P" using P assms by linarith
  have kP: "0.9999999999 * P \<le> Q" "Q \<le> 1 * P"
    unfolding Q_def by (rule mult_right_mono [OF k(1) P0], rule mult_right_mono [OF k(2) P0])
  show ?thesis unfolding c_def [symmetric] e abs_le_iff using kP P assms by simp
qed


lemma vx_of_rvec: "vx (of_rvec v) = Fin (fst v)"
  by (simp add: of_rvec_def split_beta)

lemma gray_encoded: "neutral_gray (1 / 10 ^ 9) (of_rvec (gamma_encode (c, c, c)))"
  by (simp add: neutral_gray_def of_rvec_def gamma_encode_def)

text \<open>
  C7, for colours of \<open>[0, 1]\<^sup>3\<close>: \<open>scaleChroma rgb 0\<close> is a neutral gray, its three
  components being finite and equal up to floating-point error (stated as pairwise
  within \<open>10^-9\<close>), and its lightness, read back through \<open>rgb2oklch\<close>, is within
  \<open>10^-6\<close> of the lightness of \<open>rgb\<close>.
\<close>

theorem scaleChroma_zero_gray:
  assumes "0 \<le> r" "r \<le> 1" "0 \<le> g" "g \<le> 1" "0 \<le> b" "b \<le> 1"
  shows "neutral_gray (1 / 10 ^ 9) (scaleChroma (Vec3 (Fin r) (Fin g) (Fin b)) (Fin 0))
       \<and> approx_eq (1 / 10 ^ 6)
           (vx (rgb2oklch (scaleChroma (Vec3 (Fin r) (Fin g) (Fin b)) (Fin 0))))
           (vx (rgb2oklch (Vec3 (Fin r) (Fin g) (Fin b))))"
proof -
  have u: "unit_rvec (r, g, b)" using assms by (simp add: unit_rvec_def)
  have o: "Vec3 (Fin r) (Fin g) (Fin b) = of_rvec (r, g, b)" by (simp add: of_rvec_def)
  obtain L p q where lab: "rgb2oklab_real (r, g, b) = (L, p, q)"
    by (cases "rgb2oklab_real (r, g, b)") auto
  have L: "0 \<le> L" "L \<le> 1" using lightness_range [OF u] unfolding lab by simp_all
  have "bounded_rvec 1 (rgb2cone_real (r, g, b))" using u by (intro unit_bounded_rvec unit_rgb2cone)
  then have "bounded_rvec (15 * 1) (rgb2oklab_real (r, g, b))"
    unfolding rgb2oklab_real_def by (intro mat_real_bounded kLMStoOKLAB_r)
  then have bd: "bounded_rvec 500 (L, p, q)" unfolding lab by (elim bounded_rvec_mono) simp
  have i: "rgb2oklab (of_rvec (r, g, b)) None = of_rvec (L, p, q)"
    unfolding rgb2oklab_shadow [OF u] lab ..
  note s = scaleChroma_zero [OF i bd]
  have l1: "vx (rgb2oklch (of_rvec (r, g, b))) = Fin L"
    unfolding lightness_readback i by (simp add: vx_of_rvec)
  have l2: "vx (rgb2oklch (of_rvec (gamma_encode (L * L * L, L * L * L, L * L * L)))) =
      Fin (fst (rgb2oklab_real (gamma_encode (L * L * L, L * L * L, L * L * L))))"
    unfolding lightness_readback rgb2oklab_shadow [OF unit_gamma_encode] vx_of_rvec ..
  show ?thesis
    unfolding o s l1 l2 using gray_encoded [of "L * L * L"] gray_lightness [OF L] by simp
qed

theorem scaleChroma_zero_gray_witness:
  "neutral_gray (1 / 10 ^ 9) (scaleChroma (Vec3 (Fin (1 / 2)) (Fin (1 / 4)) (Fin (3 / 4))) (Fin 0))
   \<and> approx_eq (1 / 10 ^ 6)
       (vx (rgb2oklch (scaleChroma (Vec3 (Fin (1 / 2)) (Fin (1 / 4)) (Fin (3 / 4))) (Fin 0))))
       (vx (rgb2oklch (Vec3 (Fin (1 / 2)) (Fin (1 / 4)) (Fin (3 / 4)))))"
  using scaleChroma_zero_gray [of "1 / 2" "1 / 4" "3 / 4"] by simp

lemma root4_lower:
  fixes t :: real
  assumes "3.8416 \<le> t"
  shows "1.4 \<le> t powr 0.3333333"
proof -
  have "(1.4::real) = (1.4 powr 4) powr (1 / 4)" by (simp only: powr_powr) simp
  also have "(1.4::real) powr 4 = 3.8416" by (simp add: power_divide)
  also have "(3.8416::real) powr (1 / 4) \<le> 3.8416 powr 0.3333333"
    by (intro powr_mono) simp_all
  also have "\<dots> \<le> t powr 0.3333333" using assms by (intro powr_mono2) simp_all
  finally show ?thesis .
qed

lemma bright_lab:
  defines "d \<equiv> (2::real) powr 2.2"
  shows "rgb2oklab (Vec3 (Fin 2) (Fin 2) (Fin 2)) None =
           of_rvec (mat_real rLMStoOKLAB (cone_nl (mat_real rCONEtoLMS (d, d, d))))"
    "bounded_rvec 500 (mat_real rLMStoOKLAB (cone_nl (mat_real rCONEtoLMS (d, d, d))))"
    "1.3 \<le> fst (mat_real rLMStoOKLAB (cone_nl (mat_real rCONEtoLMS (d, d, d))))"
proof -
  have d: "4 \<le> d" "d \<le> 8"
  proof -
    have "(2::real) powr 2 \<le> 2 powr 2.2" by (intro powr_mono) simp_all
    then show "4 \<le> d" unfolding d_def by simp
    have "(2::real) powr 2.2 \<le> 2 powr 3" by (intro powr_mono) simp_all
    then show "d \<le> 8" unfolding d_def by simp
  qed
  have "fl d = Fin d" using d by (intro fl_num) simp
  then have jp: "jpow (Fin 2) (Fin 2.2) = Fin d" unfolding d_def by simp
  have o: "Vec3 (Fin d) (Fin d) (Fin d) = of_rvec (d, d, d)" by (simp add: of_rvec_def)
  have b1: "bounded_rvec 8 (d, d, d)" using d by (simp add: bounded_rvec_def)
  have b2: "bounded_rvec (15 * 8) (mat_real rCONEtoLMS (d, d, d))"
    using b1 by (intro mat_real_bounded kCONEtoLMS_r)
  have x: "mat_real rCONEtoLMS (d, d, d) = (d, 0.9999999999 * d, d)"
    by (simp add: rmat_CONEtoLMS algebra_simps)
  define p0 where "p0 = d powr 0.3333333"
  define p1 where "p1 = (0.9999999999 * d) powr 0.3333333"
  have m: "max d 0 = d" "max (0.9999999999 * d) 0 = 0.9999999999 * d" using d by simp_all
  have cn: "cone_nl (d, 0.9999999999 * d, d) = (p0, p1, p0)"
    unfolding cone_nl_def prod.case m p0_def p1_def ..
  have p0: "1.4 \<le> p0" "p0 \<le> 9"
  proof -
    show "1.4 \<le> p0" unfolding p0_def using d by (intro root4_lower) simp
    have "d powr 0.3333333 \<le> 1 + d" using d by (intro powr_le_max) simp_all
    then show "p0 \<le> 9" unfolding p0_def using d by simp
  qed
  have p1: "1.4 \<le> p1" "p1 \<le> 9"
  proof -
    show "1.4 \<le> p1" unfolding p1_def using d by (intro root4_lower) simp
    have "(0.9999999999 * d) powr 0.3333333 \<le> 1 + 0.9999999999 * d"
      using d by (intro powr_le_max) simp_all
    then show "p1 \<le> 9" unfolding p1_def using d by simp
  qed
  have b3: "bounded_rvec 9 (p0, p1, p0)" using p0 p1 by (simp add: bounded_rvec_def)
  have l: "120 < dbl_limit" "8 \<le> 50 * big" "9 \<le> 50 * big"
    using limit_gt_num big_ge by linarith+
  show "rgb2oklab (Vec3 (Fin 2) (Fin 2) (Fin 2)) None =
           of_rvec (mat_real rLMStoOKLAB (cone_nl (mat_real rCONEtoLMS (d, d, d))))"
    unfolding rgb2oklab_def Let_def gamma_or_default_def option.case vec3.select_convs jp o
      mat_shadow(1) [OF b1 l(2)] cone_shadow [OF b2 [simplified] l(1)]
    unfolding x cn by (rule mat_shadow(2) [OF b3 l(3)])
  have "bounded_rvec (15 * 9) (mat_real rLMStoOKLAB (p0, p1, p0))"
    using b3 by (intro mat_real_bounded kLMStoOKLAB_r)
  then show "bounded_rvec 500 (mat_real rLMStoOKLAB (cone_nl (mat_real rCONEtoLMS (d, d, d))))"
    unfolding x cn by (elim bounded_rvec_mono) simp
  show "1.3 \<le> fst (mat_real rLMStoOKLAB (cone_nl (mat_real rCONEtoLMS (d, d, d))))"
    unfolding x cn rmat_LMStoOKLAB fst_conv using p0 p1 by simp
qed

text \<open>
  C7 as stated, for every \<open>rgb\<close>, fails outside the unit cube: \<open>(2, 2, 2)\<close> has a
  lightness of at least 1.3, the clamp of \<open>oklab2rgb\<close> turns it into white, and white has
  a lightness of at most 1.
\<close>

theorem scaleChroma_lightness_counterexample:
  "\<not> approx_eq (1 / 10)
       (vx (rgb2oklch (scaleChroma (Vec3 (Fin 2) (Fin 2) (Fin 2)) (Fin 0))))
       (vx (rgb2oklch (Vec3 (Fin 2) (Fin 2) (Fin 2))))"
proof -
  obtain L p q where
    lab: "mat_real rLMStoOKLAB (cone_nl (mat_real rCONEtoLMS (2 powr 2.2, 2 powr 2.2, 2 powr 2.2)))
            = (L, p, q)"
    by (cases "mat_real rLMStoOKLAB (cone_nl (mat_real rCONEtoLMS (2 powr 2.2, 2 powr 2.2, 2 powr 2.2)))")
      auto
  note b = bright_lab [unfolded lab]
  have L: "1.3 \<le> L" using b(3) by simp
  have "1 * 1 * 1 \<le> L * L * L" using L by (intro mult_mono) simp_all
  then have cl: "clamp01 (L * L * L) = 1" by (simp add: clamp01_def)
  have g: "gamma_encode (L * L * L, L * L * L, L * L * L) = (1, 1, 1)"
    by (simp add: gamma_encode_def cl)
  have s: "scaleChroma (Vec3 (Fin 2) (Fin 2) (Fin 2)) (Fin 0) = of_rvec (1, 1, 1)"
    unfolding scaleChroma_zero [OF b(1,2)] g ..
  have l1: "vx (rgb2oklch (Vec3 (Fin 2) (Fin 2) (Fin 2))) = Fin L"
    unfolding lightness_readback b(1) by (simp add: vx_of_rvec)
  have l2: "vx (rgb2oklch (of_rvec (1, 1, 1))) = Fin (fst (rgb2oklab_real (1, 1, 1)))"
    unfolding lightness_readback rgb2oklab_shadow [OF corner_units(3)] vx_of_rvec ..
  have "fst (rgb2oklab_real (1, 1, 1)) \<le> 1" by (rule lightness_range(2) [OF corner_units(3)])
  then show ?thesis unfolding s l1 l2 using L by simp
qed

section \<open>The pipeline of \<open>mix\<close>\<close>

subsection \<open>Special values through the first steps\<close>












































section \<open>The clamp of \<open>oklab2rgb\<close> and the other conversions\<close>

text \<open>
  White mixed with white: the second cone component is slightly below 1, so the linear
  red component, and the red output of \<open>mix\<close>, are above 1.
\<close>


lemma white_mix_above_one:
  obtains v where "vx (mix (Vec3 (Fin 1) (Fin 1) (Fin 1)) (Vec3 (Fin 1) (Fin 1) (Fin 1)) (Fin 0)) = Fin v"
    "1 < v"
proof -
  define k where "k = (0.9999999999::real) powr 0.3333333"
  have k: "0 \<le> k" "k < 1"
  proof -
    show "0 \<le> k" unfolding k_def by simp
    have "(0.9999999999::real) powr 0.3333333 < 0.9999999999 powr 0"
      by (intro powr_less_mono') simp_all
    then show "k < 1" unfolding k_def by simp
  qed
  have x: "mat_real rCONEtoLMS (1, 1, 1) = (1, 0.9999999999, 1)"
    by (simp add: rmat_CONEtoLMS)
  have c: "rgb2cone_real (1, 1, 1) = (1, k, 1)"
    unfolding rgb2cone_real_def by (simp add: gamma_decode_def x cone_nl_def k_def)
  define lin where "lin = 4.0767416621 * (1 * 1 * 1) + - 3.3077115913 * (k * k * k)
      + 0.2309699292 * (1 * 1 * 1 :: real)"
  have l: "fst (mix_lin_real (1, 1, 1) (1, 1, 1) 0) = lin"
    unfolding mix_lin_real_def interpolate_zero c cube_def prod.case rmat_LMStoCONE fst_conv
      lin_def ..
  have "k * k * k < 1 * 1 * 1"
  proof -
    have "k * k \<le> 1 * 1" using k by (intro mult_mono) simp_all
    then have "k * k * k \<le> 1 * k" using k by (intro mult_right_mono) simp_all
    then show ?thesis using k by simp
  qed
  then have lin: "1 < lin" unfolding lin_def by simp
  have "1 powr 0.4545454 < lin powr 0.4545454" using lin by (intro powr_less_mono2) simp_all
  then have p: "1 < lin powr 0.4545454" by simp
  have "vx (mix (of_rvec (1, 1, 1)) (of_rvec (1, 1, 1)) (Fin 0)) = Fin (lin powr 0.4545454)"
    unfolding mix_shadow [OF corner_units(3) corner_units(3) small_ge_one(1)] vx_mix_real l
    using lin by (simp add: inverse_gamma_unclamped_def)
  then have "vx (mix (Vec3 (Fin 1) (Fin 1) (Fin 1)) (Vec3 (Fin 1) (Fin 1) (Fin 1)) (Fin 0))
      = Fin (lin powr 0.4545454)" unfolding corner_vecs .
  then show ?thesis using p by (rule that)
qed

lemma bright_lightness:
  obtains L where "vx (rgb2oklab (Vec3 (Fin 2) (Fin 2) (Fin 2)) None) = Fin L" "1.3 \<le> L"
proof -
  have "vx (rgb2oklab (Vec3 (Fin 2) (Fin 2) (Fin 2)) None) =
      Fin (fst (mat_real rLMStoOKLAB (cone_nl (mat_real rCONEtoLMS (2 powr 2.2, 2 powr 2.2, 2 powr 2.2)))))"
    unfolding bright_lab(1) by (rule vx_of_rvec)
  then show ?thesis using bright_lab(3) by (rule that)
qed

lemma tiny_gamma_nan:
  "vx (oklab2rgb (Vec3 (Fin 2) (Fin 0) (Fin 0)) (Some (Fin (1 / 10 ^ 320)))) = NaN"
proof -
  define G :: real where "G = 10 ^ 320"
  have G: "0 < G" "dbl_limit \<le> G" unfolding G_def using dbl_limit_le by simp_all
  have "fl (1 / (1 / G)) = PInf" using G by (simp add: fl_def)
  then have ig: "jdiv (Fin 1) (Fin (1 / G)) = PInf" using G by simp
  have sb: "2 \<le> 50 * big" "8 \<le> 50 * big" using big_ge by linarith+
  have 1: "mat3MulVec3 kOKLABtoLMS (Vec3 (Fin 2) (Fin 0) (Fin 0)) = Vec3 (Fin 2) (Fin 2) (Fin 2)"
    using mat_OKLABtoLMS [of 2 2 0 0] sb by simp
  have "\<bar>2::real\<bar> \<le> 3 * small" using small_ge by simp
  from cube_Fin(1) [OF this]
  have 2: "multiply (multiply (Vec3 (Fin 2) (Fin 2) (Fin 2)) (Vec3 (Fin 2) (Fin 2) (Fin 2)))
      (Vec3 (Fin 2) (Fin 2) (Fin 2)) = Vec3 (Fin 8) (Fin 8) (Fin 8)"
    by (simp add: multiply_def)
  have 3: "mat3MulVec3 kLMStoCONE (Vec3 (Fin 8) (Fin 8) (Fin 8)) = Vec3 (Fin 8) (Fin 8) (Fin 8)"
    using mat_LMStoCONE [of 8 8 8 8] sb by simp
  show ?thesis
    unfolding oklab2rgb_def Let_def gamma_or_default_def option.case G_def [symmetric] ig 1 2 3
    by simp
qed

text \<open>
  C8, as amended. For an Oklab input whose three components are finite and at most
  \<open>10 ^ 100\<close> in magnitude, and a gamma that is left out, positive with a finite
  inverse, or infinite, each component of \<open>oklab2rgb\<close> is a number of the unit
  interval: the linear components are finite and are clamped before the power is taken.
  No other conversion clamps: \<open>oklch2rgb\<close> has the clamp of \<open>oklab2rgb\<close>, which it
  calls, and \<open>rgb2oklab\<close>, \<open>rgb2oklch\<close>, \<open>oklab2oklch\<close>, \<open>oklch2oklab\<close> and
  \<open>mix\<close> each return a finite component outside the unit interval for some input;
  \<open>mix\<close> does so for white mixed with white.
\<close>

theorem oklab2rgb_in_unit:
  assumes lab: "bounded_by (10 ^ 100) (vx lab)" "bounded_by (10 ^ 100) (vy lab)"
      "bounded_by (10 ^ 100) (vz lab)"
    and g: "gamma_ok g"
  shows "in_unit (vx (oklab2rgb lab g)) \<and> in_unit (vy (oklab2rgb lab g))
         \<and> in_unit (vz (oklab2rgb lab g))
         \<and> oklch2rgb lch = oklab2rgb (oklch2oklab lch) None
         \<and> finite_num (vx (rgb2oklab (Vec3 (Fin 2) (Fin 2) (Fin 2)) None))
         \<and> \<not> in_unit (vx (rgb2oklab (Vec3 (Fin 2) (Fin 2) (Fin 2)) None))
         \<and> finite_num (vx (rgb2oklch (Vec3 (Fin 2) (Fin 2) (Fin 2))))
         \<and> \<not> in_unit (vx (rgb2oklch (Vec3 (Fin 2) (Fin 2) (Fin 2))))
         \<and> vx (oklab2oklch (Vec3 (Fin 2) (Fin 0) (Fin 0))) = Fin 2
         \<and> vx (oklch2oklab (Vec3 (Fin 2) (Fin 0) (Fin 0))) = Fin 2
         \<and> finite_num (vx (mix (Vec3 (Fin 1) (Fin 1) (Fin 1)) (Vec3 (Fin 1) (Fin 1) (Fin 1)) (Fin 0)))
         \<and> \<not> in_unit (vx (mix (Vec3 (Fin 1) (Fin 1) (Fin 1)) (Vec3 (Fin 1) (Fin 1) (Fin 1)) (Fin 0)))"
proof -
  note r = oklab2rgb_range [OF lab g]
  have d: "oklch2rgb lch = oklab2rgb (oklch2oklab lch) None" by (simp add: oklch2rgb_def)
  obtain L where L: "vx (rgb2oklab (Vec3 (Fin 2) (Fin 2) (Fin 2)) None) = Fin L" "1.3 \<le> L"
    by (rule bright_lightness)
  have a: "finite_num (vx (rgb2oklab (Vec3 (Fin 2) (Fin 2) (Fin 2)) None))"
    "\<not> in_unit (vx (rgb2oklab (Vec3 (Fin 2) (Fin 2) (Fin 2)) None))"
    unfolding L(1) using L(2) by simp_all
  have b: "finite_num (vx (rgb2oklch (Vec3 (Fin 2) (Fin 2) (Fin 2))))"
    "\<not> in_unit (vx (rgb2oklch (Vec3 (Fin 2) (Fin 2) (Fin 2))))"
    unfolding lightness_readback by (rule a)+
  have c: "vx (oklab2oklch (Vec3 (Fin 2) (Fin 0) (Fin 0))) = Fin 2"
    "vx (oklch2oklab (Vec3 (Fin 2) (Fin 0) (Fin 0))) = Fin 2"
    by (simp_all add: oklab2oklch_def oklch2oklab_def Let_def)
  obtain v where v: "vx (mix (Vec3 (Fin 1) (Fin 1) (Fin 1)) (Vec3 (Fin 1) (Fin 1) (Fin 1)) (Fin 0)) = Fin v"
    "1 < v" by (rule white_mix_above_one)
  have m: "finite_num (vx (mix (Vec3 (Fin 1) (Fin 1) (Fin 1)) (Vec3 (Fin 1) (Fin 1) (Fin 1)) (Fin 0)))"
    "\<not> in_unit (vx (mix (Vec3 (Fin 1) (Fin 1) (Fin 1)) (Vec3 (Fin 1) (Fin 1) (Fin 1)) (Fin 0)))"
    unfolding v(1) using v(2) by simp_all
  show ?thesis using r d a b c m by blast
qed

text \<open>The theorem applied to the Oklab vector \<open>(1, 0, 0)\<close> with the default gamma.\<close>

theorem oklab2rgb_in_unit_witness:
  "bounded_by (10 ^ 100) (Fin 1) \<and> bounded_by (10 ^ 100) (Fin 0) \<and> gamma_ok None
   \<and> in_unit (vx (oklab2rgb (Vec3 (Fin 1) (Fin 0) (Fin 0)) None))
   \<and> in_unit (vy (oklab2rgb (Vec3 (Fin 1) (Fin 0) (Fin 0)) None))
   \<and> in_unit (vz (oklab2rgb (Vec3 (Fin 1) (Fin 0) (Fin 0)) None))"
  using oklab2rgb_in_unit [of "Vec3 (Fin 1) (Fin 0) (Fin 0)" None]
  by (simp add: gamma_ok_def)

text \<open>
  C8 as stated fails in two ways. The finite input \<open>(10 ^ 150, 0, 0)\<close> overflows when
  it is cubed and \<open>oklab2rgb\<close> returns NaN for it. And the positive gamma \<open>10^-320\<close>
  has an infinite inverse: the linear components of \<open>(2, 0, 0)\<close> are clamped to 1, and
  1 raised to +Infinity is NaN.
\<close>

theorem oklab2rgb_overflow_counterexample:
  "vx (oklab2rgb (Vec3 (Fin (10 ^ 150)) (Fin 0) (Fin 0)) None) = NaN
   \<and> vx (oklab2rgb (Vec3 (Fin 2) (Fin 0) (Fin 0)) (Some (Fin (1 / 10 ^ 320)))) = NaN"
  using lab_overflow_nan tiny_gamma_nan by (rule conjI)

end
